(* ===== verification/Prelude.thy ===== *)
theory Prelude
  imports Main "HOL-Library.Multiset" "HOL-Library.Sublist" "HOL-Library.Word"
begin

text \<open>
  Shared vocabulary of the development: the model's names for Go's basic types, the
  first-occurrence de-duplication that five functions of the program repeat, the ceiling
  division of the budget arithmetic, and generic facts on folds, permutations and sums that
  the component theories use. The collection \<open>dedup_laws\<close> gathers the facts on
  de-duplication; \<open>tally_laws\<close> gathers the facts on counting by a key.
\<close>

named_theorems dedup_laws "facts about first-occurrence de-duplication"
named_theorems tally_laws "facts about counting list elements by a key"

subsection \<open>Names of Go's types\<close>

text \<open>
  A Go \<open>string\<close> is a byte sequence, so it is a list of 8-bit characters here. A duration is
  a count of nanoseconds. An instant is a count of nanoseconds since Go's zero time, so that
  \<open>IsZero\<close> is equality with 0; every instant a clock returns is positive.
\<close>

type_synonym rune = nat
type_synonym duration = int
type_synonym gotime = int

abbreviation (input) IsZero :: "gotime \<Rightarrow> bool" where
  "IsZero t \<equiv> t = 0"

definition Second :: duration where
  "Second = 1000000000"

definition Millisecond :: duration where
  "Millisecond = 1000000"

text \<open>
  A duration is an \<open>int64\<close>, so a product of durations wraps around; the sums and differences of
  the program are those of instants that a clock returned.
\<close>

definition int64_ok :: "int \<Rightarrow> bool" where
  "int64_ok n \<longleftrightarrow> - (2 ^ 63) \<le> n \<and> n < 2 ^ 63"

definition int64 :: "int \<Rightarrow> int" where
  "int64 n = sint (word_of_int n :: 64 word)"

lemma int64_exact: "int64_ok n \<Longrightarrow> int64 n = n"
  using signed_take_bit_int_eq_self[of 63 n] by (simp add: int64_def int64_ok_def sint_sbintrunc')

lemmas duration_units = Second_def Millisecond_def

subsection \<open>De-duplication in first-occurrence order\<close>

text \<open>
  The loop \<open>for x in xs: if seen[x] continue; seen[x] = true; out = append(out, x)\<close>.
\<close>

fun dedup_from :: "'a set \<Rightarrow> 'a list \<Rightarrow> 'a list" where
  "dedup_from seen [] = []"
| "dedup_from seen (x # xs) =
     (if x \<in> seen then dedup_from seen xs else x # dedup_from (insert x seen) xs)"

lemma set_dedup_from [dedup_laws, simp]: "set (dedup_from seen xs) = set xs - seen"
  by (induction seen xs rule: dedup_from.induct) auto

lemma distinct_dedup_from [dedup_laws, simp]: "distinct (dedup_from seen xs)"
  by (induction seen xs rule: dedup_from.induct) auto

lemma subseq_dedup_from [dedup_laws]: "subseq (dedup_from seen xs) xs"
  by (induction seen xs rule: dedup_from.induct) auto

lemma dedup_from_distinct [dedup_laws]:
  "distinct xs \<Longrightarrow> set xs \<inter> seen = {} \<Longrightarrow> dedup_from seen xs = xs"
  by (induction seen xs rule: dedup_from.induct) auto

lemma length_dedup_from_le [dedup_laws]: "length (dedup_from seen xs) \<le> length xs"
  by (induction seen xs rule: dedup_from.induct) auto

lemma dedup_from_append [dedup_laws]:
  "dedup_from seen (xs @ ys) = dedup_from seen xs @ dedup_from (seen \<union> set xs) ys"
  by (induction seen xs rule: dedup_from.induct) (auto simp: insert_absorb Un_commute)

subsection \<open>Ceiling division\<close>

definition ceil_div :: "nat \<Rightarrow> nat \<Rightarrow> nat" where
  "ceil_div n k = (n + k - 1) div k"

lemma ceil_div_mult_ge: "0 < k \<Longrightarrow> n \<le> ceil_div n k * k"
proof -
  assume k: "0 < k"
  have "n + k - 1 < ((n + k - 1) div k + 1) * k"
    using k by (metis add.commute dividend_less_div_times mult.commute mult_Suc_right plus_1_eq_Suc)
  then show ?thesis using k by (simp add: ceil_div_def algebra_simps)
qed

lemma ceil_div_pos: "0 < n \<Longrightarrow> 0 < k \<Longrightarrow> 0 < ceil_div n k"
  by (metis ceil_div_mult_ge mult_is_0 not_gr0 not_less zero_less_iff_neq_zero)

subsection \<open>Counting by a key\<close>

text \<open>The number of elements of a list that satisfy a test, as the tally loops compute it.\<close>

abbreviation count_if :: "('a \<Rightarrow> bool) \<Rightarrow> 'a list \<Rightarrow> nat" where
  "count_if P xs \<equiv> length (filter P xs)"

lemma count_if_le [tally_laws]: "count_if P xs \<le> length xs"
  by simp

lemma count_if_mono [tally_laws]:
  "(\<And>x. x \<in> set xs \<Longrightarrow> P x \<Longrightarrow> Q x) \<Longrightarrow> count_if P xs \<le> count_if Q xs"
  by (induction xs) (auto intro: le_SucI)

lemma count_if_pos [tally_laws]: "0 < count_if P xs \<longleftrightarrow> (\<exists>x\<in>set xs. P x)"
  by (induction xs) auto

lemma count_if_split [tally_laws]:
  "count_if P xs = count_if (\<lambda>x. P x \<and> Q x) xs + count_if (\<lambda>x. P x \<and> \<not> Q x) xs"
  by (induction xs) auto

lemma count_if_compl [tally_laws]: "count_if P xs + count_if (\<lambda>x. \<not> P x) xs = length xs"
  by (rule sum_length_filter_compl)

lemma sum_count_if_key [tally_laws]:
  assumes "finite K" and "\<And>x. x \<in> set xs \<Longrightarrow> P x \<Longrightarrow> f x \<in> K"
  shows "(\<Sum>k\<in>K. count_if (\<lambda>x. P x \<and> f x = k) xs) = count_if P xs"
  using assms(2)
proof (induction xs)
  case Nil
  then show ?case by simp
next
  case (Cons x xs)
  have eq: "count_if (\<lambda>y. P y \<and> f y = k) (x # xs)
      = (if P x \<and> f x = k then 1 else 0) + count_if (\<lambda>y. P y \<and> f y = k) xs" for k
    by simp
  have "(\<Sum>k\<in>K. if P x \<and> f x = k then (1::nat) else 0) = (if P x then 1 else 0)"
    using Cons.prems[of x] assms(1) by (cases "P x") (simp_all add: sum.delta)
  then show ?case
    using Cons.IH Cons.prems by (simp only: eq sum.distrib) simp
qed

subsection \<open>Results with errors\<close>

text \<open>
  A Go function that returns \<open>(T, error)\<close> is a function into \<open>error + T\<close>: \<open>Inl\<close> is the
  error return. \<open>and_then\<close> is the \<open>if err != nil { return err }\<close> of the code.
\<close>

definition and_then :: "'e + 'a \<Rightarrow> ('a \<Rightarrow> 'e + 'b) \<Rightarrow> 'e + 'b" where
  "and_then r f = (case r of Inl e \<Rightarrow> Inl e | Inr x \<Rightarrow> f x)"

lemma and_then_simps [simp]:
  "and_then (Inl e) f = Inl e"
  "and_then (Inr x) f = f x"
  by (simp_all add: and_then_def)

lemma and_then_Inr [simp]: "and_then r f = Inr y \<longleftrightarrow> (\<exists>x. r = Inr x \<and> f x = Inr y)"
  by (cases r) auto

subsection \<open>Partial maps over lists\<close>

lemma map_filter_append [simp]: "List.map_filter f (xs @ ys) = List.map_filter f xs @ List.map_filter f ys"
  by (simp add: List.map_filter_def)

lemma map_filter_one [simp]:
  "List.map_filter f [] = []"
  "List.map_filter f (x # xs) = (case f x of None \<Rightarrow> List.map_filter f xs | Some y \<Rightarrow> y # List.map_filter f xs)"
  by (simp_all add: List.map_filter_def split: option.split)

subsection \<open>Folds that commute\<close>

text \<open>
  Go iterates a map in an unspecified order. A loop over a map is modelled as a fold over a
  list of its keys; this fact makes the result independent of the list's order.
\<close>

lemma fold_mset_order:
  assumes "mset xs = mset ys"
    and "\<And>x y s. x \<in> set xs \<Longrightarrow> y \<in> set xs \<Longrightarrow> f x (f y s) = f y (f x s)"
  shows "fold f xs s = fold f ys s"
proof -
  have "fold f xs = fold f ys"
    by (rule fold_multiset_equiv [OF _ assms(1)]) (auto simp: fun_eq_iff assms(2))
  then show ?thesis by simp
qed

end
