(* ===== verification/Go_Strings.thy ===== *)
theory Go_Strings
  imports Prelude "HOL-Library.Char_ord" "HOL-Library.List_Lexorder"
begin

text \<open>
  The part of Go's \<open>strings\<close>, \<open>unicode/utf8\<close>, \<open>unicode\<close> and \<open>strconv\<close> packages that the
  program uses, on byte strings. Iterating a string yields its runes with invalid bytes
  replaced by U+FFFD one byte at a time; \<open>chunks\<close> keeps each rune with the bytes it came
  from, so the operations that cut a string (\<open>TrimSpace\<close>, \<open>Fields\<close>) return the original
  bytes. Unicode's tables above U+00FF are data of the Unicode consortium and enter as a
  record of predicates; below, they are written out.
\<close>

subsection \<open>UTF-8\<close>

definition RuneError :: rune where
  "RuneError = 0xFFFD"

definition in_rng :: "nat \<Rightarrow> nat \<Rightarrow> char \<Rightarrow> bool" where
  "in_rng lo hi c \<longleftrightarrow> lo \<le> of_char c \<and> of_char c \<le> hi"

definition low6 :: "char \<Rightarrow> nat" where
  "low6 c = of_char c mod 64"

text \<open>
  \<open>utf8.DecodeRuneInString\<close>: the first rune and its width in bytes, by the number of bytes
  the first byte announces. A byte sequence that is not valid decodes as one bad byte.
\<close>

definition bad_byte :: "rune \<times> nat" where
  "bad_byte = (RuneError, 1)"

definition decode2 :: "nat \<Rightarrow> string \<Rightarrow> rune \<times> nat" where
  "decode2 b cs = (case cs of
     c1 # _ \<Rightarrow> if in_rng 0x80 0xBF c1 then (b mod 32 * 64 + low6 c1, 2) else bad_byte
   | [] \<Rightarrow> bad_byte)"

definition decode3 :: "nat \<Rightarrow> string \<Rightarrow> rune \<times> nat" where
  "decode3 b cs = (case cs of
     c1 # c2 # _ \<Rightarrow>
       if in_rng (if b = 0xE0 then 0xA0 else 0x80) (if b = 0xED then 0x9F else 0xBF) c1
          \<and> in_rng 0x80 0xBF c2
       then (b mod 16 * 4096 + low6 c1 * 64 + low6 c2, 3) else bad_byte
   | _ \<Rightarrow> bad_byte)"

text \<open>The range of the second byte of a four-byte sequence.\<close>

definition lo4 :: "nat \<Rightarrow> nat" where
  "lo4 b = (if b = 0xF0 then 0x90 else 0x80)"

definition hi4 :: "nat \<Rightarrow> nat" where
  "hi4 b = (if b = 0xF4 then 0x8F else 0xBF)"

definition decode4 :: "nat \<Rightarrow> string \<Rightarrow> rune \<times> nat" where
  "decode4 b cs = (case cs of
     c1 # c2 # c3 # _ \<Rightarrow>
       if in_rng (lo4 b) (hi4 b) c1
          \<and> in_rng 0x80 0xBF c2 \<and> in_rng 0x80 0xBF c3
       then (b mod 8 * 262144 + low6 c1 * 4096 + low6 c2 * 64 + low6 c3, 4) else bad_byte
   | _ \<Rightarrow> bad_byte)"

fun decode_rune :: "string \<Rightarrow> rune \<times> nat" where
  "decode_rune [] = (RuneError, 0)"
| "decode_rune (c # cs) =
    (let b = of_char c in
     if b < 0x80 then (b, 1)
     else if 0xC2 \<le> b \<and> b \<le> 0xDF then decode2 b cs
     else if 0xE0 \<le> b \<and> b \<le> 0xEF then decode3 b cs
     else if 0xF0 \<le> b \<and> b \<le> 0xF4 then decode4 b cs
     else bad_byte)"

lemmas decode_defs = decode2_def decode3_def decode4_def lo4_def hi4_def bad_byte_def

text \<open>\<open>for _, r := range s\<close>: each rune with its bytes.\<close>

fun chunks :: "string \<Rightarrow> (rune \<times> string) list" where
  "chunks [] = []"
| "chunks (c # cs) =
    (let (r, w) = decode_rune (c # cs)
     in (r, c # take (w - 1) cs) # chunks (drop (w - 1) cs))"

definition utf8_decode :: "string \<Rightarrow> rune list" where
  "utf8_decode s = map fst (chunks s)"

definition valid_rune :: "rune \<Rightarrow> bool" where
  "valid_rune r \<longleftrightarrow> r < 0xD800 \<or> (0xDFFF < r \<and> r \<le> 0x10FFFF)"

text \<open>\<open>utf8.AppendRune\<close>: an invalid rune is written as U+FFFD.\<close>

definition encode_rune :: "rune \<Rightarrow> string" where
  "encode_rune r0 =
    (let r = (if valid_rune r0 then r0 else RuneError) in
     if r < 0x80 then [char_of r]
     else if r < 0x800 then [char_of (0xC0 + r div 64), char_of (0x80 + r mod 64)]
     else if r < 0x10000 then
       [char_of (0xE0 + r div 4096), char_of (0x80 + r div 64 mod 64),
        char_of (0x80 + r mod 64)]
     else [char_of (0xF0 + r div 262144), char_of (0x80 + r div 4096 mod 64),
           char_of (0x80 + r div 64 mod 64), char_of (0x80 + r mod 64)])"

definition utf8_encode :: "rune list \<Rightarrow> string" where
  "utf8_encode rs = concat (map encode_rune rs)"

lemma of_char_char_of [simp]: "n < 256 \<Longrightarrow> (of_char (char_of n) :: nat) = n"
  by (simp add: of_char_of)

lemma of_char_less_256 [simp]: "(of_char c :: nat) < 256"
  by (simp add: of_char_def)

declare decode_rune.simps [simp del]

lemma chunks_Cons:
  "chunks (c # cs) =
    (fst (decode_rune (c # cs)), c # take (snd (decode_rune (c # cs)) - 1) cs)
      # chunks (drop (snd (decode_rune (c # cs)) - 1) cs)"
  by (simp add: split_beta)

declare chunks.simps(2) [simp del]

lemma chunks_induct [case_names Nil Cons]:
  assumes "P []"
    and "\<And>c cs. P (drop (snd (decode_rune (c # cs)) - 1) cs) \<Longrightarrow> P (c # cs)"
  shows "P s"
proof (induction s rule: measure_induct_rule [of length])
  case (less s)
  then show ?case using assms by (cases s) (simp_all add: le_imp_less_Suc)
qed

lemma concat_chunks [simp]: "concat (map snd (chunks s)) = s"
  by (induction s rule: chunks_induct) (simp_all add: chunks_Cons)

lemma chunks_eq_Nil [simp]: "chunks s = [] \<longleftrightarrow> s = []"
  by (cases s) (simp_all add: chunks_Cons)

lemma chunk_nonempty: "p \<in> set (chunks s) \<Longrightarrow> snd p \<noteq> []"
  by (induction s rule: chunks_induct) (auto simp: chunks_Cons)

lemma valid_RuneError [simp]: "valid_rune RuneError"
  by (simp add: valid_rune_def RuneError_def)

lemma low6_less: "low6 c < 64"
  by (simp add: low6_def)

lemma mod_offset: "k * m \<le> x \<Longrightarrow> x < k * m + m \<Longrightarrow> x mod m = x - k * (m::nat)"
  by (rule mod_nat_eqI) auto

lemma decode2_valid: "valid_rune (fst (decode2 b cs))"
proof -
  have "valid_rune (b mod 32 * 64 + low6 c1)" for c1
  proof -
    have "b mod 32 < 32" "low6 c1 < 64" by (simp_all add: low6_less)
    then have "b mod 32 * 64 + low6 c1 < 0xD800" by linarith
    then show ?thesis by (simp add: valid_rune_def)
  qed
  then show ?thesis by (simp add: decode2_def bad_byte_def split: list.split)
qed

lemma decode3_valid:
  assumes "0xE0 \<le> b" "b \<le> 0xEF"
  shows "valid_rune (fst (decode3 b cs))"
proof -
  have "valid_rune (b mod 16 * 4096 + low6 c1 * 64 + low6 c2)"
    if "in_rng lo (if b = 0xED then 0x9F else 0xBF) c1" "0x80 \<le> lo" for lo c1 c2
  proof -
    have "b mod 16 = b - 224" using assms mod_offset[of 14 16 b] by simp
    moreover have "b = 0xED \<Longrightarrow> low6 c1 < 32"
      using that mod_offset[of 2 64 "of_char c1"] by (auto simp: in_rng_def low6_def)
    ultimately show ?thesis using assms low6_less[of c1] low6_less[of c2]
      unfolding valid_rune_def by (cases "b < 0xED"; cases "b = 0xED") linarith+
  qed
  from this[of "0xA0"] this[of "0x80"] show ?thesis
    unfolding decode3_def bad_byte_def by (auto split: list.split)
qed

lemma four_byte_value:
  assumes "k \<le> 4" "k = 0 \<Longrightarrow> 16 \<le> c" "k = 4 \<Longrightarrow> c < 16" "c < 64" "d < 64" "e < 64"
  shows "valid_rune (k * 262144 + c * 4096 + d * 64 + e)"
proof -
  have "0x10000 \<le> k * 262144 + c * 4096" using assms(2) by (cases "k = 0") auto
  moreover have "k * 262144 + c * 4096 \<le> 0x10F000"
    using assms(1,3,4) by (cases "k = 4") auto
  ultimately show ?thesis using assms(5,6) unfolding valid_rune_def by linarith
qed

lemma decode4_valid:
  assumes "0xF0 \<le> b" "b \<le> 0xF4"
  shows "valid_rune (fst (decode4 b cs))"
proof -
  have "b mod 8 = b - 240" using assms mod_offset[of 30 8 b] by simp
  then have k: "b mod 8 \<le> 4" "b mod 8 = 0 \<longleftrightarrow> b = 0xF0" "b mod 8 = 4 \<longleftrightarrow> b = 0xF4"
    using assms by auto
  have "valid_rune (b mod 8 * 262144 + low6 c1 * 4096 + low6 c2 * 64 + low6 c3)"
    if c1: "in_rng (lo4 b) (hi4 b) c1" for c1 c2 c3
  proof (rule four_byte_value)
    show "b mod 8 = 0 \<Longrightarrow> 16 \<le> low6 c1"
      using c1 k(2) mod_offset[of 2 64 "of_char c1"] by (auto simp: in_rng_def low6_def lo4_def hi4_def)
    show "b mod 8 = 4 \<Longrightarrow> low6 c1 < 16"
      using c1 k(3) mod_offset[of 2 64 "of_char c1"] by (auto simp: in_rng_def low6_def hi4_def lo4_def)
  qed (simp_all add: k low6_less)
  then show ?thesis unfolding decode4_def bad_byte_def by (simp split: list.split)
qed

lemma decode_rune_valid [simp]: "valid_rune (fst (decode_rune s))"
proof (cases s)
  case (Cons c cs)
  then show ?thesis
    using decode2_valid decode3_valid decode4_valid
    by (auto simp: decode_rune.simps Let_def bad_byte_def) (simp add: valid_rune_def)
qed (simp add: decode_rune.simps)

lemma cont_mod: "(128 + n) mod 64 = n mod (64::nat)"
  using mod_mult_self1[of n 2 64] by (simp add: add.commute)

lemma decode_two:
  assumes "2 \<le> a" "a < 32" "c < 64"
  shows "decode_rune (char_of (192 + a) # char_of (128 + c) # s) = (a * 64 + c, 2)"
proof -
  have "(192 + a) mod 32 = a" using assms mod_offset[of 6 32 "192 + a"] by simp
  then show ?thesis using assms
    by (simp add: decode_rune.simps decode_defs in_rng_def low6_def Let_def cont_mod)
qed

lemma decode_three:
  assumes "a < 16" "c < 64" "d < 64" "a = 0 \<Longrightarrow> 32 \<le> c" "a = 13 \<Longrightarrow> c < 32"
  shows "decode_rune (char_of (224 + a) # char_of (128 + c) # char_of (128 + d) # s)
    = (a * 4096 + c * 64 + d, 3)"
proof -
  have "(224 + a) mod 16 = a" using assms mod_offset[of 14 16 "224 + a"] by simp
  then show ?thesis using assms
    by (cases "a = 0"; cases "a = 13")
      (simp_all add: decode_rune.simps decode_defs in_rng_def low6_def Let_def cont_mod)
qed

lemma decode_four:
  assumes "a \<le> 4" "c < 64" "d < 64" "e < 64" "a = 0 \<Longrightarrow> 16 \<le> c" "a = 4 \<Longrightarrow> c < 16"
  shows "decode_rune (char_of (240 + a) # char_of (128 + c) # char_of (128 + d)
      # char_of (128 + e) # s) = (a * 262144 + c * 4096 + d * 64 + e, 4)"
proof -
  have "(240 + a) mod 8 = a" using assms mod_offset[of 30 8 "240 + a"] by simp
  then show ?thesis using assms
    by (cases "a = 0"; cases "a = 4")
      (simp_all add: decode_rune.simps decode_defs in_rng_def low6_def Let_def cont_mod)
qed

lemma decode_encode_rune:
  assumes "valid_rune r"
  shows "decode_rune (encode_rune r @ s) = (r, length (encode_rune r))"
proof -
  have q: "r div 4096 = r div 64 div 64" "r div 262144 = r div 64 div 64 div 64"
    by (simp_all flip: div_mult2_eq)
  have s1: "r div 64 * 64 + r mod 64 = r" by simp
  have s2: "r div 4096 * 64 + r div 64 mod 64 = r div 64" by (simp add: q)
  have s3: "r div 262144 * 64 + r div 4096 mod 64 = r div 4096" by (simp add: q)
  have m: "r mod 64 < 64" "r div 64 mod 64 < 64" "r div 4096 mod 64 < 64" by simp_all
  consider "r < 0x80" | "0x80 \<le> r" "r < 0x800" | "0x800 \<le> r" "r < 0x10000"
    | "0x10000 \<le> r" "r \<le> 0x10FFFF"
    using assms by (fastforce simp: valid_rune_def)
  then show ?thesis
  proof cases
    case 1
    then show ?thesis using assms by (simp add: encode_rune_def decode_rune.simps)
  next
    case 2
    have "2 \<le> r div 64" "r div 64 < 32" using 2 s1 m by linarith+
    from decode_two[OF this m(1), of s] s1 show ?thesis
      using assms 2 by (simp add: encode_rune_def Let_def)
  next
    case 3
    have "r div 4096 < 16" "r div 4096 = 0 \<Longrightarrow> 32 \<le> r div 64 mod 64"
      using 3 s1 s2 m by linarith+
    moreover have "r div 4096 = 13 \<Longrightarrow> r div 64 mod 64 < 32"
      using 3 assms s1 s2 m unfolding valid_rune_def by linarith
    moreover have "r div 4096 * 4096 + r div 64 mod 64 * 64 + r mod 64 = r"
      using s1 s2 by linarith
    ultimately show ?thesis
      using decode_three[of "r div 4096" "r div 64 mod 64" "r mod 64" s] m assms 3
      by (simp add: encode_rune_def Let_def)
  next
    case 4
    have "r div 262144 \<le> 4" "r div 262144 = 0 \<Longrightarrow> 16 \<le> r div 4096 mod 64"
      "r div 262144 = 4 \<Longrightarrow> r div 4096 mod 64 < 16"
      using 4 s1 s2 s3 m by linarith+
    moreover have
      "r div 262144 * 262144 + r div 4096 mod 64 * 4096 + r div 64 mod 64 * 64 + r mod 64 = r"
      using s1 s2 s3 by linarith
    ultimately show ?thesis
      using decode_four[of "r div 262144" "r div 4096 mod 64" "r div 64 mod 64" "r mod 64" s]
        m assms 4
      by (simp add: encode_rune_def Let_def)
  qed
qed

lemma encode_rune_nonempty [simp]: "encode_rune r \<noteq> []"
  by (simp add: encode_rune_def Let_def)

lemma chunks_encode_rune:
  assumes "valid_rune r"
  shows "chunks (encode_rune r @ s) = (r, encode_rune r) # chunks s"
proof -
  obtain c cs where e: "encode_rune r = c # cs" by (cases "encode_rune r") simp_all
  have "decode_rune (c # cs @ s) = (r, Suc (length cs))"
    using decode_encode_rune[OF assms, of s] by (simp add: e)
  then show ?thesis by (simp add: e chunks_Cons)
qed

lemma chunks_utf8_encode:
  "\<forall>r\<in>set rs. valid_rune r \<Longrightarrow>
    chunks (utf8_encode rs @ s) = map (\<lambda>r. (r, encode_rune r)) rs @ chunks s"
  by (induction rs) (simp_all add: utf8_encode_def chunks_encode_rune)

lemma utf8_decode_encode:
  "\<forall>r\<in>set rs. valid_rune r \<Longrightarrow> utf8_decode (utf8_encode rs) = rs"
  using chunks_utf8_encode[of rs "[]"] by (simp add: utf8_decode_def comp_def)

lemma chunks_valid: "p \<in> set (chunks s) \<Longrightarrow> valid_rune (fst p)"
  by (induction s rule: chunks_induct) (auto simp: chunks_Cons)

lemma utf8_decode_valid [simp]: "r \<in> set (utf8_decode s) \<Longrightarrow> valid_rune r"
  by (auto simp: utf8_decode_def dest: chunks_valid)

lemma utf8_decode_Nil [simp]: "utf8_decode [] = []"
  by (simp add: utf8_decode_def)

lemma utf8_encode_Nil [simp]: "utf8_encode [] = []"
  by (simp add: utf8_encode_def)

lemma utf8_encode_append: "utf8_encode (xs @ ys) = utf8_encode xs @ utf8_encode ys"
  by (simp add: utf8_encode_def)

text \<open>
  An ASCII byte is always a rune of its own, so decoding splits at it: what stands before it
  decodes as if the string ended there.
\<close>

lemma in_rng_ascii [simp]: "of_char c < (128::nat) \<Longrightarrow> 128 \<le> lo \<Longrightarrow> \<not> in_rng lo hi c"
  by (simp add: in_rng_def)

lemma decode_rune_ascii: "of_char c < (128::nat) \<Longrightarrow> decode_rune (c # s) = (of_char c, 1)"
  by (simp add: decode_rune.simps)

lemma chunks_ascii: "of_char c < (128::nat) \<Longrightarrow> chunks (c # s) = (of_char c, [c]) # chunks s"
  by (simp add: chunks_Cons decode_rune_ascii)

lemma decode2_boundary: "of_char c < (128::nat) \<Longrightarrow> decode2 b (xs @ c # ys) = decode2 b xs"
  by (cases xs) (simp_all add: decode2_def)

lemma decode3_boundary: "of_char c < (128::nat) \<Longrightarrow> decode3 b (xs @ c # ys) = decode3 b xs"
  by (cases xs; cases "tl xs"; cases ys) (auto simp: decode3_def)

lemma decode4_boundary: "of_char c < (128::nat) \<Longrightarrow> decode4 b (xs @ c # ys) = decode4 b xs"
  by (cases xs; cases "tl xs"; cases "tl (tl xs)"; cases ys; cases "tl ys")
    (auto simp: decode4_def lo4_def split: list.split)

lemma decode_rune_boundary:
  "of_char c < (128::nat) \<Longrightarrow> xs \<noteq> [] \<Longrightarrow> decode_rune (xs @ c # ys) = decode_rune xs"
  by (cases xs)
    (simp_all add: decode_rune.simps Let_def decode2_boundary decode3_boundary decode4_boundary)

lemma decode_rune_width: "snd (decode_rune (c # cs)) \<le> Suc (length cs)"
  by (auto simp: decode_rune.simps Let_def decode_defs split: list.split)

lemma chunks_boundary:
  assumes "of_char c < (128::nat)"
  shows "chunks (xs @ c # ys) = chunks xs @ (of_char c, [c]) # chunks ys"
proof (induction xs rule: chunks_induct)
  case Nil
  then show ?case using assms by (simp add: chunks_ascii)
next
  case (Cons x xs)
  have "decode_rune (x # xs @ c # ys) = decode_rune (x # xs)"
    using decode_rune_boundary[OF assms, of "x # xs"] by simp
  moreover have "snd (decode_rune (x # xs)) - 1 \<le> length xs"
    using decode_rune_width[of x xs] by simp
  ultimately show ?case using Cons by (simp add: chunks_Cons)
qed

subsection \<open>Unicode classes\<close>

text \<open>
  \<open>unicode.IsLetter\<close>, \<open>IsDigit\<close>, \<open>Is(Mn, _)\<close>, \<open>Is(Me, _)\<close> and \<open>ToLower\<close>. The Latin-1 part is
  Go's \<open>properties\<close> table; above it the Unicode tables are a parameter. \<open>unicode_ok\<close> states
  what Unicode documents of them: lower-casing keeps code points valid, never yields an
  upper-case ASCII letter and is idempotent, and the classes do not overlap with each other or
  with the white space.
\<close>

record unicode =
  tab_letter :: "rune \<Rightarrow> bool"
  tab_digit :: "rune \<Rightarrow> bool"
  tab_Mn :: "rune \<Rightarrow> bool"
  tab_Me :: "rune \<Rightarrow> bool"
  tab_lower :: "rune \<Rightarrow> rune"
  tab_upper :: "rune \<Rightarrow> rune"

definition latin1_letter :: "rune \<Rightarrow> bool" where
  "latin1_letter r \<longleftrightarrow> (65 \<le> r \<and> r \<le> 90) \<or> (97 \<le> r \<and> r \<le> 122) \<or> r = 0xAA \<or> r = 0xB5
    \<or> r = 0xBA \<or> (0xC0 \<le> r \<and> r \<le> 0xD6) \<or> (0xD8 \<le> r \<and> r \<le> 0xF6) \<or> (0xF8 \<le> r \<and> r \<le> 0xFF)"

definition IsLetter :: "unicode \<Rightarrow> rune \<Rightarrow> bool" where
  "IsLetter U r = (if r \<le> 0xFF then latin1_letter r else tab_letter U r)"

definition IsDigit :: "unicode \<Rightarrow> rune \<Rightarrow> bool" where
  "IsDigit U r = (if r \<le> 0xFF then 48 \<le> r \<and> r \<le> 57 else tab_digit U r)"

text \<open>No Latin-1 code point is a combining mark.\<close>

definition IsMark :: "unicode \<Rightarrow> rune \<Rightarrow> bool" where
  "IsMark U r \<longleftrightarrow> 0xFF < r \<and> (tab_Mn U r \<or> tab_Me U r)"

definition lower_rune :: "unicode \<Rightarrow> rune \<Rightarrow> rune" where
  "lower_rune U r =
    (if r \<le> 0x7F then (if 65 \<le> r \<and> r \<le> 90 then r + 32 else r)
     else if r \<le> 0xFF then (if 0xC0 \<le> r \<and> r \<le> 0xDE \<and> r \<noteq> 0xD7 then r + 32 else r)
     else tab_lower U r)"

definition upper_rune :: "unicode \<Rightarrow> rune \<Rightarrow> rune" where
  "upper_rune U r =
    (if r \<le> 0x7F then (if 97 \<le> r \<and> r \<le> 122 then r - 32 else r)
     else if r = 0xB5 then 0x39C
     else if r = 0xFF then 0x178
     else if r \<le> 0xFF then (if 0xE0 \<le> r \<and> r \<le> 0xFE \<and> r \<noteq> 0xF7 then r - 32 else r)
     else tab_upper U r)"

text \<open>\<open>unicode.IsSpace\<close>: Unicode's White_Space property.\<close>

definition IsSpace :: "rune \<Rightarrow> bool" where
  "IsSpace r \<longleftrightarrow> (9 \<le> r \<and> r \<le> 13) \<or> r = 32 \<or> r = 0x85 \<or> r = 0xA0 \<or> r = 0x1680
    \<or> (0x2000 \<le> r \<and> r \<le> 0x200A) \<or> r = 0x2028 \<or> r = 0x2029 \<or> r = 0x202F \<or> r = 0x205F
    \<or> r = 0x3000"

definition unicode_ok :: "unicode \<Rightarrow> bool" where
  "unicode_ok U \<longleftrightarrow>
    (\<forall>r. 0xFF < r \<longrightarrow>
      (valid_rune r \<longrightarrow> valid_rune (tab_lower U r))
      \<and> \<not> (65 \<le> tab_lower U r \<and> tab_lower U r \<le> 90)
      \<and> lower_rune U (tab_lower U r) = tab_lower U r
      \<and> \<not> (IsSpace r \<and> (tab_letter U r \<or> tab_digit U r \<or> tab_Mn U r \<or> tab_Me U r))
      \<and> (IsSpace (tab_lower U r) \<longleftrightarrow> IsSpace r)
      \<and> \<not> ((tab_Mn U r \<or> tab_Me U r) \<and> (tab_letter U r \<or> tab_digit U r)))"

subsection \<open>What a chunk is\<close>

text \<open>A rune of several bytes: they are not ASCII, and decode alike whatever follows them.\<close>

lemma decode_wide:
  assumes "2 \<le> snd (decode_rune (c # cs))"
  shows "128 \<le> fst (decode_rune (c # cs))
    \<and> list_all (\<lambda>x. 128 \<le> (of_char x :: nat)) (c # take (snd (decode_rune (c # cs)) - 1) cs)
    \<and> decode_rune (c # take (snd (decode_rune (c # cs)) - 1) cs @ t) = decode_rune (c # cs)"
proof -
  define b :: nat where "b = of_char c"
  consider "0xC2 \<le> b" "b \<le> 0xDF" "decode_rune (c # cs) = decode2 b cs"
    | "0xE0 \<le> b" "b \<le> 0xEF" "decode_rune (c # cs) = decode3 b cs"
    | "0xF0 \<le> b" "b \<le> 0xF4" "decode_rune (c # cs) = decode4 b cs"
    using assms by (auto simp: decode_rune.simps Let_def bad_byte_def b_def split: if_splits)
  then show ?thesis
  proof cases
    case 1
    then obtain c1 r where cs: "cs = c1 # r" "in_rng 0x80 0xBF c1"
      using assms by (auto simp: decode2_def bad_byte_def split: list.splits if_splits)
    have "2 \<le> b mod 32" using 1 mod_offset[of 6 32 b] by simp
    then show ?thesis using 1 cs
      by (simp add: decode_rune.simps decode2_def Let_def in_rng_def flip: b_def)
  next
    case 2
    then obtain c1 c2 r where cs: "cs = c1 # c2 # r" "in_rng (if b = 0xE0 then 0xA0 else 0x80) (if b = 0xED then 0x9F else 0xBF) c1"
        "in_rng 0x80 0xBF c2"
      using assms by (auto simp: decode3_def bad_byte_def split: list.splits if_splits)
    have "b = 0xE0 \<Longrightarrow> 32 \<le> low6 c1" using cs(2) mod_offset[of 2 64 "of_char c1"] by (auto simp: in_rng_def low6_def)
    moreover have "b \<noteq> 0xE0 \<Longrightarrow> 1 \<le> b mod 16" using 2 mod_offset[of 14 16 b] by auto
    ultimately have "128 \<le> b mod 16 * 4096 + low6 c1 * 64 + low6 c2" by (cases "b = 0xE0") auto
    then show ?thesis using 2 cs
      by (simp add: decode_rune.simps decode3_def Let_def flip: b_def) (auto simp: in_rng_def split: if_splits)
  next
    case 3
    then obtain c1 c2 c3 r where cs: "cs = c1 # c2 # c3 # r" "in_rng (lo4 b) (hi4 b) c1" "in_rng 0x80 0xBF c2" "in_rng 0x80 0xBF c3"
      using assms by (auto simp: decode4_def bad_byte_def split: list.splits if_splits)
    have "b = 0xF0 \<Longrightarrow> 16 \<le> low6 c1" using cs(2) mod_offset[of 2 64 "of_char c1"] by (auto simp: in_rng_def low6_def lo4_def hi4_def)
    moreover have "b \<noteq> 0xF0 \<Longrightarrow> 1 \<le> b mod 8" using 3 mod_offset[of 30 8 b] by auto
    ultimately have "128 \<le> b mod 8 * 262144 + low6 c1 * 4096 + low6 c2 * 64 + low6 c3" by (cases "b = 0xF0") auto
    then show ?thesis using 3 cs
      by (simp add: decode_rune.simps decode4_def Let_def flip: b_def) (auto simp: in_rng_def lo4_def split: if_splits)
  qed
qed

lemma decode_narrow:
  "snd (decode_rune (c # cs)) \<le> 1 \<Longrightarrow>
    decode_rune (c # cs) = (of_char c, 1) \<and> of_char c < (128::nat) \<or> decode_rune (c # cs) = (RuneError, 1) \<and> 128 \<le> (of_char c :: nat)"
  by (auto simp: decode_rune.simps decode_defs Let_def split: list.splits if_splits)

text \<open>The chunks of a string: ASCII, a bad byte, or the bytes of a rune beyond ASCII.\<close>

lemma chunk_cases:
  assumes "(r, bytes) \<in> set (chunks s)"
  obtains (ascii) "r < 128" "bytes = [char_of r]"
    | (bad) "r = RuneError" "length bytes = 1"
    | (wide) c cs where "128 \<le> r" "bytes = c # cs" "cs \<noteq> []" "list_all (\<lambda>x. 128 \<le> (of_char x :: nat)) bytes"
        "\<And>t. decode_rune (bytes @ t) = (r, length bytes)"
  using assms
proof (induction s arbitrary: thesis rule: chunks_induct)
  case (Cons c cs)
  consider "(r, bytes) = (fst (decode_rune (c # cs)), c # take (snd (decode_rune (c # cs)) - 1) cs)"
    | "(r, bytes) \<in> set (chunks (drop (snd (decode_rune (c # cs)) - 1) cs))"
    using Cons.prems(4) by (auto simp: chunks_Cons)
  then show ?case
  proof cases
    case 1
    show ?thesis
    proof (cases "2 \<le> snd (decode_rune (c # cs))")
      case True
      have "length bytes = snd (decode_rune (c # cs))" using 1 True decode_rune_width[of c cs] by simp
      then show ?thesis
        using 1 True decode_wide[OF True] by (intro Cons.prems(3)) (auto simp: prod_eq_iff)
    next
      case False
      then show ?thesis using 1 decode_narrow[of c cs] Cons.prems(1,2) by auto
    qed
  next
    case 2
    then show ?thesis using Cons.IH Cons.prems(1-3) by blast
  qed
qed simp

end
