(* ===== verification/Go_Text.thy ===== *)
theory Go_Text
  imports Go_Strings
begin

text \<open>
  The string functions of Go's \<open>strings\<close> and \<open>strconv\<close> packages that the program calls,
  on the byte strings of \<open>Go_Strings\<close>, with the facts the components need: fields are
  non-empty and free of white space, and splitting undoes joining.
\<close>

subsection \<open>Trimming, splitting at white space, joining\<close>

definition chunk_space :: "rune \<times> string \<Rightarrow> bool" where
  "chunk_space p \<longleftrightarrow> IsSpace (fst p)"

definition TrimSpace :: "string \<Rightarrow> string" where
  "TrimSpace s =
    concat (map snd (rev (dropWhile chunk_space (rev (dropWhile chunk_space (chunks s))))))"

fun fields_from :: "(rune \<times> string) list \<Rightarrow> string \<Rightarrow> string list" where
  "fields_from [] cur = (if cur = [] then [] else [cur])"
| "fields_from (p # ps) cur =
    (if chunk_space p then (if cur = [] then fields_from ps [] else cur # fields_from ps [])
     else fields_from ps (cur @ snd p))"

definition Fields :: "string \<Rightarrow> string list" where
  "Fields s = fields_from (chunks s) []"

fun Join :: "string list \<Rightarrow> string \<Rightarrow> string" where
  "Join [] sep = []"
| "Join [x] sep = x"
| "Join (x # y # ys) sep = x @ sep @ Join (y # ys) sep"

definition ToLower :: "unicode \<Rightarrow> string \<Rightarrow> string" where
  "ToLower U s = utf8_encode (map (lower_rune U) (utf8_decode s))"

definition ToUpper :: "unicode \<Rightarrow> string \<Rightarrow> string" where
  "ToUpper U s = utf8_encode (map (upper_rune U) (utf8_decode s))"

definition TrimRight :: "string \<Rightarrow> char \<Rightarrow> string" where
  "TrimRight s c = rev (dropWhile (\<lambda>x. x = c) (rev s))"

definition TrimPrefix :: "string \<Rightarrow> string \<Rightarrow> string" where
  "TrimPrefix s p = (if prefix p s then drop (length p) s else s)"

definition Contains :: "string \<Rightarrow> string \<Rightarrow> bool" where
  "Contains s sub \<longleftrightarrow> sublist sub s"

text \<open>\<open>strings.SplitN(s, sep, 2)\<close> for a one-byte separator.\<close>

fun cut_at :: "char \<Rightarrow> string \<Rightarrow> string \<times> string option" where
  "cut_at c [] = ([], None)"
| "cut_at c (x # xs) =
    (if x = c then ([], Some xs) else (let (a, b) = cut_at c xs in (x # a, b)))"

subsection \<open>strconv\<close>

definition is_digit_char :: "char \<Rightarrow> bool" where
  "is_digit_char c \<longleftrightarrow> in_rng 48 57 c"

definition digit_val :: "char \<Rightarrow> int" where
  "digit_val c = int (of_char c) - 48"

definition dec_val :: "string \<Rightarrow> int" where
  "dec_val s = foldl (\<lambda>a c. a * 10 + digit_val c) 0 s"

text \<open>\<open>strconv.Atoi\<close>: an optional sign, at least one digit, nothing else, in range.\<close>

definition Atoi :: "string \<Rightarrow> int option" where
  "Atoi s =
    (let neg = (s \<noteq> [] \<and> hd s = CHR ''-'');
         ds = (if s \<noteq> [] \<and> (hd s = CHR ''-'' \<or> hd s = CHR ''+'') then tl s else s);
         n = (if neg then - dec_val ds else dec_val ds)
     in if ds = [] \<or> \<not> list_all is_digit_char ds \<or> \<not> int64_ok n then None else Some n)"

text \<open>\<open>strconv.Itoa\<close> on a non-negative number (the program prints counts only).\<close>

fun Itoa :: "nat \<Rightarrow> string" where
  "Itoa n = (if n < 10 then [char_of (48 + n)] else Itoa (n div 10) @ [char_of (48 + n mod 10)])"

declare Itoa.simps [simp del]

text \<open>
  \<open>strconv.Quote\<close>, which is \<open>%q\<close>: a rune that prints is kept, any other is escaped, and so is a byte
  that is not UTF-8. \<open>P\<close> is the table of the printable runes above U+00FF.
\<close>

definition hex_digit :: "nat \<Rightarrow> char" where
  "hex_digit n = (if n < 10 then char_of (48 + n) else char_of (87 + n))"

fun hex_digits :: "nat \<Rightarrow> nat \<Rightarrow> string" where
  "hex_digits 0 n = []"
| "hex_digits (Suc k) n = hex_digits k (n div 16) @ [hex_digit (n mod 16)]"

definition IsPrint :: "(rune \<Rightarrow> bool) \<Rightarrow> rune \<Rightarrow> bool" where
  "IsPrint P r = (if r \<le> 0xFF then 0x20 \<le> r \<and> r < 0x7F \<or> 0xA1 \<le> r \<and> r \<noteq> 0xAD else P r)"

definition escapedRune :: "(rune \<Rightarrow> bool) \<Rightarrow> rune \<Rightarrow> string \<Rightarrow> string" where
  "escapedRune P r bytes =
    (if r = 0x22 \<or> r = 0x5C then [CHR 0x5C, char_of r]
     else if IsPrint P r then bytes
     else if r = 7 then [CHR 0x5C, CHR ''a'']
     else if r = 8 then [CHR 0x5C, CHR ''b'']
     else if r = 12 then [CHR 0x5C, CHR ''f'']
     else if r = 10 then [CHR 0x5C, CHR ''n'']
     else if r = 13 then [CHR 0x5C, CHR ''r'']
     else if r = 9 then [CHR 0x5C, CHR ''t'']
     else if r = 11 then [CHR 0x5C, CHR ''v'']
     else if r < 0x20 \<or> r = 0x7F then CHR 0x5C # CHR ''x'' # hex_digits 2 r
     else if r < 0x10000 then CHR 0x5C # CHR ''u'' # hex_digits 4 r
     else CHR 0x5C # CHR ''U'' # hex_digits 8 r)"

definition Quote :: "(rune \<Rightarrow> bool) \<Rightarrow> string \<Rightarrow> string" where
  "Quote P s =
    CHR 0x22 # concat (map (\<lambda>(r, bytes).
      if r = RuneError \<and> length bytes = 1 then CHR 0x5C # CHR ''x'' # hex_digits 2 (of_char (hd bytes))
      else escapedRune P r bytes) (chunks s)) @ [CHR 0x22]"

subsection \<open>Facts\<close>

lemma chunk_space_ascii [simp]: "chunk_space (32, b)"
  by (simp add: chunk_space_def IsSpace_def)

lemma TrimSpace_Nil [simp]: "TrimSpace [] = []"
  by (simp add: TrimSpace_def)

lemma Fields_Nil [simp]: "Fields [] = []"
  by (simp add: Fields_def)

lemma fields_from_nonempty:
  "f \<in> set (fields_from ps cur) \<Longrightarrow> f \<noteq> []"
  by (induction ps cur rule: fields_from.induct) (auto split: if_splits)

lemma Fields_nonempty: "f \<in> set (Fields s) \<Longrightarrow> f \<noteq> []"
  by (auto simp: Fields_def dest: fields_from_nonempty)

lemma fields_from_space [simp]:
  "fields_from ((32, b) # ps) cur = (if cur = [] then fields_from ps [] else cur # fields_from ps [])"
  by simp

lemma fields_from_word:
  "\<forall>p\<in>set ps. \<not> chunk_space p \<Longrightarrow>
    fields_from (ps @ qs) cur = fields_from qs (cur @ concat (map snd ps))"
  by (induction ps arbitrary: cur) auto

lemma fields_from_append_space:
  "fields_from (ps @ (32, b) # qs) cur = fields_from ps cur @ fields_from qs []"
  by (induction ps cur rule: fields_from.induct) auto

lemma Fields_append_space: "Fields (s @ CHR '' '' # t) = Fields s @ Fields t"
  using chunks_boundary[of "CHR '' ''" s t]
  by (simp add: Fields_def fields_from_append_space)

text \<open>A field decodes to runes none of which is a space.\<close>

definition no_space :: "string \<Rightarrow> bool" where
  "no_space s \<longleftrightarrow> (\<forall>p\<in>set (chunks s). \<not> chunk_space p)"

lemma Fields_no_space: "no_space f \<Longrightarrow> f \<noteq> [] \<Longrightarrow> Fields f = [f]"
  using fields_from_word[of "chunks f" "[]" "[]"] by (simp add: no_space_def Fields_def)

lemma Fields_Join:
  "\<forall>f\<in>set fs. no_space f \<and> f \<noteq> [] \<Longrightarrow> Fields (Join fs '' '') = fs"
  by (induction fs "'' ''" rule: Join.induct) (simp_all add: Fields_no_space Fields_append_space)

lemma dec_val_nonneg:
  assumes "list_all is_digit_char s"
  shows "0 \<le> dec_val s"
proof -
  have "list_all is_digit_char s \<Longrightarrow> 0 \<le> a \<Longrightarrow> 0 \<le> foldl (\<lambda>a c. a * 10 + digit_val c) a s" for a
    by (induction s arbitrary: a) (auto simp: is_digit_char_def in_rng_def digit_val_def)
  then show ?thesis using assms by (simp add: dec_val_def)
qed

lemma ToLower_Nil [simp]: "ToLower U [] = []"
  by (simp add: ToLower_def)

lemma unicode_okD:
  assumes "unicode_ok U" and "0xFF < r"
  shows unicode_ok_valid: "valid_rune r \<Longrightarrow> valid_rune (tab_lower U r)"
    and unicode_ok_upper: "\<not> (65 \<le> tab_lower U r \<and> tab_lower U r \<le> 90)"
    and unicode_ok_idem: "lower_rune U (tab_lower U r) = tab_lower U r"
    and unicode_ok_space: "IsSpace r \<Longrightarrow> \<not> tab_letter U r \<and> \<not> tab_digit U r \<and> \<not> tab_Mn U r \<and> \<not> tab_Me U r"
    and unicode_ok_lower_space: "IsSpace (tab_lower U r) \<longleftrightarrow> IsSpace r"
    and unicode_ok_mark: "tab_Mn U r \<or> tab_Me U r \<Longrightarrow> \<not> tab_letter U r \<and> \<not> tab_digit U r"
  using assms unfolding unicode_ok_def by blast+

lemma lower_rune_latin1:
  "r \<le> 0xFF \<Longrightarrow> lower_rune U r \<le> 0xFF \<and> \<not> (65 \<le> lower_rune U r \<and> lower_rune U r \<le> 90)
    \<and> lower_rune U (lower_rune U r) = lower_rune U r \<and> (IsSpace (lower_rune U r) \<longleftrightarrow> IsSpace r)"
  by (auto simp: lower_rune_def IsSpace_def)

lemma lower_rune_table: "0xFF < r \<Longrightarrow> lower_rune U r = tab_lower U r"
  by (simp add: lower_rune_def)

lemma lower_rune_valid: "unicode_ok U \<Longrightarrow> valid_rune r \<Longrightarrow> valid_rune (lower_rune U r)"
  using unicode_ok_valid[of U r] lower_rune_latin1[of r U]
  by (cases "0xFF < r") (auto simp: lower_rune_table valid_rune_def)

lemma lower_rune_not_upper: "unicode_ok U \<Longrightarrow> \<not> (65 \<le> lower_rune U r \<and> lower_rune U r \<le> 90)"
  using unicode_ok_upper[of U r] lower_rune_latin1[of r U]
  by (cases "0xFF < r") (simp_all add: lower_rune_table)

lemma lower_rune_idem: "unicode_ok U \<Longrightarrow> lower_rune U (lower_rune U r) = lower_rune U r"
  using unicode_ok_idem[of U r] lower_rune_latin1[of r U]
  by (cases "0xFF < r") (simp_all add: lower_rune_table)

lemma lower_rune_space: "unicode_ok U \<Longrightarrow> IsSpace (lower_rune U r) \<longleftrightarrow> IsSpace r"
  using unicode_ok_lower_space[of U r] lower_rune_latin1[of r U]
  by (cases "0xFF < r") (simp_all add: lower_rune_table)

lemma utf8_decode_ToLower:
  "unicode_ok U \<Longrightarrow> utf8_decode (ToLower U s) = map (lower_rune U) (utf8_decode s)"
  unfolding ToLower_def by (rule utf8_decode_encode) (auto simp: lower_rune_valid)

lemma ToLower_idem: "unicode_ok U \<Longrightarrow> ToLower U (ToLower U s) = ToLower U s"
  by (simp add: ToLower_def [of U "ToLower U s"] utf8_decode_ToLower comp_def lower_rune_idem)
    (simp add: ToLower_def)

lemma TrimRight_idem: "TrimRight (TrimRight s c) c = TrimRight s c"
  by (simp add: TrimRight_def)

lemma TrimRight_last: "TrimRight s c \<noteq> [] \<Longrightarrow> last (TrimRight s c) \<noteq> c"
  using hd_dropWhile[of "\<lambda>x. x = c" "rev s"] by (simp add: TrimRight_def last_rev)

subsection \<open>Numbers as text\<close>

lemma Itoa_char: "k < 10 \<Longrightarrow> digit_val (char_of (48 + k)) = int k \<and> is_digit_char (char_of (48 + k))"
  by (simp add: digit_val_def is_digit_char_def in_rng_def)

lemma dec_val_snoc: "dec_val (s @ [c]) = dec_val s * 10 + digit_val c"
  by (simp add: dec_val_def)

lemma Itoa_digits: "Itoa n \<noteq> [] \<and> list_all is_digit_char (Itoa n) \<and> dec_val (Itoa n) = int n"
proof (induction n rule: less_induct)
  case (less n)
  show ?case
  proof (cases "n < 10")
    case True
    then show ?thesis using Itoa_char[OF True] by (simp add: Itoa.simps dec_val_def)
  next
    case False
    have "int n = int (n div 10) * 10 + int (n mod 10)" by presburger
    then show ?thesis using False less.IH[of "n div 10"] Itoa_char[of "n mod 10"]
      by (subst (1 2 3) Itoa.simps) (simp add: dec_val_snoc)
  qed
qed

lemma Itoa_lead: "n = 0 \<or> \<not> prefix ''0'' (Itoa n)"
proof (induction n rule: Itoa.induct)
  case (1 n)
  show ?case
  proof (cases "n < 10")
    case True
    then have "n \<noteq> 0 \<Longrightarrow> (char_of (48 + n) :: char) \<noteq> CHR ''0''"
      using of_char_char_of[of "48 + n"] by fastforce
    then show ?thesis using True by (auto simp: Itoa.simps)
  next
    case False
    then have "\<not> prefix ''0'' (Itoa (n div 10))" using 1 by fastforce
    moreover have "Itoa (n div 10) \<noteq> []" using Itoa_digits by blast
    ultimately show ?thesis using False by (cases "Itoa (n div 10)") (auto simp: Itoa.simps[of n])
  qed
qed

subsection \<open>What trimming leaves\<close>

text \<open>A rune decodes the same whatever follows its bytes, so trimmed text is not trimmed away.\<close>

lemma decode_rune_cut:
  assumes "xs \<noteq> []" "snd (decode_rune (xs @ ys)) \<le> length xs"
  shows "decode_rune xs = decode_rune (xs @ ys)"
proof -
  obtain c cs where xs: "xs = c # cs" using assms(1) by (cases xs) auto
  have "decode2 b cs = decode2 b (cs @ ys)" if "snd (decode2 b (cs @ ys)) \<le> Suc (length cs)" for b
    using that by (cases cs; cases ys) (auto simp: decode2_def bad_byte_def split: if_splits)
  moreover have "decode3 b cs = decode3 b (cs @ ys)" if "snd (decode3 b (cs @ ys)) \<le> Suc (length cs)" for b
    using that by (cases cs; cases "tl cs"; cases ys; cases "tl ys") (auto simp: decode3_def bad_byte_def split: if_splits list.splits)
  moreover have "decode4 b cs = decode4 b (cs @ ys)" if "snd (decode4 b (cs @ ys)) \<le> Suc (length cs)" for b
    using that by (cases cs; cases "tl cs"; cases "tl (tl cs)"; cases ys; cases "tl ys"; cases "tl (tl ys)")
      (auto simp: decode4_def bad_byte_def split: if_splits list.splits)
  ultimately show ?thesis using assms(2) by (auto simp: xs decode_rune.simps Let_def split: if_splits)
qed

lemma chunks_suffix: "chunks s = p @ q \<Longrightarrow> chunks (concat (map snd q)) = q"
proof (induction p arbitrary: s)
  case Nil
  then show ?case using concat_chunks[of s] by simp
next
  case (Cons a p)
  then obtain c cs where s: "s = c # cs" by (cases s) auto
  then have "chunks (drop (snd (decode_rune (c # cs)) - 1) cs) = p @ q"
    using Cons.prems by (simp add: chunks_Cons split_beta)
  then show ?case by (rule Cons.IH)
qed

lemma TrimSpace_ne:
  assumes "\<exists>c\<in>set (chunks s). \<not> chunk_space c"
  shows "TrimSpace s \<noteq> []"
proof -
  have "dropWhile chunk_space (rev (dropWhile chunk_space (chunks s))) \<noteq> []"
    using assms by (simp add: dropWhile_eq_Nil_conv set_dropWhileD) (metis (no_types, lifting) Un_iff set_append set_takeWhileD takeWhile_dropWhile_id)
  then obtain d ds where d: "rev (dropWhile chunk_space (rev (dropWhile chunk_space (chunks s)))) = d # ds"
    by (metis neq_Nil_conv rev_is_Nil_conv)
  have "d \<in> set (chunks s)"
    using d by (metis in_set_conv_decomp list.set_intros(1) set_dropWhileD set_rev)
  then have "snd d \<noteq> []" using chunk_nonempty by fastforce
  then show ?thesis by (simp add: TrimSpace_def d)
qed

lemma TrimSpace_stable:
  assumes "TrimSpace s \<noteq> []"
  shows "TrimSpace (TrimSpace s) \<noteq> []"
proof -
  define D where "D = dropWhile chunk_space (chunks s)"
  define t where "t = rev (dropWhile chunk_space (rev D))"
  define u where "u = rev (takeWhile chunk_space (rev D))"
  have D: "D = t @ u" unfolding t_def u_def by (metis rev_append rev_rev_ident takeWhile_dropWhile_id)
  have ts: "TrimSpace s = concat (map snd t)" by (simp add: TrimSpace_def t_def D_def)
  then have "t \<noteq> []" using assms by auto
  then obtain d t' where t: "t = d # t'" by (cases t) auto
  have "\<not> chunk_space d"
    using hd_dropWhile[of chunk_space "chunks s"] D t unfolding D_def[symmetric] by simp
  have "chunks s = takeWhile chunk_space (chunks s) @ D" by (simp add: D_def)
  then have "chunks (concat (map snd D)) = D" by (rule chunks_suffix)
  then have cD: "chunks (TrimSpace s @ concat (map snd u)) = d # t' @ u" by (simp add: D ts t)
  obtain c cs where c: "TrimSpace s = c # cs" using assms by (cases "TrimSpace s") auto
  have "snd d = c # take (snd (decode_rune (c # cs @ concat (map snd u))) - 1) (cs @ concat (map snd u))"
    and fd: "fst d = fst (decode_rune (c # cs @ concat (map snd u)))"
    using cD by (auto simp: c chunks_Cons)
  then have "snd (decode_rune ((c # cs) @ concat (map snd u))) \<le> length (snd d)"
    using decode_rune_width[of c "cs @ concat (map snd u)"] by simp
  also have "\<dots> \<le> length (c # cs)" using ts t by (simp flip: c)
  finally have "decode_rune (c # cs) = decode_rune (c # cs @ concat (map snd u))"
    using decode_rune_cut[of "c # cs" "concat (map snd u)"] by simp
  then have "\<not> chunk_space (hd (chunks (TrimSpace s)))"
    using \<open>\<not> chunk_space d\<close> fd by (simp add: c chunks_Cons chunk_space_def)
  then show ?thesis by (intro TrimSpace_ne bexI[OF _ hd_in_set]) (simp_all add: c)
qed

lemma TrimSpace_ascii: "c \<in> set s \<Longrightarrow> of_char c < (128::nat) \<Longrightarrow> \<not> IsSpace (of_char c) \<Longrightarrow> TrimSpace s \<noteq> []"
  by (rule TrimSpace_ne) (metis chunks_boundary chunk_space_def fst_conv in_set_conv_decomp)

subsection \<open>Plain text\<close>

text \<open>On ASCII strings the codec is the identity on character codes.\<close>

definition is_ascii :: "string \<Rightarrow> bool" where
  "is_ascii s \<longleftrightarrow> list_all (\<lambda>c. of_char c < (128::nat)) s"

lemma utf8_decode_ascii: "is_ascii s \<Longrightarrow> utf8_decode s = map of_char s"
  by (induction s) (auto simp: is_ascii_def utf8_decode_def chunks_ascii)

lemma chunks_is_ascii: "is_ascii s \<Longrightarrow> chunks s = map (\<lambda>c. (of_char c, [c])) s"
  by (induction s) (auto simp: is_ascii_def chunks_ascii)

lemma encode_rune_ascii: "r < 128 \<Longrightarrow> encode_rune r = [char_of r]"
  by (simp add: encode_rune_def valid_rune_def)

lemma utf8_encode_ascii: "list_all (\<lambda>r. r < 128) rs \<Longrightarrow> utf8_encode rs = map char_of rs"
  by (induction rs) (auto simp: utf8_encode_def encode_rune_ascii)

text \<open>The printable ASCII characters by their codes, for runs on concrete strings.\<close>

lemma char_of_ascii_table:
  "char_of (0x20 :: nat) = CHR '' ''" "char_of (0x21 :: nat) = CHR ''!''" "char_of (0x22 :: nat) = CHR 0x22"
  "char_of (0x23 :: nat) = CHR ''#''" "char_of (0x24 :: nat) = CHR ''$''" "char_of (0x25 :: nat) = CHR ''%''"
  "char_of (0x26 :: nat) = CHR ''&''" "char_of (0x27 :: nat) = CHR 0x27" "char_of (0x28 :: nat) = CHR ''(''"
  "char_of (0x29 :: nat) = CHR '')''" "char_of (0x2A :: nat) = CHR ''*''" "char_of (0x2B :: nat) = CHR ''+''"
  "char_of (0x2C :: nat) = CHR '',''" "char_of (0x2D :: nat) = CHR ''-''" "char_of (0x2E :: nat) = CHR ''.''"
  "char_of (0x2F :: nat) = CHR ''/''" "char_of (0x30 :: nat) = CHR ''0''" "char_of (0x31 :: nat) = CHR ''1''"
  "char_of (0x32 :: nat) = CHR ''2''" "char_of (0x33 :: nat) = CHR ''3''" "char_of (0x34 :: nat) = CHR ''4''"
  "char_of (0x35 :: nat) = CHR ''5''" "char_of (0x36 :: nat) = CHR ''6''" "char_of (0x37 :: nat) = CHR ''7''"
  "char_of (0x38 :: nat) = CHR ''8''" "char_of (0x39 :: nat) = CHR ''9''" "char_of (0x3A :: nat) = CHR '':''"
  "char_of (0x3B :: nat) = CHR '';''" "char_of (0x3C :: nat) = CHR ''<''" "char_of (0x3D :: nat) = CHR ''=''"
  "char_of (0x3E :: nat) = CHR ''>''" "char_of (0x3F :: nat) = CHR ''?''" "char_of (0x40 :: nat) = CHR ''@''"
  "char_of (0x41 :: nat) = CHR ''A''" "char_of (0x42 :: nat) = CHR ''B''" "char_of (0x43 :: nat) = CHR ''C''"
  "char_of (0x44 :: nat) = CHR ''D''" "char_of (0x45 :: nat) = CHR ''E''" "char_of (0x46 :: nat) = CHR ''F''"
  "char_of (0x47 :: nat) = CHR ''G''" "char_of (0x48 :: nat) = CHR ''H''" "char_of (0x49 :: nat) = CHR ''I''"
  "char_of (0x4A :: nat) = CHR ''J''" "char_of (0x4B :: nat) = CHR ''K''" "char_of (0x4C :: nat) = CHR ''L''"
  "char_of (0x4D :: nat) = CHR ''M''" "char_of (0x4E :: nat) = CHR ''N''" "char_of (0x4F :: nat) = CHR ''O''"
  "char_of (0x50 :: nat) = CHR ''P''" "char_of (0x51 :: nat) = CHR ''Q''" "char_of (0x52 :: nat) = CHR ''R''"
  "char_of (0x53 :: nat) = CHR ''S''" "char_of (0x54 :: nat) = CHR ''T''" "char_of (0x55 :: nat) = CHR ''U''"
  "char_of (0x56 :: nat) = CHR ''V''" "char_of (0x57 :: nat) = CHR ''W''" "char_of (0x58 :: nat) = CHR ''X''"
  "char_of (0x59 :: nat) = CHR ''Y''" "char_of (0x5A :: nat) = CHR ''Z''" "char_of (0x5B :: nat) = CHR ''[''"
  "char_of (0x5C :: nat) = CHR 0x5C" "char_of (0x5D :: nat) = CHR '']''" "char_of (0x5E :: nat) = CHR ''^''"
  "char_of (0x5F :: nat) = CHR ''_''" "char_of (0x60 :: nat) = CHR 0x60" "char_of (0x61 :: nat) = CHR ''a''"
  "char_of (0x62 :: nat) = CHR ''b''" "char_of (0x63 :: nat) = CHR ''c''" "char_of (0x64 :: nat) = CHR ''d''"
  "char_of (0x65 :: nat) = CHR ''e''" "char_of (0x66 :: nat) = CHR ''f''" "char_of (0x67 :: nat) = CHR ''g''"
  "char_of (0x68 :: nat) = CHR ''h''" "char_of (0x69 :: nat) = CHR ''i''" "char_of (0x6A :: nat) = CHR ''j''"
  "char_of (0x6B :: nat) = CHR ''k''" "char_of (0x6C :: nat) = CHR ''l''" "char_of (0x6D :: nat) = CHR ''m''"
  "char_of (0x6E :: nat) = CHR ''n''" "char_of (0x6F :: nat) = CHR ''o''" "char_of (0x70 :: nat) = CHR ''p''"
  "char_of (0x71 :: nat) = CHR ''q''" "char_of (0x72 :: nat) = CHR ''r''" "char_of (0x73 :: nat) = CHR ''s''"
  "char_of (0x74 :: nat) = CHR ''t''" "char_of (0x75 :: nat) = CHR ''u''" "char_of (0x76 :: nat) = CHR ''v''"
  "char_of (0x77 :: nat) = CHR ''w''" "char_of (0x78 :: nat) = CHR ''x''" "char_of (0x79 :: nat) = CHR ''y''"
  "char_of (0x7A :: nat) = CHR ''z''" "char_of (0x7B :: nat) = CHR ''{''" "char_of (0x7C :: nat) = CHR ''|''"
  "char_of (0x7D :: nat) = CHR ''}''" "char_of (0x7E :: nat) = CHR ''~''"
  by (simp_all add: char_of_eq_iff take_bit_eq_mod)

lemmas plain_eval = chunks_is_ascii is_ascii_def chunk_space_def IsSpace_def utf8_decode_ascii
  utf8_encode_ascii encode_rune_ascii lower_rune_def upper_rune_def char_of_ascii_table

text \<open>
  What \<open>%q\<close> writes has no control character, so an error text that quotes what a server or a provider
  sent stays on one line.
\<close>

lemma hex_digits_plain: "list_all (\<lambda>c. 48 \<le> (of_char c :: nat) \<and> of_char c \<le> (102 :: nat)) (hex_digits k n)"
proof (induction k arbitrary: n)
  case (Suc k)
  have "n mod 16 < 16" by simp
  then have "48 \<le> (of_char (hex_digit (n mod 16)) :: nat) \<and> of_char (hex_digit (n mod 16)) \<le> (102 :: nat)"
    unfolding hex_digit_def by (cases "n mod 16 < 10") auto
  then show ?case using Suc[of "n div 16"] by simp
qed simp

lemma Quote_plain:
  assumes "c \<in> set (Quote P s)"
  shows "32 \<le> (of_char c :: nat) \<and> of_char c \<noteq> (127 :: nat)"
proof -
  have hex: "32 \<le> (of_char x :: nat) \<and> of_char x \<noteq> (127 :: nat)" if "x \<in> set (hex_digits k n)" for x k n
    using hex_digits_plain[of k n] that by (fastforce simp: list_all_iff)
  have escaped: "32 \<le> (of_char x :: nat) \<and> of_char x \<noteq> (127 :: nat) \<or> x \<in> set bytes \<and> IsPrint P r"
    if "x \<in> set (escapedRune P r bytes)" for x r bytes
  proof (cases "r = 0x22 \<or> r = 0x5C \<or> IsPrint P r")
    case False
    then show ?thesis using that unfolding escapedRune_def by (simp split: if_splits) (auto dest: hex)
  qed (use that in \<open>auto simp: escapedRune_def split: if_splits\<close>)
  have "32 \<le> (of_char x :: nat) \<and> of_char x \<noteq> (127 :: nat)"
    if ch: "(r, bytes) \<in> set (chunks s)" and x: "x \<in> set (escapedRune P r bytes)" "\<not> (r = RuneError \<and> length bytes = 1)"
    for x r bytes
    using ch
  proof (cases rule: chunk_cases)
    case ascii
    then have "32 \<le> r \<and> r \<noteq> 127 \<and> x = char_of r" if "x \<in> set bytes" "IsPrint P r"
      using that by (simp add: IsPrint_def)
    then show ?thesis using x(1) ascii(1) escaped by force
  next
    case (wide b bs)
    then have "\<forall>y\<in>set bytes. 128 \<le> (of_char y :: nat)" by (auto simp: list_all_iff)
    then show ?thesis using x(1) escaped by fastforce
  qed (use x(2) in auto)
  then show ?thesis using assms hex by (fastforce simp: Quote_def split: if_splits)
qed

subsection \<open>A concrete table\<close>

text \<open>
  Latin Extended-A (U+0100 to U+017F), all of it letters, with its simple lower-case mapping,
  and the combining diacritical marks U+0300 to U+036F; every other code point above U+00FF
  is left without a class. It satisfies the documented facts, and concrete runs use it.
\<close>

definition latin_ext_a_lower :: "rune \<Rightarrow> rune" where
  "latin_ext_a_lower r =
    (if r = 0x130 then 0x69
     else if r = 0x178 then 0xFF
     else if (0x100 \<le> r \<and> r \<le> 0x12F \<or> 0x132 \<le> r \<and> r \<le> 0x137 \<or> 0x14A \<le> r \<and> r \<le> 0x177)
        \<and> even r then r + 1
     else if (0x139 \<le> r \<and> r \<le> 0x148 \<or> 0x179 \<le> r \<and> r \<le> 0x17E) \<and> odd r then r + 1
     else r)"

definition latin_ext_a_upper :: "rune \<Rightarrow> rune" where
  "latin_ext_a_upper r =
    (if r = 0x131 then 0x49
     else if r = 0x17F then 0x53
     else if 0x100 \<le> r \<and> r \<le> 0x17E \<and> latin_ext_a_lower (r - 1) = r then r - 1
     else r)"

definition latin_unicode :: unicode where
  "latin_unicode = \<lparr> tab_letter = (\<lambda>r. 0x100 \<le> r \<and> r \<le> 0x17F), tab_digit = (\<lambda>_. False),
     tab_Mn = (\<lambda>r. 0x300 \<le> r \<and> r \<le> 0x36F), tab_Me = (\<lambda>_. False),
     tab_lower = latin_ext_a_lower, tab_upper = latin_ext_a_upper \<rparr>"

lemma latin_ext_a_lower_cases:
  "0xFF < r \<Longrightarrow> latin_ext_a_lower r = r \<or> latin_ext_a_lower r = r + 1 \<and> r \<le> 0x17E
    \<or> r = 0x130 \<or> r = 0x178"
  by (auto simp: latin_ext_a_lower_def)

lemma latin_ext_a_lower_even:
  "0x100 \<le> 2 * k \<and> 2 * k \<le> 0x12F \<or> 0x132 \<le> 2 * k \<and> 2 * k \<le> 0x137
    \<or> 0x14A \<le> 2 * k \<and> 2 * k \<le> 0x177 \<Longrightarrow> latin_ext_a_lower (2 * k + 1) = 2 * k + 1"
  unfolding latin_ext_a_lower_def by simp presburger

lemma latin_ext_a_lower_odd:
  "0x139 \<le> 2 * k + 1 \<and> 2 * k + 1 \<le> 0x148 \<or> 0x179 \<le> 2 * k + 1 \<and> 2 * k + 1 \<le> 0x17E \<Longrightarrow>
    latin_ext_a_lower (2 * k + 2) = 2 * k + 2"
  unfolding latin_ext_a_lower_def by simp presburger

lemma latin_ext_a_lower_idem:
  assumes "0xFF < latin_ext_a_lower r"
  shows "latin_ext_a_lower (latin_ext_a_lower r) = latin_ext_a_lower r"
proof (cases "even r")
  case True
  then obtain k where r: "r = 2 * k" by blast
  have "latin_ext_a_lower r = r \<or> latin_ext_a_lower r = r + 1 \<and> latin_ext_a_lower (2 * k + 1) = 2 * k + 1"
    using assms latin_ext_a_lower_even[of k] unfolding latin_ext_a_lower_def[of r]
    by (auto simp: r split: if_splits)
  then show ?thesis by (auto simp: r)
next
  case False
  then obtain k where r: "r = 2 * k + 1" using oddE by blast
  have "latin_ext_a_lower r = r \<or> latin_ext_a_lower r = r + 1 \<and> latin_ext_a_lower (2 * k + 2) = 2 * k + 2"
    using assms latin_ext_a_lower_odd[of k] unfolding latin_ext_a_lower_def[of r]
    by (auto simp: r split: if_splits)
  then show ?thesis by (auto simp: r)
qed

lemma latin_unicode_ok: "unicode_ok latin_unicode"
proof -
  have "lower_rune latin_unicode (latin_ext_a_lower r) = latin_ext_a_lower r" if "0xFF < r" for r
  proof (cases "0xFF < latin_ext_a_lower r")
    case True
    then show ?thesis using latin_ext_a_lower_idem[of r]
      by (simp add: lower_rune_table latin_unicode_def)
  next
    case False
    then have "r = 0x130 \<or> r = 0x178" using that latin_ext_a_lower_cases[of r] by auto
    then show ?thesis by (auto simp: lower_rune_def latin_ext_a_lower_def)
  qed
  moreover have "valid_rune r \<Longrightarrow> valid_rune (latin_ext_a_lower r)"
    "\<not> (65 \<le> latin_ext_a_lower r \<and> latin_ext_a_lower r \<le> 90)"
    "IsSpace (latin_ext_a_lower r) \<longleftrightarrow> IsSpace r" if "0xFF < r" for r
    using that latin_ext_a_lower_cases[of r]
    by (auto simp: valid_rune_def IsSpace_def latin_ext_a_lower_def)
  moreover have "\<not> IsSpace r" if "0x100 \<le> r" "r \<le> 0x36F" for r
    using that by (auto simp: IsSpace_def)
  ultimately show ?thesis
    by (auto simp: unicode_ok_def latin_unicode_def)
qed

end
