(* ===== verification/Countries.thy ===== *)
theory Countries
  imports Go_Text
begin

text \<open>
  \<open>geolocate/countries.go\<close>: the ISO 3166-1 alpha-2 table, in two halves, and its lookup.
  The lemmas state what the consensus relies on: every key is two upper-case ASCII letters,
  the keys are distinct (a Go map literal with a duplicate key does not compile), and no name
  is empty, so a hit always yields a usable country name.
\<close>

definition isoCountryNames_A_J :: "(string \<times> string) list" where
  "isoCountryNames_A_J = [
    (''AD'', ''Andorra''),
    (''AE'', ''United Arab Emirates''),
    (''AF'', ''Afghanistan''),
    (''AG'', ''Antigua and Barbuda''),
    (''AI'', ''Anguilla''),
    (''AL'', ''Albania''),
    (''AM'', ''Armenia''),
    (''AO'', ''Angola''),
    (''AQ'', ''Antarctica''),
    (''AR'', ''Argentina''),
    (''AS'', ''American Samoa''),
    (''AT'', ''Austria''),
    (''AU'', ''Australia''),
    (''AW'', ''Aruba''),
    (''AX'', [CHR 0xC3, CHR 0x85] @ ''land Islands''),
    (''AZ'', ''Azerbaijan''),
    (''BA'', ''Bosnia and Herzegovina''),
    (''BB'', ''Barbados''),
    (''BD'', ''Bangladesh''),
    (''BE'', ''Belgium''),
    (''BF'', ''Burkina Faso''),
    (''BG'', ''Bulgaria''),
    (''BH'', ''Bahrain''),
    (''BI'', ''Burundi''),
    (''BJ'', ''Benin''),
    (''BL'', ''Saint Barth'' @ [CHR 0xC3, CHR 0xA9] @ ''lemy''),
    (''BM'', ''Bermuda''),
    (''BN'', ''Brunei''),
    (''BO'', ''Bolivia''),
    (''BQ'', ''Bonaire, Sint Eustatius and Saba''),
    (''BR'', ''Brazil''),
    (''BS'', ''Bahamas''),
    (''BT'', ''Bhutan''),
    (''BV'', ''Bouvet Island''),
    (''BW'', ''Botswana''),
    (''BY'', ''Belarus''),
    (''BZ'', ''Belize''),
    (''CA'', ''Canada''),
    (''CC'', ''Cocos (Keeling) Islands''),
    (''CD'', ''Democratic Republic of the Congo''),
    (''CF'', ''Central African Republic''),
    (''CG'', ''Congo''),
    (''CH'', ''Switzerland''),
    (''CI'', ''C'' @ [CHR 0xC3, CHR 0xB4] @ ''te d'Ivoire''),
    (''CK'', ''Cook Islands''),
    (''CL'', ''Chile''),
    (''CM'', ''Cameroon''),
    (''CN'', ''China''),
    (''CO'', ''Colombia''),
    (''CR'', ''Costa Rica''),
    (''CU'', ''Cuba''),
    (''CV'', ''Cabo Verde''),
    (''CW'', ''Cura'' @ [CHR 0xC3, CHR 0xA7] @ ''ao''),
    (''CX'', ''Christmas Island''),
    (''CY'', ''Cyprus''),
    (''CZ'', ''Czechia''),
    (''DE'', ''Germany''),
    (''DJ'', ''Djibouti''),
    (''DK'', ''Denmark''),
    (''DM'', ''Dominica''),
    (''DO'', ''Dominican Republic''),
    (''DZ'', ''Algeria''),
    (''EC'', ''Ecuador''),
    (''EE'', ''Estonia''),
    (''EG'', ''Egypt''),
    (''EH'', ''Western Sahara''),
    (''ER'', ''Eritrea''),
    (''ES'', ''Spain''),
    (''ET'', ''Ethiopia''),
    (''FI'', ''Finland''),
    (''FJ'', ''Fiji''),
    (''FK'', ''Falkland Islands (Malvinas)''),
    (''FM'', ''Micronesia''),
    (''FO'', ''Faroe Islands''),
    (''FR'', ''France''),
    (''GA'', ''Gabon''),
    (''GB'', ''United Kingdom''),
    (''GD'', ''Grenada''),
    (''GE'', ''Georgia''),
    (''GF'', ''French Guiana''),
    (''GG'', ''Guernsey''),
    (''GH'', ''Ghana''),
    (''GI'', ''Gibraltar''),
    (''GL'', ''Greenland''),
    (''GM'', ''Gambia''),
    (''GN'', ''Guinea''),
    (''GP'', ''Guadeloupe''),
    (''GQ'', ''Equatorial Guinea''),
    (''GR'', ''Greece''),
    (''GS'', ''South Georgia and the South Sandwich Islands''),
    (''GT'', ''Guatemala''),
    (''GU'', ''Guam''),
    (''GW'', ''Guinea-Bissau''),
    (''GY'', ''Guyana''),
    (''HK'', ''Hong Kong''),
    (''HM'', ''Heard Island and McDonald Islands''),
    (''HN'', ''Honduras''),
    (''HR'', ''Croatia''),
    (''HT'', ''Haiti''),
    (''HU'', ''Hungary''),
    (''ID'', ''Indonesia''),
    (''IE'', ''Ireland''),
    (''IL'', ''Israel''),
    (''IM'', ''Isle of Man''),
    (''IN'', ''India''),
    (''IO'', ''British Indian Ocean Territory''),
    (''IQ'', ''Iraq''),
    (''IR'', ''Iran''),
    (''IS'', ''Iceland''),
    (''IT'', ''Italy''),
    (''JE'', ''Jersey''),
    (''JM'', ''Jamaica''),
    (''JO'', ''Jordan''),
    (''JP'', ''Japan'')]"

definition isoCountryNames_K_Z :: "(string \<times> string) list" where
  "isoCountryNames_K_Z = [
    (''KE'', ''Kenya''),
    (''KG'', ''Kyrgyzstan''),
    (''KH'', ''Cambodia''),
    (''KI'', ''Kiribati''),
    (''KM'', ''Comoros''),
    (''KN'', ''Saint Kitts and Nevis''),
    (''KP'', ''North Korea''),
    (''KR'', ''South Korea''),
    (''KW'', ''Kuwait''),
    (''KY'', ''Cayman Islands''),
    (''KZ'', ''Kazakhstan''),
    (''LA'', ''Laos''),
    (''LB'', ''Lebanon''),
    (''LC'', ''Saint Lucia''),
    (''LI'', ''Liechtenstein''),
    (''LK'', ''Sri Lanka''),
    (''LR'', ''Liberia''),
    (''LS'', ''Lesotho''),
    (''LT'', ''Lithuania''),
    (''LU'', ''Luxembourg''),
    (''LV'', ''Latvia''),
    (''LY'', ''Libya''),
    (''MA'', ''Morocco''),
    (''MC'', ''Monaco''),
    (''MD'', ''Moldova''),
    (''ME'', ''Montenegro''),
    (''MF'', ''Saint Martin (French part)''),
    (''MG'', ''Madagascar''),
    (''MH'', ''Marshall Islands''),
    (''MK'', ''North Macedonia''),
    (''ML'', ''Mali''),
    (''MM'', ''Myanmar''),
    (''MN'', ''Mongolia''),
    (''MO'', ''Macao''),
    (''MP'', ''Northern Mariana Islands''),
    (''MQ'', ''Martinique''),
    (''MR'', ''Mauritania''),
    (''MS'', ''Montserrat''),
    (''MT'', ''Malta''),
    (''MU'', ''Mauritius''),
    (''MV'', ''Maldives''),
    (''MW'', ''Malawi''),
    (''MX'', ''Mexico''),
    (''MY'', ''Malaysia''),
    (''MZ'', ''Mozambique''),
    (''NA'', ''Namibia''),
    (''NC'', ''New Caledonia''),
    (''NE'', ''Niger''),
    (''NF'', ''Norfolk Island''),
    (''NG'', ''Nigeria''),
    (''NI'', ''Nicaragua''),
    (''NL'', ''Netherlands''),
    (''NO'', ''Norway''),
    (''NP'', ''Nepal''),
    (''NR'', ''Nauru''),
    (''NU'', ''Niue''),
    (''NZ'', ''New Zealand''),
    (''OM'', ''Oman''),
    (''PA'', ''Panama''),
    (''PE'', ''Peru''),
    (''PF'', ''French Polynesia''),
    (''PG'', ''Papua New Guinea''),
    (''PH'', ''Philippines''),
    (''PK'', ''Pakistan''),
    (''PL'', ''Poland''),
    (''PM'', ''Saint Pierre and Miquelon''),
    (''PN'', ''Pitcairn''),
    (''PR'', ''Puerto Rico''),
    (''PS'', ''Palestine''),
    (''PT'', ''Portugal''),
    (''PW'', ''Palau''),
    (''PY'', ''Paraguay''),
    (''QA'', ''Qatar''),
    (''RE'', ''R'' @ [CHR 0xC3, CHR 0xA9] @ ''union''),
    (''RO'', ''Romania''),
    (''RS'', ''Serbia''),
    (''RU'', ''Russia''),
    (''RW'', ''Rwanda''),
    (''SA'', ''Saudi Arabia''),
    (''SB'', ''Solomon Islands''),
    (''SC'', ''Seychelles''),
    (''SD'', ''Sudan''),
    (''SE'', ''Sweden''),
    (''SG'', ''Singapore''),
    (''SH'', ''Saint Helena, Ascension and Tristan da Cunha''),
    (''SI'', ''Slovenia''),
    (''SJ'', ''Svalbard and Jan Mayen''),
    (''SK'', ''Slovakia''),
    (''SL'', ''Sierra Leone''),
    (''SM'', ''San Marino''),
    (''SN'', ''Senegal''),
    (''SO'', ''Somalia''),
    (''SR'', ''Suriname''),
    (''SS'', ''South Sudan''),
    (''ST'', ''Sao Tome and Principe''),
    (''SV'', ''El Salvador''),
    (''SX'', ''Sint Maarten (Dutch part)''),
    (''SY'', ''Syria''),
    (''SZ'', ''Eswatini''),
    (''TC'', ''Turks and Caicos Islands''),
    (''TD'', ''Chad''),
    (''TF'', ''French Southern Territories''),
    (''TG'', ''Togo''),
    (''TH'', ''Thailand''),
    (''TJ'', ''Tajikistan''),
    (''TK'', ''Tokelau''),
    (''TL'', ''Timor-Leste''),
    (''TM'', ''Turkmenistan''),
    (''TN'', ''Tunisia''),
    (''TO'', ''Tonga''),
    (''TR'', ''T'' @ [CHR 0xC3, CHR 0xBC] @ ''rkiye''),
    (''TT'', ''Trinidad and Tobago''),
    (''TV'', ''Tuvalu''),
    (''TW'', ''Taiwan''),
    (''TZ'', ''Tanzania''),
    (''UA'', ''Ukraine''),
    (''UG'', ''Uganda''),
    (''UM'', ''United States Minor Outlying Islands''),
    (''US'', ''United States''),
    (''UY'', ''Uruguay''),
    (''UZ'', ''Uzbekistan''),
    (''VA'', ''Holy See (Vatican City State)''),
    (''VC'', ''Saint Vincent and the Grenadines''),
    (''VE'', ''Venezuela''),
    (''VG'', ''British Virgin Islands''),
    (''VI'', ''U.S. Virgin Islands''),
    (''VN'', ''Vietnam''),
    (''VU'', ''Vanuatu''),
    (''WF'', ''Wallis and Futuna''),
    (''WS'', ''Samoa''),
    (''YE'', ''Yemen''),
    (''YT'', ''Mayotte''),
    (''ZA'', ''South Africa''),
    (''ZM'', ''Zambia''),
    (''ZW'', ''Zimbabwe'')]"

definition isoCountryNames :: "(string \<times> string) list" where
  "isoCountryNames = isoCountryNames_A_J @ isoCountryNames_K_Z"

definition countryNameForCode :: "unicode \<Rightarrow> string \<Rightarrow> string" where
  "countryNameForCode U code =
    (case map_of isoCountryNames (ToUpper U (TrimSpace code)) of Some name \<Rightarrow> name | None \<Rightarrow> [])"

text \<open>Two-letter keys as numbers, for comparing a whole table at once.\<close>

fun code_number :: "string \<Rightarrow> nat" where
  "code_number [a, b] = of_char a * 256 + of_char b"
| "code_number _ = 0"

definition iso_row_ok :: "string \<times> string \<Rightarrow> bool" where
  "iso_row_ok = (\<lambda>(code, name). length code = 2 \<and> list_all (in_rng 65 90) code \<and> name \<noteq> [])"

lemma iso_rows_A_J: "list_all iso_row_ok isoCountryNames_A_J"
  unfolding isoCountryNames_A_J_def iso_row_ok_def by (simp add: in_rng_def)

lemma iso_rows_K_Z: "list_all iso_row_ok isoCountryNames_K_Z"
  unfolding isoCountryNames_K_Z_def iso_row_ok_def by (simp add: in_rng_def)

lemma iso_ascending_A_J: "successively (<) (map (code_number \<circ> fst) isoCountryNames_A_J)"
  unfolding isoCountryNames_A_J_def by simp

lemma iso_ascending_K_Z: "successively (<) (map (code_number \<circ> fst) isoCountryNames_K_Z)"
  unfolding isoCountryNames_K_Z_def by simp

lemma iso_length_A_J: "length isoCountryNames_A_J = 114"
  unfolding isoCountryNames_A_J_def by (simp only: list.size add_0_right One_nat_def)

lemma iso_length_K_Z: "length isoCountryNames_K_Z = 135"
  unfolding isoCountryNames_K_Z_def by (simp only: list.size add_0_right One_nat_def)

lemma iso_ends:
  "last isoCountryNames_A_J = (''JP'', ''Japan'')" "hd isoCountryNames_K_Z = (''KE'', ''Kenya'')"
  "isoCountryNames_A_J \<noteq> []" "isoCountryNames_K_Z \<noteq> []"
  unfolding isoCountryNames_A_J_def isoCountryNames_K_Z_def by simp_all

lemma iso_size: "length isoCountryNames = 249"
  by (simp add: isoCountryNames_def iso_length_A_J iso_length_K_Z)

lemma iso_rows: "list_all iso_row_ok isoCountryNames"
  by (simp add: isoCountryNames_def iso_rows_A_J iso_rows_K_Z)

lemma iso_keys_distinct: "distinct (map fst isoCountryNames)"
proof -
  have "successively (<) (map (code_number \<circ> fst) isoCountryNames)"
    unfolding isoCountryNames_def map_append
    by (simp add: successively_append_iff iso_ascending_A_J iso_ascending_K_Z iso_ends
        last_map hd_map)
  then have "sorted_wrt (<) (map (code_number \<circ> fst) isoCountryNames)"
    by (simp add: successively_conv_sorted_wrt)
  then have "distinct (map code_number (map fst isoCountryNames))"
    by (simp add: strict_sorted_iff)
  then show ?thesis by (simp only: distinct_map)
qed

lemma iso_lookup: "map_of isoCountryNames k = Some n \<Longrightarrow>
    length k = 2 \<and> list_all (in_rng 65 90) k \<and> n \<noteq> []"
proof -
  assume "map_of isoCountryNames k = Some n"
  then have "(k, n) \<in> set isoCountryNames" by (rule map_of_SomeD)
  then have "iso_row_ok (k, n)" using iso_rows unfolding list_all_iff by blast
  then show ?thesis by (simp add: iso_row_ok_def)
qed

lemma iso_entry: "(k, n) \<in> set isoCountryNames \<Longrightarrow> map_of isoCountryNames k = Some n"
  by (simp add: iso_keys_distinct)

lemma countryNameForCode_cases:
  "countryNameForCode U c = [] \<or> (\<exists>k n. (k, n) \<in> set isoCountryNames
     \<and> k = ToUpper U (TrimSpace c) \<and> countryNameForCode U c = n \<and> n \<noteq> [])"
  using iso_lookup by (auto simp: countryNameForCode_def split: option.split dest: map_of_SomeD)

end
