(* ===== verification/Consensus.thy ===== *)
theory Consensus
  imports Placename Countries
begin

text \<open>
  \<open>geolocate/consensus.go\<close> and the result types of \<open>geolocate/geolocate.go\<close>: one location
  from the sources' observations. The country is the plurality of the normalised codes, ties
  broken by the most trusted contributing source and then by the code; the city is the
  largest group of sources whose place names agree. A Go map is a partial function with the
  list of its keys; the loops over a map fold over that list, and the locale \<open>tournament\<close>
  shows that every order of the keys elects the same winner.
\<close>

subsection \<open>Types\<close>

definition MinSources :: nat where
  "MinSources = 2"

record SourceResult =
  sr_Name :: string
  sr_OK :: bool
  sr_Err :: string
  sr_CountryCode :: string
  sr_Country :: string
  sr_City :: string
  sr_Region :: string
  sr_ASN :: int
  sr_Org :: string
  sr_Hosting :: bool
  sr_Proxy :: bool
  sr_Mobile :: bool

record ConsensusLocation =
  cl_CountryCode :: string
  cl_Country :: string
  cl_CountryConfident :: bool
  cl_City :: string
  cl_Region :: string
  cl_CityConfident :: bool
  cl_ASN :: int
  cl_Org :: string
  cl_Hosting :: bool
  cl_Proxy :: bool
  cl_Mobile :: bool
  cl_Sources :: "SourceResult list"
  cl_ProbedAt :: gotime

definition location0 :: ConsensusLocation where
  "location0 = \<lparr> cl_CountryCode = [], cl_Country = [], cl_CountryConfident = False, cl_City = [],
     cl_Region = [], cl_CityConfident = False, cl_ASN = 0, cl_Org = [], cl_Hosting = False,
     cl_Proxy = False, cl_Mobile = False, cl_Sources = [], cl_ProbedAt = 0 \<rparr>"

subsection \<open>Country codes and source trust\<close>

definition normalizeCountry :: "unicode \<Rightarrow> string \<Rightarrow> string" where
  "normalizeCountry U code = ToLower U (TrimSpace code)"

definition isAlpha2 :: "string \<Rightarrow> bool" where
  "isAlpha2 code =
    (if length code \<noteq> 2 then False
     else list_all (\<lambda>c. \<not> (\<not> in_rng 97 122 c \<and> \<not> in_rng 65 90 c)) code)"

definition SourcePriority :: "(string \<times> nat) list" where
  "SourcePriority = [(''ip.pn'', 0), (''freeipapi'', 1), (''ipinfo'', 2)]"

definition unknownSourceRank :: nat where
  "unknownSourceRank = 2 ^ 30"

definition sourceRank :: "string \<Rightarrow> nat" where
  "sourceRank name =
    (case map_of SourcePriority name of Some rank \<Rightarrow> rank | None \<Rightarrow> unknownSourceRank)"

subsection \<open>Display fields\<close>

record displayField =
  df_value :: "string \<rightharpoonup> string"
  df_rank :: "string \<rightharpoonup> nat"

definition newDisplayField :: displayField where
  "newDisplayField = \<lparr> df_value = Map.empty, df_rank = Map.empty \<rparr>"

definition offer :: "string \<Rightarrow> string \<Rightarrow> nat \<Rightarrow> displayField \<Rightarrow> displayField" where
  "offer c v0 rank d =
    (let v = TrimSpace v0 in
     if v = [] then d
     else if (case df_rank d c of Some held \<Rightarrow> held \<le> rank | None \<Rightarrow> False) then d
     else d\<lparr>df_value := (df_value d)(c \<mapsto> v), df_rank := (df_rank d)(c \<mapsto> rank)\<rparr>)"

definition df_get :: "displayField \<Rightarrow> string \<Rightarrow> string" where
  "df_get d c = (case df_value d c of Some v \<Rightarrow> v | None \<Rightarrow> [])"

subsection \<open>Agreement on a place\<close>

definition place_group :: "unicode \<Rightarrow> (SourceResult \<Rightarrow> string) \<Rightarrow> SourceResult list \<Rightarrow> SourceResult \<Rightarrow> SourceResult list" where
  "place_group U get ok x =
    filter (\<lambda>r. tokensPrefixOrEqual (PlaceTokens U (get r)) (PlaceTokens U (get x))) ok"

definition group_rank :: "SourceResult list \<Rightarrow> nat" where
  "group_rank g = fold (\<lambda>r rank. if sourceRank (sr_Name r) < rank then sourceRank (sr_Name r) else rank)
     g unknownSourceRank"

definition agree_step :: "unicode \<Rightarrow> (SourceResult \<Rightarrow> string) \<Rightarrow> SourceResult list \<Rightarrow> SourceResult
    \<Rightarrow> SourceResult list \<times> nat \<Rightarrow> SourceResult list \<times> nat" where
  "agree_step U get ok x st =
    (let (best, bestRank) = st in
     if PlaceTokens U (get x) = [] then st
     else (let grp = place_group U get ok x; rank = group_rank grp in
           if length best < length grp \<or> (length best = length grp \<and> rank < bestRank)
           then (grp, rank) else st))"

definition agreeOnPlace :: "unicode \<Rightarrow> SourceResult list \<Rightarrow> (SourceResult \<Rightarrow> string) \<Rightarrow> SourceResult list" where
  "agreeOnPlace U ok get = fst (fold (agree_step U get ok) ok ([], 0))"

definition canonical_step :: "unicode \<Rightarrow> (SourceResult \<Rightarrow> string) \<Rightarrow> SourceResult
    \<Rightarrow> string \<times> nat \<times> nat \<Rightarrow> string \<times> nat \<times> nat" where
  "canonical_step U get r st =
    (let (best, bestN, bestRank) = st;
         n = length (PlaceTokens U (get r));
         rank = sourceRank (sr_Name r)
     in if n = 0 then st
        else if best = [] \<or> n < bestN \<or> (n = bestN \<and> rank < bestRank)
        then (PlaceDisplay U (get r), n, rank) else st)"

definition canonicalPlace :: "unicode \<Rightarrow> SourceResult list \<Rightarrow> (SourceResult \<Rightarrow> string) \<Rightarrow> string" where
  "canonicalPlace U grp get = fst (fold (canonical_step U get) grp ([], 0, 0))"

subsection \<open>The country vote\<close>

text \<open>\<open>ct_keys\<close> lists the keys of \<open>countryCounts\<close>; \<open>ct_rank\<close> is \<open>countryRank\<close> with
  \<open>countryHasRank\<close> as its domain.\<close>

record country_tally =
  ct_counts :: "string \<rightharpoonup> nat"
  ct_keys :: "string list"
  ct_name :: displayField
  ct_rank :: "string \<rightharpoonup> nat"

definition country_tally0 :: country_tally where
  "country_tally0 = \<lparr> ct_counts = Map.empty, ct_keys = [], ct_name = newDisplayField,
     ct_rank = Map.empty \<rparr>"

definition get_count :: "('k \<rightharpoonup> nat) \<Rightarrow> 'k \<Rightarrow> nat" where
  "get_count m k = (case m k of Some n \<Rightarrow> n | None \<Rightarrow> 0)"

definition country_step :: "unicode \<Rightarrow> SourceResult \<Rightarrow> country_tally \<Rightarrow> country_tally" where
  "country_step U r t =
    (let c = normalizeCountry U (sr_CountryCode r); rank = sourceRank (sr_Name r) in
     if c = [] then t
     else t\<lparr> ct_counts := (ct_counts t)(c \<mapsto> get_count (ct_counts t) c + 1),
             ct_keys := (if ct_counts t c = None then ct_keys t @ [c] else ct_keys t),
             ct_name := offer c (sr_Country r) rank (ct_name t),
             ct_rank := (if (case ct_rank t c of None \<Rightarrow> True | Some held \<Rightarrow> rank < held)
                         then (ct_rank t)(c \<mapsto> rank) else ct_rank t) \<rparr>)"

text \<open>The \<open>switch\<close> of the loop over \<open>countryCounts\<close>; an entry is code, votes and rank.\<close>

datatype entry = Entry (en_code: string) (en_votes: nat) (en_rank: nat)

definition pick_country :: "entry \<Rightarrow> entry \<Rightarrow> entry" where
  "pick_country e st =
    (case e of Entry c n rank \<Rightarrow> case st of Entry best bestN bestRank \<Rightarrow>
     if bestN < n then Entry c n rank
     else if n = bestN \<and> rank < bestRank then Entry c bestN rank
     else if n = bestN \<and> rank = bestRank \<and> c < best then Entry c bestN bestRank
     else st)"

definition country_entry :: "country_tally \<Rightarrow> string \<Rightarrow> entry" where
  "country_entry t c = Entry c (get_count (ct_counts t) c) (get_count (ct_rank t) c)"

definition best_country :: "country_tally \<Rightarrow> string list \<Rightarrow> entry" where
  "best_country t ks = fold pick_country (map (country_entry t) ks) (Entry [] 0 0)"

subsection \<open>The network number vote\<close>

record asn_tally =
  at_counts :: "int \<rightharpoonup> nat"
  at_keys :: "int list"
  at_org :: "int \<rightharpoonup> string"

definition asn_tally0 :: asn_tally where
  "asn_tally0 = \<lparr> at_counts = Map.empty, at_keys = [], at_org = Map.empty \<rparr>"

definition asn_step :: "SourceResult \<Rightarrow> asn_tally \<Rightarrow> asn_tally" where
  "asn_step r t =
    (if sr_ASN r = 0 then t
     else t\<lparr> at_counts := (at_counts t)(sr_ASN r \<mapsto> get_count (at_counts t) (sr_ASN r) + 1),
             at_keys := (if at_counts t (sr_ASN r) = None then at_keys t @ [sr_ASN r] else at_keys t),
             at_org := (if sr_Org r \<noteq> [] then (at_org t)(sr_ASN r \<mapsto> sr_Org r) else at_org t) \<rparr>)"

datatype asn_entry = ASNEntry (ae_ASN: int) (ae_votes: nat)

definition pick_asn :: "asn_entry \<Rightarrow> asn_entry \<Rightarrow> asn_entry" where
  "pick_asn e st =
    (case e of ASNEntry a n \<Rightarrow> case st of ASNEntry bestASN bestN \<Rightarrow>
     if bestN < n \<or> (n = bestN \<and> a < bestASN) then ASNEntry a n else st)"

definition best_asn :: "asn_tally \<Rightarrow> int list \<Rightarrow> asn_entry" where
  "best_asn t ks = fold pick_asn (map (\<lambda>a. ASNEntry a (get_count (at_counts t) a)) ks) (ASNEntry 0 0)"

subsection \<open>The consensus\<close>

definition consensus_country :: "unicode \<Rightarrow> SourceResult list \<Rightarrow> ConsensusLocation \<Rightarrow> ConsensusLocation" where
  "consensus_country U ok loc =
    (let t = fold (country_step U) ok country_tally0;
         best = best_country t (ct_keys t); bestCountry = en_code best; bestN = en_votes best
     in if MinSources \<le> bestN then
          (let given = df_get (ct_name t) bestCountry;
               name = (if given = [] then countryNameForCode U bestCountry else given)
           in if isAlpha2 bestCountry \<and> name \<noteq> []
              then loc\<lparr>cl_CountryCode := bestCountry, cl_Country := name, cl_CountryConfident := True\<rparr>
              else loc)
        else loc)"

definition consensus_city :: "unicode \<Rightarrow> SourceResult list \<Rightarrow> ConsensusLocation \<Rightarrow> ConsensusLocation" where
  "consensus_city U ok loc =
    (let agreeing = agreeOnPlace U ok sr_City in
     if 2 \<le> length agreeing then
       (let region = canonicalPlace U (agreeOnPlace U agreeing sr_Region) sr_Region in
        if region \<noteq> []
        then loc\<lparr>cl_City := canonicalPlace U agreeing sr_City, cl_Region := region,
                 cl_CityConfident := True\<rparr>
        else loc)
     else loc)"

definition consensus_asn :: "SourceResult list \<Rightarrow> ConsensusLocation \<Rightarrow> ConsensusLocation" where
  "consensus_asn ok loc =
    (let t = fold asn_step ok asn_tally0; bestASN = ae_ASN (best_asn t (at_keys t))
     in loc\<lparr>cl_ASN := bestASN,
            cl_Org := (case at_org t bestASN of Some org \<Rightarrow> org | None \<Rightarrow> [])\<rparr>)"

definition flag_step :: "SourceResult \<Rightarrow> ConsensusLocation \<Rightarrow> ConsensusLocation" where
  "flag_step r loc = loc\<lparr>cl_Hosting := cl_Hosting loc \<or> sr_Hosting r,
     cl_Proxy := cl_Proxy loc \<or> sr_Proxy r, cl_Mobile := cl_Mobile loc \<or> sr_Mobile r\<rparr>"

definition consensus :: "unicode \<Rightarrow> SourceResult list \<Rightarrow> ConsensusLocation" where
  "consensus U ok =
    fold flag_step ok (consensus_asn ok (consensus_city U ok (consensus_country U ok location0)))"

subsection \<open>Elections that do not depend on the order of the ballots\<close>

text \<open>
  The interface of the loops over a map: a strict linear order on the entries. The loop keeps
  the better of the current entry and the best so far.
\<close>

locale tournament =
  fixes better :: "'a \<Rightarrow> 'a \<Rightarrow> bool"
  assumes better_irrefl: "\<not> better x x"
    and better_trans: "better x y \<Longrightarrow> better y z \<Longrightarrow> better x z"
    and better_total: "x \<noteq> y \<Longrightarrow> better x y \<or> better y x"
begin

lemma better_asym: "better x y \<Longrightarrow> \<not> better y x"
  using better_trans better_irrefl by blast

lemma winner_order:
  "mset xs = mset ys \<Longrightarrow>
    fold (\<lambda>x s. if better x s then x else s) xs s = fold (\<lambda>x s. if better x s then x else s) ys s"
proof (rule fold_mset_order)
  fix x y s
  have main: "(if better x (if better y s then y else s) then x else if better y s then y else s)
    = (if better y (if better x s then x else s) then y else if better x s then x else s)"
    if "better x y" for x y
    using that better_asym[OF that] better_trans[OF that, of s] by simp
  show "(if better x (if better y s then y else s) then x else if better y s then y else s)
    = (if better y (if better x s then x else s) then y else if better x s then x else s)"
  proof (cases "x = y")
    case False
    then consider "better x y" | "better y x" using better_total by blast
    then show ?thesis by cases (erule main, erule main [symmetric])
  qed simp
qed

lemma winner_in: "fold (\<lambda>x s. if better x s then x else s) xs s \<in> insert s (set xs)"
proof (induction xs arbitrary: s)
  case (Cons x xs)
  then show ?case using Cons.IH[of "if better x s then x else s"] by (auto split: if_splits)
qed simp

lemma winner_keeps:
  "\<not> better z s \<Longrightarrow> \<not> better z (fold (\<lambda>x s. if better x s then x else s) xs s)"
  by (induction xs arbitrary: s) (auto dest: better_trans)

lemma winner_best:
  "z \<in> insert s (set xs) \<Longrightarrow> \<not> better z (fold (\<lambda>x s. if better x s then x else s) xs s)"
proof (induction xs arbitrary: s)
  case Nil
  then show ?case using better_irrefl by simp
next
  case (Cons x xs)
  have "\<not> better s (if better x s then x else s)" "\<not> better x (if better x s then x else s)"
    using better_irrefl better_trans by auto
  then show ?case using Cons winner_keeps by auto
qed

end

text \<open>
  The entries are linearly ordered: more votes, then a more trusted source or a smaller number,
  then the smaller code; a loop keeps the greatest entry.
\<close>

instantiation entry :: linorder
begin

definition less_entry :: "entry \<Rightarrow> entry \<Rightarrow> bool" where
  "x < y \<longleftrightarrow> en_votes x < en_votes y \<or> en_votes x = en_votes y \<and> en_rank y < en_rank x
    \<or> en_votes x = en_votes y \<and> en_rank x = en_rank y \<and> en_code y < en_code x"

definition less_eq_entry :: "entry \<Rightarrow> entry \<Rightarrow> bool" where
  "x \<le> y \<longleftrightarrow> x < y \<or> x = (y :: entry)"

instance
  by standard (auto simp: less_entry_def less_eq_entry_def neq_iff intro: entry.expand)

end

instantiation asn_entry :: linorder
begin

definition less_asn_entry :: "asn_entry \<Rightarrow> asn_entry \<Rightarrow> bool" where
  "x < y \<longleftrightarrow> ae_votes x < ae_votes y \<or> ae_votes x = ae_votes y \<and> ae_ASN y < ae_ASN x"

definition less_eq_asn_entry :: "asn_entry \<Rightarrow> asn_entry \<Rightarrow> bool" where
  "x \<le> y \<longleftrightarrow> x < y \<or> x = (y :: asn_entry)"

instance
  by standard (auto simp: less_asn_entry_def less_eq_asn_entry_def neq_iff intro: asn_entry.expand)

end

interpretation country: tournament "\<lambda>x y :: entry. y < x"
  by unfold_locales auto

interpretation asn: tournament "\<lambda>x y :: asn_entry. y < x"
  by unfold_locales auto

lemma pick_country_eq: "pick_country = (\<lambda>e st. if st < e then e else st)"
  by (auto simp: fun_eq_iff pick_country_def less_entry_def split: entry.split)

lemma pick_asn_eq: "pick_asn = (\<lambda>e st. if st < e then e else st)"
  by (auto simp: fun_eq_iff pick_asn_def less_asn_entry_def split: asn_entry.split)

text \<open>A loop keeps the maximum.\<close>

lemma best_country_Max: "best_country t ks = Max (insert (Entry [] 0 0) (country_entry t ` set ks))"
proof -
  have "pick_country = max" by (auto simp: fun_eq_iff pick_country_eq max_def)
  then show ?thesis
    using Max.set_eq_fold[of "Entry [] 0 0" "map (country_entry t) ks"] by (simp add: best_country_def)
qed

lemma best_country_any_order:
  "mset ks = mset ks' \<Longrightarrow> best_country t ks = best_country t ks'"
  unfolding best_country_def pick_country_eq by (rule country.winner_order) simp

lemma best_asn_any_order: "mset ks = mset ks' \<Longrightarrow> best_asn t ks = best_asn t ks'"
  unfolding best_asn_def pick_asn_eq by (rule asn.winner_order) simp

subsection \<open>What the country tally holds\<close>

text \<open>The votes for a code: the sources whose normalised code it is.\<close>

definition country_votes :: "unicode \<Rightarrow> SourceResult list \<Rightarrow> string \<Rightarrow> nat" where
  "country_votes U ok c = count_if (\<lambda>r. normalizeCountry U (sr_CountryCode r) = c) ok"

lemma get_count_upd [simp]: "get_count (m(k \<mapsto> n)) j = (if j = k then n else get_count m j)"
  by (simp add: get_count_def)

lemma tally_counts:
  "c \<noteq> [] \<Longrightarrow> get_count (ct_counts (fold (country_step U) ok t)) c
    = get_count (ct_counts t) c + country_votes U ok c"
  by (induction ok arbitrary: t) (auto simp: country_step_def country_votes_def Let_def)

lemma tally_keys:
  "set (ct_keys t) = dom (ct_counts t) \<Longrightarrow> distinct (ct_keys t) \<Longrightarrow>
    set (ct_keys (fold (country_step U) ok t)) = dom (ct_counts (fold (country_step U) ok t))
    \<and> distinct (ct_keys (fold (country_step U) ok t))
    \<and> dom (ct_counts (fold (country_step U) ok t))
      = dom (ct_counts t) \<union> (\<lambda>r. normalizeCountry U (sr_CountryCode r)) ` set ok - {[]} \<inter> - dom (ct_counts t)"
proof (induction ok arbitrary: t)
  case Nil
  then show ?case by auto
next
  case (Cons r ok)
  have "set (ct_keys (country_step U r t)) = dom (ct_counts (country_step U r t))"
    "distinct (ct_keys (country_step U r t))"
    using Cons.prems by (auto simp: country_step_def Let_def)
  from Cons.IH[OF this] show ?case by (auto simp: country_step_def Let_def split: if_splits)
qed

lemma country_tally_keys:
  "set (ct_keys (fold (country_step U) ok country_tally0))
    = (\<lambda>r. normalizeCountry U (sr_CountryCode r)) ` set ok - {[]}"
  using tally_keys[of country_tally0 U ok] by (auto simp: country_tally0_def)

lemma offer_value:
  "df_value (offer c v rank d) k = Some w \<Longrightarrow>
    df_value d k = Some w \<or> (k = c \<and> w = TrimSpace v \<and> w \<noteq> [])"
  by (auto simp: offer_def Let_def split: if_splits)

lemma country_step_name:
  "df_value (ct_name (country_step U r t)) c = Some w \<Longrightarrow>
    df_value (ct_name t) c = Some w
    \<or> (w \<noteq> [] \<and> normalizeCountry U (sr_CountryCode r) = c \<and> w = TrimSpace (sr_Country r))"
  by (auto simp: country_step_def Let_def simp del: fun_upd_apply dest!: offer_value split: if_splits)

lemma tally_name:
  "df_value (ct_name (fold (country_step U) ok t)) c = Some w \<Longrightarrow>
    df_value (ct_name t) c = Some w
    \<or> (w \<noteq> [] \<and> (\<exists>r\<in>set ok. normalizeCountry U (sr_CountryCode r) = c \<and> w = TrimSpace (sr_Country r)))"
proof (induction ok arbitrary: t)
  case (Cons r ok)
  then have "df_value (ct_name (country_step U r t)) c = Some w
    \<or> (w \<noteq> [] \<and> (\<exists>r\<in>set ok. normalizeCountry U (sr_CountryCode r) = c \<and> w = TrimSpace (sr_Country r)))"
    by simp
  then show ?case using country_step_name[of U r t c w] by auto
qed simp

lemma best_country_char:
  fixes U ok
  defines "t \<equiv> fold (country_step U) ok country_tally0"
  assumes "best_country t (ct_keys t) = Entry c n rank"
  shows "n = 0 \<and> c = [] \<and> (\<forall>d. d \<noteq> [] \<longrightarrow> country_votes U ok d = 0)
    \<or> c \<in> set (ct_keys t) \<and> c \<noteq> [] \<and> n = country_votes U ok c \<and> 0 < n
      \<and> (\<forall>d. d \<noteq> [] \<longrightarrow> country_votes U ok d \<le> n)"
proof (cases "ct_keys t = []")
  case True
  then have "\<forall>d. d \<noteq> [] \<longrightarrow> country_votes U ok d = 0"
    using country_tally_keys[of U ok] by (auto simp: t_def country_votes_def filter_empty_conv)
  then show ?thesis using True assms by (simp add: best_country_def)
next
  case False
  define es where "es = map (country_entry t) (ct_keys t)"
  have win: "Entry c n rank = fold (\<lambda>e st. if st < e then e else st) es (Entry [] 0 0)"
    using assms by (simp add: es_def best_country_def pick_country_eq)
  have votes: "get_count (ct_counts t) d = country_votes U ok d" if "d \<noteq> []" for d
    using tally_counts[OF that, of U ok country_tally0]
    by (simp add: t_def country_tally0_def get_count_def)
  have keys: "set (ct_keys t) = (\<lambda>r. normalizeCountry U (sr_CountryCode r)) ` set ok - {[]}"
    by (simp add: t_def country_tally_keys)
  have pos: "0 < country_votes U ok d" if "d \<in> set (ct_keys t)" for d
    using that by (auto simp: keys country_votes_def filter_empty_conv)
  have best: "country_votes U ok d \<le> n" if "d \<in> set (ct_keys t)" for d
  proof -
    have "country_entry t d \<in> insert (Entry [] 0 0) (set es)" using that by (simp add: es_def)
    then have "\<not> Entry c n rank < country_entry t d"
      unfolding win by (rule country.winner_best)
    then show ?thesis using votes[of d] that keys
      by (auto simp: less_entry_def country_entry_def)
  qed
  obtain d where d: "d \<in> set (ct_keys t)" using False by (cases "ct_keys t") auto
  have "0 < n" using best[OF d] pos[OF d] by simp
  moreover have "Entry c n rank \<in> insert (Entry [] 0 0) (set es)" unfolding win by (rule country.winner_in)
  ultimately have c: "c \<in> set (ct_keys t)" "n = get_count (ct_counts t) c"
    by (auto simp: es_def country_entry_def)
  then have "c \<noteq> []" using keys by auto
  moreover have "country_votes U ok d = 0" if "d \<noteq> []" "d \<notin> set (ct_keys t)" for d
    using that by (auto simp: keys country_votes_def filter_empty_conv)
  ultimately show ?thesis using c votes best \<open>0 < n\<close> by (metis less_imp_le)
qed

subsection \<open>The fields of the consensus\<close>

lemma flag_fold_fields [simp]:
  "cl_CountryCode (fold flag_step ok loc) = cl_CountryCode loc"
  "cl_Country (fold flag_step ok loc) = cl_Country loc"
  "cl_CountryConfident (fold flag_step ok loc) = cl_CountryConfident loc"
  "cl_City (fold flag_step ok loc) = cl_City loc"
  "cl_Region (fold flag_step ok loc) = cl_Region loc"
  "cl_CityConfident (fold flag_step ok loc) = cl_CityConfident loc"
  "cl_ASN (fold flag_step ok loc) = cl_ASN loc"
  "cl_Org (fold flag_step ok loc) = cl_Org loc"
  by (induction ok arbitrary: loc) (simp_all add: flag_step_def)

lemma flag_fold_flags:
  "cl_Hosting (fold flag_step ok loc) \<longleftrightarrow> cl_Hosting loc \<or> list_ex sr_Hosting ok"
  "cl_Proxy (fold flag_step ok loc) \<longleftrightarrow> cl_Proxy loc \<or> list_ex sr_Proxy ok"
  "cl_Mobile (fold flag_step ok loc) \<longleftrightarrow> cl_Mobile loc \<or> list_ex sr_Mobile ok"
  by (induction ok arbitrary: loc) (auto simp: flag_step_def)

lemma consensus_asn_fields [simp]:
  "cl_CountryCode (consensus_asn ok loc) = cl_CountryCode loc"
  "cl_Country (consensus_asn ok loc) = cl_Country loc"
  "cl_CountryConfident (consensus_asn ok loc) = cl_CountryConfident loc"
  "cl_City (consensus_asn ok loc) = cl_City loc"
  "cl_Region (consensus_asn ok loc) = cl_Region loc"
  "cl_CityConfident (consensus_asn ok loc) = cl_CityConfident loc"
  by (simp_all add: consensus_asn_def Let_def split_beta)

lemma consensus_city_fields [simp]:
  "cl_CountryCode (consensus_city U ok loc) = cl_CountryCode loc"
  "cl_Country (consensus_city U ok loc) = cl_Country loc"
  "cl_CountryConfident (consensus_city U ok loc) = cl_CountryConfident loc"
  by (simp_all add: consensus_city_def Let_def)

lemma consensus_country_city_fields [simp]:
  "cl_City (consensus_country U ok loc) = cl_City loc"
  "cl_Region (consensus_country U ok loc) = cl_Region loc"
  "cl_CityConfident (consensus_country U ok loc) = cl_CityConfident loc"
  by (simp_all add: consensus_country_def Let_def split_beta)

lemma location0_fields [simp]:
  "cl_CountryCode location0 = []" "cl_Country location0 = []" "\<not> cl_CountryConfident location0"
  "cl_City location0 = []" "cl_Region location0 = []" "\<not> cl_CityConfident location0"
  by (simp_all add: location0_def)

lemma isAlpha2_iff: "isAlpha2 c \<longleftrightarrow> length c = 2 \<and> list_all (\<lambda>x. in_rng 97 122 x \<or> in_rng 65 90 x) c"
  by (auto simp: isAlpha2_def list_all_iff)

text \<open>The winner's record: what \<open>consensus_country\<close> writes, in terms of the election.\<close>

definition elected :: "unicode \<Rightarrow> SourceResult list \<Rightarrow> entry" where
  "elected U ok = (let t = fold (country_step U) ok country_tally0 in best_country t (ct_keys t))"

definition elected_name :: "unicode \<Rightarrow> SourceResult list \<Rightarrow> string" where
  "elected_name U ok =
    (let c = en_code (elected U ok);
         given = df_get (ct_name (fold (country_step U) ok country_tally0)) c
     in if given = [] then countryNameForCode U c else given)"

lemma consensus_country_elected_eq:
  "consensus_country U ok loc =
    (if MinSources \<le> en_votes (elected U ok) \<and> isAlpha2 (en_code (elected U ok)) \<and> elected_name U ok \<noteq> []
     then loc\<lparr>cl_CountryCode := en_code (elected U ok), cl_Country := elected_name U ok,
              cl_CountryConfident := True\<rparr>
     else loc)"
  by (simp add: consensus_country_def elected_def elected_name_def Let_def split_beta)

lemma elected_char:
  "en_votes (elected U ok) = 0 \<and> (\<forall>d. d \<noteq> [] \<longrightarrow> country_votes U ok d = 0)
   \<or> en_code (elected U ok) \<noteq> [] \<and> en_votes (elected U ok) = country_votes U ok (en_code (elected U ok))
     \<and> 0 < en_votes (elected U ok)
     \<and> (\<forall>d. d \<noteq> [] \<longrightarrow> country_votes U ok d \<le> en_votes (elected U ok))"
  using best_country_char[of U ok "en_code (elected U ok)" "en_votes (elected U ok)" "en_rank (elected U ok)"]
  by (auto simp: elected_def Let_def)

lemma elected_name_source:
  assumes "elected_name U ok \<noteq> []"
  shows "(\<exists>r\<in>set ok. normalizeCountry U (sr_CountryCode r) = en_code (elected U ok)
            \<and> elected_name U ok = TrimSpace (sr_Country r))
    \<or> elected_name U ok \<in> snd ` set isoCountryNames"
proof (cases "df_get (ct_name (fold (country_step U) ok country_tally0)) (en_code (elected U ok)) = []")
  case True
  then have "elected_name U ok = countryNameForCode U (en_code (elected U ok))"
    by (simp add: elected_name_def Let_def)
  then show ?thesis using assms countryNameForCode_cases[of U "en_code (elected U ok)"] by force
next
  case False
  then obtain w where w: "df_value (ct_name (fold (country_step U) ok country_tally0)) (en_code (elected U ok)) = Some w"
    "elected_name U ok = w"
    by (auto simp: df_get_def elected_name_def Let_def split: option.splits)
  show ?thesis using tally_name[OF w(1)] w(2)
    by (auto simp: country_tally0_def newDisplayField_def)
qed

lemma normalized_lower:
  assumes "unicode_ok U" "isAlpha2 (normalizeCountry U code)"
  shows "list_all (in_rng 97 122) (normalizeCountry U code)"
proof -
  define c where "c = normalizeCountry U code"
  have "is_ascii c"
    using assms(2) by (auto simp: c_def isAlpha2_iff is_ascii_def list_all_iff in_rng_def)
  then have "map of_char c = map (lower_rune U) (utf8_decode (TrimSpace code))"
    using utf8_decode_ToLower[OF assms(1), of "TrimSpace code"]
    by (simp add: c_def normalizeCountry_def utf8_decode_ascii)
  then have "(\<lambda>x. of_char x :: nat) ` set c = lower_rune U ` set (utf8_decode (TrimSpace code))"
    by (metis list.set_map)
  then have "\<not> in_rng 65 90 x" if "x \<in> set c" for x
    using that lower_rune_not_upper[OF assms(1)] unfolding in_rng_def by (metis imageE imageI)
  then show ?thesis using assms(2) by (auto simp: c_def isAlpha2_iff list_all_iff)
qed

subsection \<open>The country verdict\<close>

lemma country_confident:
  assumes "unicode_ok U" and "cl_CountryConfident (consensus U ok)"
  shows "length (cl_CountryCode (consensus U ok)) = 2
    \<and> list_all (in_rng 97 122) (cl_CountryCode (consensus U ok))
    \<and> MinSources \<le> country_votes U ok (cl_CountryCode (consensus U ok))
    \<and> (\<forall>c. c \<noteq> [] \<longrightarrow> country_votes U ok c \<le> country_votes U ok (cl_CountryCode (consensus U ok)))
    \<and> cl_CountryCode (consensus U ok) = en_code (elected U ok)
    \<and> cl_Country (consensus U ok) = elected_name U ok \<and> elected_name U ok \<noteq> []"
proof -
  have conf: "MinSources \<le> en_votes (elected U ok)" "isAlpha2 (en_code (elected U ok))"
    "elected_name U ok \<noteq> []"
    and code: "cl_CountryCode (consensus U ok) = en_code (elected U ok)"
    and name: "cl_Country (consensus U ok) = elected_name U ok"
    using assms(2) by (auto simp: consensus_def consensus_country_elected_eq split: if_splits)
  have win: "en_votes (elected U ok) = country_votes U ok (en_code (elected U ok))"
    "\<forall>d. d \<noteq> [] \<longrightarrow> country_votes U ok d \<le> en_votes (elected U ok)"
    using elected_char[of U ok] conf(1) by (auto simp: MinSources_def prod_eq_iff)
  then have "0 < country_votes U ok (en_code (elected U ok))"
    using conf(1) by (simp add: MinSources_def)
  then obtain r where "r \<in> set ok" "normalizeCountry U (sr_CountryCode r) = en_code (elected U ok)"
    by (auto simp: country_votes_def filter_empty_conv)
  then have "list_all (in_rng 97 122) (en_code (elected U ok))"
    using normalized_lower[OF assms(1)] conf(2) by metis
  then show ?thesis using conf win by (simp add: code name isAlpha2_iff)
qed

text \<open>
  C6. A country-confident consensus carries a complete record: the code is two lower-case ASCII
  letters, at least \<open>MinSources\<close> sources reported it and no other code got more votes, and
  the name is non-empty and comes from a source that reported this code or from the ISO table.
\<close>

theorem consensus_country_sound:
  assumes "unicode_ok U" and "cl_CountryConfident (consensus U ok)"
  shows "length (cl_CountryCode (consensus U ok)) = 2
    \<and> list_all (in_rng 97 122) (cl_CountryCode (consensus U ok))
    \<and> MinSources \<le> country_votes U ok (cl_CountryCode (consensus U ok))
    \<and> (\<forall>c. c \<noteq> [] \<longrightarrow> country_votes U ok c \<le> country_votes U ok (cl_CountryCode (consensus U ok)))
    \<and> cl_Country (consensus U ok) \<noteq> []
    \<and> ((\<exists>r\<in>set ok. normalizeCountry U (sr_CountryCode r) = cl_CountryCode (consensus U ok)
            \<and> cl_Country (consensus U ok) = TrimSpace (sr_Country r))
       \<or> cl_Country (consensus U ok) \<in> snd ` set isoCountryNames)"
  using country_confident[OF assms] elected_name_source[of U ok] by auto

lemma elected_if:
  assumes "isAlpha2 c" and "MinSources \<le> country_votes U ok c"
    and "\<forall>d. d \<noteq> [] \<and> d \<noteq> c \<longrightarrow> country_votes U ok d < country_votes U ok c"
  shows "en_code (elected U ok) = c \<and> en_votes (elected U ok) = country_votes U ok c"
proof -
  define e where "e = en_code (elected U ok)"
  have "c \<noteq> []" using assms(1) by (auto simp: isAlpha2_iff)
  then have e: "e \<noteq> []" "en_votes (elected U ok) = country_votes U ok e"
    "country_votes U ok c \<le> country_votes U ok e"
    using elected_char[of U ok] assms(2) by (auto simp: MinSources_def e_def)
  then have "e = c" using assms(3)[rule_format, of e] by force
  then show ?thesis using e by (simp add: e_def)
qed

lemma elected_name_iso: "countryNameForCode U (en_code (elected U ok)) \<noteq> [] \<Longrightarrow> elected_name U ok \<noteq> []"
  by (simp add: elected_name_def Let_def)

text \<open>
  C29. A country code that at least \<open>MinSources\<close> sources report, that has strictly more votes
  than every other code and that the ISO table names is always elected.
\<close>

theorem consensus_country_complete:
  assumes "isAlpha2 c" and "MinSources \<le> country_votes U ok c"
    and "\<forall>d. d \<noteq> [] \<and> d \<noteq> c \<longrightarrow> country_votes U ok d < country_votes U ok c"
    and "countryNameForCode U c \<noteq> []"
  shows "cl_CountryConfident (consensus U ok) \<and> cl_CountryCode (consensus U ok) = c"
  using elected_if[OF assms(1-3)] elected_name_iso[of U ok] assms(1,2,4)
  by (simp add: consensus_def consensus_country_elected_eq)

text \<open>
  The verdict degrades cleanly: without two agreeing sources, or when the elected code is
  not two ASCII letters, the consensus is not confident, and whenever it is not confident the
  code and the name are empty, so no half-filled record can be submitted.
\<close>

theorem consensus_country_degrades:
  "((\<forall>c. isAlpha2 c \<longrightarrow> country_votes U ok c < MinSources) \<longrightarrow> \<not> cl_CountryConfident (consensus U ok))
   \<and> (\<not> cl_CountryConfident (consensus U ok) \<longrightarrow>
       cl_CountryCode (consensus U ok) = [] \<and> cl_Country (consensus U ok) = [])"
proof -
  have conf: "cl_CountryConfident (consensus U ok) \<longleftrightarrow>
      MinSources \<le> en_votes (elected U ok) \<and> isAlpha2 (en_code (elected U ok)) \<and> elected_name U ok \<noteq> []"
    by (simp add: consensus_def consensus_country_elected_eq)
  have "\<not> MinSources \<le> en_votes (elected U ok)"
    if "country_votes U ok (en_code (elected U ok)) < MinSources"
    using elected_char[of U ok] that by (auto simp: MinSources_def)
  then have "(\<forall>c. isAlpha2 c \<longrightarrow> country_votes U ok c < MinSources) \<Longrightarrow> \<not> cl_CountryConfident (consensus U ok)"
    unfolding conf by blast
  moreover have "\<not> cl_CountryConfident (consensus U ok) \<Longrightarrow>
      cl_CountryCode (consensus U ok) = [] \<and> cl_Country (consensus U ok) = []"
    unfolding conf by (simp only: consensus_def consensus_country_elected_eq flag_fold_fields
        consensus_asn_fields consensus_city_fields if_False location0_fields simp_thms)
  ultimately show ?thesis by blast
qed

subsection \<open>The order of the sources and of the map\<close>

text \<open>The most trusted rank among the sources that report a code.\<close>

lemma tally_rank:
  "c \<noteq> [] \<Longrightarrow> ct_rank (fold (country_step U) ok t) c
    = fold (\<lambda>r m. if normalizeCountry U (sr_CountryCode r) = c
        then Some (case m of None \<Rightarrow> sourceRank (sr_Name r) | Some h \<Rightarrow> min h (sourceRank (sr_Name r)))
        else m) ok (ct_rank t c)"
  by (induction ok arbitrary: t)
    (auto simp: country_step_def Let_def min_def split: option.split if_splits)

lemma tally_rank_order:
  assumes "mset ok = mset ok'" "c \<noteq> []"
  shows "ct_rank (fold (country_step U) ok t) c = ct_rank (fold (country_step U) ok' t) c"
  unfolding tally_rank[OF assms(2)]
  by (rule fold_mset_order[OF assms(1)]) (auto split: option.split)

lemma country_votes_order: "mset ok = mset ok' \<Longrightarrow> country_votes U ok c = country_votes U ok' c"
  unfolding country_votes_def by (metis mset_filter size_mset)

lemma elected_order:
  assumes "mset ok = mset ok'"
  shows "elected U ok = elected U ok'"
proof -
  define t where "t = fold (country_step U) ok country_tally0"
  define t' where "t' = fold (country_step U) ok' country_tally0"
  have keys: "set (ct_keys t) = set (ct_keys t')" "[] \<notin> set (ct_keys t)"
    unfolding t_def t'_def country_tally_keys using mset_eq_setD[OF assms] by auto
  have "distinct (ct_keys t)" "distinct (ct_keys t')"
    using tally_keys[of country_tally0 U] by (simp_all add: t_def t'_def country_tally0_def)
  then have ms: "mset (ct_keys t) = mset (ct_keys t')" using keys(1) by (simp add: set_eq_iff_mset_eq_distinct)
  have "country_entry t c = country_entry t' c" if "c \<in> set (ct_keys t')" for c
  proof -
    have "c \<noteq> []" using that keys by auto
    then show ?thesis using tally_rank_order[OF assms] country_votes_order[OF assms]
      by (simp add: country_entry_def t_def t'_def tally_counts get_count_def[of "ct_rank _"])
  qed
  then have "best_country t (ct_keys t') = best_country t' (ct_keys t')"
    unfolding best_country_def by (simp cong: map_cong)
  then show ?thesis using best_country_any_order[OF ms, of t]
    by (simp add: elected_def t_def t'_def Let_def)
qed

text \<open>Whether a code gets a name from the sources does not depend on their order either.\<close>

lemma offer_dom:
  "dom (df_rank d) = dom (df_value d) \<Longrightarrow> dom (df_rank (offer c v k d)) = dom (df_value (offer c v k d))
    \<and> dom (df_value (offer c v k d)) = (if TrimSpace v = [] then {} else {c}) \<union> dom (df_value d)"
  by (auto simp: offer_def Let_def split: option.splits if_splits)

lemma country_step_name_dom:
  "dom (df_rank (ct_name t)) = dom (df_value (ct_name t)) \<Longrightarrow>
    dom (df_rank (ct_name (country_step U r t))) = dom (df_value (ct_name (country_step U r t)))
    \<and> dom (df_value (ct_name (country_step U r t))) = dom (df_value (ct_name t)) \<union>
      {c. c \<noteq> [] \<and> normalizeCountry U (sr_CountryCode r) = c \<and> TrimSpace (sr_Country r) \<noteq> []}"
  using offer_dom[of "ct_name t" "normalizeCountry U (sr_CountryCode r)" "sr_Country r" "sourceRank (sr_Name r)"]
  by (cases "normalizeCountry U (sr_CountryCode r) = []") (auto simp: country_step_def Let_def)

lemma tally_name_dom:
  "dom (df_rank (ct_name t)) = dom (df_value (ct_name t)) \<Longrightarrow>
    dom (df_value (ct_name (fold (country_step U) ok t))) = dom (df_value (ct_name t)) \<union>
      {c. c \<noteq> [] \<and> (\<exists>r\<in>set ok. normalizeCountry U (sr_CountryCode r) = c \<and> TrimSpace (sr_Country r) \<noteq> [])}"
proof (induction ok arbitrary: t)
  case (Cons r ok)
  note step = country_step_name_dom[OF Cons.prems, of U r]
  show ?case unfolding fold_simps Cons.IH[OF conjunct1[OF step]] conjunct2[OF step] by auto
qed simp

lemma elected_name_empty:
  assumes "en_code (elected U ok) \<noteq> []"
  shows "elected_name U ok = [] \<longleftrightarrow> countryNameForCode U (en_code (elected U ok)) = []
    \<and> (\<forall>r\<in>set ok. normalizeCountry U (sr_CountryCode r) = en_code (elected U ok) \<longrightarrow> TrimSpace (sr_Country r) = [])"
proof -
  define t where "t = fold (country_step U) ok country_tally0"
  have "df_get (ct_name t) (en_code (elected U ok)) = [] \<longleftrightarrow> df_value (ct_name t) (en_code (elected U ok)) = None"
    using tally_name[of U ok country_tally0 "en_code (elected U ok)"]
    by (auto simp: df_get_def t_def country_tally0_def newDisplayField_def split: option.split)
  also have "\<dots> \<longleftrightarrow> en_code (elected U ok) \<notin> dom (df_value (ct_name t))"
    by (simp add: domIff)
  also have "dom (df_value (ct_name t)) = {c. c \<noteq> [] \<and> (\<exists>r\<in>set ok. normalizeCountry U (sr_CountryCode r) = c
      \<and> TrimSpace (sr_Country r) \<noteq> [])}"
    using tally_name_dom[of country_tally0 U ok]
    by (simp add: t_def country_tally0_def newDisplayField_def)
  also have "en_code (elected U ok) \<notin> \<dots> \<longleftrightarrow> (\<forall>r\<in>set ok. normalizeCountry U (sr_CountryCode r) = en_code (elected U ok)
      \<longrightarrow> TrimSpace (sr_Country r) = [])"
    using assms by auto
  finally have "df_get (ct_name t) (en_code (elected U ok)) = [] \<longleftrightarrow>
    (\<forall>r\<in>set ok. normalizeCountry U (sr_CountryCode r) = en_code (elected U ok) \<longrightarrow> TrimSpace (sr_Country r) = [])" .
  moreover have "elected_name U ok = [] \<longleftrightarrow>
      countryNameForCode U (en_code (elected U ok)) = [] \<and> df_get (ct_name t) (en_code (elected U ok)) = []"
    by (simp add: elected_name_def Let_def t_def)
  ultimately show ?thesis by blast
qed

text \<open>
  C30. The country verdict depends neither on the order in which Go iterates the vote map nor on
  the order in which the sources are listed: for any permutation of the sources the same code
  is elected, with the same confidence, and any order of the map's keys elects it: it is the
  greatest entry in the order of votes, then trust, then code.
\<close>

theorem consensus_country_order:
  assumes "mset ok = mset ok'"
  shows "cl_CountryCode (consensus U ok) = cl_CountryCode (consensus U ok')
    \<and> cl_CountryConfident (consensus U ok) = cl_CountryConfident (consensus U ok')
    \<and> (\<forall>ks. mset ks = mset (ct_keys (fold (country_step U) ok country_tally0)) \<longrightarrow>
         best_country (fold (country_step U) ok country_tally0) ks = elected U ok)
    \<and> (let t = fold (country_step U) ok country_tally0
         in elected U ok = Max (insert (Entry [] 0 0) (country_entry t ` set (ct_keys t))))"
proof -
  have same: "elected U ok = elected U ok'" using elected_order[OF assms] .
  have "elected_name U ok = [] \<longleftrightarrow> elected_name U ok' = []" if "en_code (elected U ok) \<noteq> []"
    using elected_name_empty[of U ok] elected_name_empty[of U ok'] that same mset_eq_setD[OF assms]
    by simp
  moreover have "isAlpha2 (en_code (elected U ok)) \<Longrightarrow> en_code (elected U ok) \<noteq> []"
    by (auto simp: isAlpha2_iff)
  moreover have "best_country (fold (country_step U) ok country_tally0) ks = elected U ok"
    if "mset ks = mset (ct_keys (fold (country_step U) ok country_tally0))" for ks
    using best_country_any_order[OF that] by (simp add: elected_def Let_def)
  moreover have "let t = fold (country_step U) ok country_tally0
      in elected U ok = Max (insert (Entry [] 0 0) (country_entry t ` set (ct_keys t)))"
    by (simp add: elected_def best_country_Max Let_def)
  ultimately show ?thesis using same
    by (auto simp: consensus_def consensus_country_elected_eq)
qed

subsection \<open>Network number and flags\<close>

definition asn_votes :: "SourceResult list \<Rightarrow> int \<Rightarrow> nat" where
  "asn_votes ok a = count_if (\<lambda>r. sr_ASN r = a) ok"

lemma asn_tally_counts:
  "a \<noteq> 0 \<Longrightarrow> get_count (at_counts (fold asn_step ok t)) a = get_count (at_counts t) a + asn_votes ok a"
  by (induction ok arbitrary: t) (auto simp: asn_step_def asn_votes_def)

lemma asn_keys:
  "set (at_keys t) = dom (at_counts t) \<Longrightarrow>
    set (at_keys (fold asn_step ok t)) = set (at_keys t) \<union> (sr_ASN ` set ok - {0})"
proof (induction ok arbitrary: t)
  case (Cons r ok)
  have "set (at_keys (asn_step r t)) = dom (at_counts (asn_step r t))"
    "set (at_keys (asn_step r t)) = set (at_keys t) \<union> ({sr_ASN r} - {0})"
    using Cons.prems by (auto simp: asn_step_def)
  then show ?case using Cons.IH[of "asn_step r t"] by auto
qed simp

lemma asn_org_char:
  "at_org (fold asn_step ok t) a = Some w \<Longrightarrow>
    at_org t a = Some w \<or> (\<exists>r\<in>set ok. sr_ASN r = a \<and> sr_Org r = w)"
proof (induction ok arbitrary: t)
  case (Cons r ok)
  have "at_org (asn_step r t) a = Some w \<Longrightarrow> at_org t a = Some w \<or> sr_ASN r = a \<and> sr_Org r = w"
    by (auto simp: asn_step_def split: if_splits)
  then show ?case using Cons.IH[of "asn_step r t"] Cons.prems by auto
qed simp

lemma best_asn_char:
  assumes "best_asn t ks = ASNEntry a n" "\<forall>k\<in>set ks. 0 < get_count (at_counts t) k"
  shows "if ks = [] then a = 0
    else a \<in> set ks \<and> (\<forall>k\<in>set ks. get_count (at_counts t) k < get_count (at_counts t) a
       \<or> get_count (at_counts t) k = get_count (at_counts t) a \<and> a \<le> k)"
proof (cases "ks = []")
  case True
  then show ?thesis using assms by (simp add: best_asn_def)
next
  case False
  define es where "es = map (\<lambda>k. ASNEntry k (get_count (at_counts t) k)) ks"
  have win: "ASNEntry a n = fold (\<lambda>e st. if st < e then e else st) es (ASNEntry 0 0)"
    using assms(1) by (simp add: es_def best_asn_def pick_asn_eq)
  have best: "\<not> ASNEntry a n < ASNEntry k (get_count (at_counts t) k)" if "k \<in> set ks" for k
    unfolding win by (rule asn.winner_best) (use that in \<open>auto simp: es_def\<close>)
  obtain k where "k \<in> set ks" using False by (cases ks) auto
  then have "0 < n" using best[of k] assms(2) by (force simp: less_asn_entry_def)
  moreover have "ASNEntry a n \<in> insert (ASNEntry 0 0) (set es)" unfolding win by (rule asn.winner_in)
  ultimately have "a \<in> set ks" "n = get_count (at_counts t) a" by (auto simp: es_def)
  moreover have "get_count (at_counts t) k < n \<or> get_count (at_counts t) k = n \<and> a \<le> k"
    if "k \<in> set ks" for k
    using best[OF that] by (simp add: less_asn_entry_def not_less) linarith
  ultimately show ?thesis using False by simp
qed

text \<open>
  The network number is the plurality of the reported non-zero numbers, the smaller one on
  a tie, and 0 only when no source reported one; its organisation comes from a source with that
  number; the hosting, proxy and mobile flags are set when some responding source set them.
\<close>

theorem consensus_asn_flags:
  "(cl_ASN (consensus U ok) = 0 \<longleftrightarrow> (\<forall>r\<in>set ok. sr_ASN r = 0))
   \<and> (\<forall>a. a \<noteq> 0 \<longrightarrow> asn_votes ok a < asn_votes ok (cl_ASN (consensus U ok))
        \<or> asn_votes ok a = 0
        \<or> asn_votes ok a = asn_votes ok (cl_ASN (consensus U ok)) \<and> cl_ASN (consensus U ok) \<le> a)
   \<and> (cl_Org (consensus U ok) = [] \<or> (\<exists>r\<in>set ok. sr_ASN r = cl_ASN (consensus U ok) \<and> sr_Org r = cl_Org (consensus U ok)))
   \<and> cl_Hosting (consensus U ok) = list_ex sr_Hosting ok
   \<and> cl_Proxy (consensus U ok) = list_ex sr_Proxy ok
   \<and> cl_Mobile (consensus U ok) = list_ex sr_Mobile ok"
proof -
  define t where "t = fold asn_step ok asn_tally0"
  define a where "a = ae_ASN (best_asn t (at_keys t))"
  have asn: "cl_ASN (consensus U ok) = a"
    by (simp add: consensus_def consensus_asn_def Let_def split_beta a_def t_def)
  have org: "cl_Org (consensus U ok) = (case at_org t a of Some org \<Rightarrow> org | None \<Rightarrow> [])"
    by (simp add: consensus_def consensus_asn_def Let_def split_beta a_def t_def)
  have keys: "set (at_keys t) = sr_ASN ` set ok - {0}"
    using asn_keys[of asn_tally0 ok] by (simp add: t_def asn_tally0_def)
  have counts: "get_count (at_counts t) k = asn_votes ok k" if "k \<noteq> 0" for k
    using asn_tally_counts[OF that, of ok asn_tally0] by (simp add: t_def asn_tally0_def get_count_def)
  have pos: "\<forall>k\<in>set (at_keys t). 0 < get_count (at_counts t) k"
    using keys counts by (auto simp: asn_votes_def filter_empty_conv)
  have zero: "asn_votes ok k = 0" if "k \<noteq> 0" "k \<notin> set (at_keys t)" for k
    using that by (auto simp: keys asn_votes_def filter_empty_conv)
  have char: "if at_keys t = [] then a = 0 else a \<in> set (at_keys t) \<and>
     (\<forall>k\<in>set (at_keys t). get_count (at_counts t) k < get_count (at_counts t) a
       \<or> get_count (at_counts t) k = get_count (at_counts t) a \<and> a \<le> k)"
    using best_asn_char[OF _ pos] by (metis a_def asn_entry.collapse)
  have "a = 0 \<longleftrightarrow> (\<forall>r\<in>set ok. sr_ASN r = 0)"
    using char keys by (cases "at_keys t = []") auto
  moreover have "asn_votes ok k < asn_votes ok a \<or> asn_votes ok k = 0
      \<or> asn_votes ok k = asn_votes ok a \<and> a \<le> k" if "k \<noteq> 0" for k
  proof (cases "k \<in> set (at_keys t)")
    case True
    then have "a \<noteq> 0" using char keys by (auto split: if_splits)
    then show ?thesis using True char counts[OF that] counts[of a] by (auto split: if_splits)
  qed (use zero[OF that] in blast)
  moreover have "(case at_org t a of Some org \<Rightarrow> org | None \<Rightarrow> []) = []
      \<or> (\<exists>r\<in>set ok. sr_ASN r = a \<and> sr_Org r = (case at_org t a of Some org \<Rightarrow> org | None \<Rightarrow> []))"
    using asn_org_char[of ok asn_tally0 a] by (auto simp: t_def asn_tally0_def split: option.split)
  moreover have "cl_Hosting (consensus U ok) = list_ex sr_Hosting ok"
    "cl_Proxy (consensus U ok) = list_ex sr_Proxy ok" "cl_Mobile (consensus U ok) = list_ex sr_Mobile ok"
    by (simp_all add: consensus_def flag_fold_flags consensus_asn_def consensus_city_def
        consensus_country_elected_eq location0_def Let_def split_beta)
  ultimately show ?thesis unfolding asn org by blast
qed

end
