(* ===== verification/Consensus_City.thy ===== *)
theory Consensus_City
  imports Consensus
begin

text \<open>
  The city half of \<open>geolocate/consensus.go\<close>. \<open>agreeOnPlace\<close> looks, for every source, only
  at the sources whose tokens are a prefix of its own; the lemmas show that this finds a
  largest set of sources that agree pairwise, which is what the code promises, and the
  theorems state when a consensus is city-confident and what it then stores.
\<close>

subsection \<open>A name with tokens has a display\<close>

lemma fields_from_Nil_iff: "fields_from ps cur = [] \<longleftrightarrow> cur = [] \<and> list_all chunk_space ps"
  if "\<forall>p\<in>set ps. snd p \<noteq> []"
  using that by (induction ps cur rule: fields_from.induct) auto

lemma Fields_eq_Nil: "Fields s = [] \<longleftrightarrow> list_all IsSpace (utf8_decode s)"
  using fields_from_Nil_iff[of "chunks s" "[]"] chunk_nonempty
  by (auto simp: Fields_def utf8_decode_def list.pred_map comp_def chunk_space_def list_all_iff)

lemma Join_eq_Nil: "\<forall>f\<in>set fs. f \<noteq> [] \<Longrightarrow> Join fs sep = [] \<longleftrightarrow> fs = []"
  by (induction fs sep rule: Join.induct) auto

lemma IsSpace_class:
  assumes "unicode_ok U" "IsSpace r"
  shows "\<not> IsMark U r" "\<not> IsLetter U r" "\<not> IsDigit U r" "latinFold r = None"
    "\<not> (97 \<le> r \<and> r \<le> 122)" "\<not> (48 \<le> r \<and> r \<le> 57)"
proof -
  have "\<not> (0xDF \<le> r \<and> r \<le> 0x17F)" using assms(2) by (auto simp: IsSpace_def)
  then show "latinFold r = None" using latinFold_range by (cases "latinFold r") auto
  show "\<not> (97 \<le> r \<and> r \<le> 122)" "\<not> (48 \<le> r \<and> r \<le> 57)"
    using assms(2) by (auto simp: IsSpace_def)
  have "r \<le> 0xFF \<Longrightarrow> \<not> latin1_letter r \<and> \<not> (48 \<le> r \<and> r \<le> 57)"
    using assms(2) by (auto simp: IsSpace_def latin1_letter_def)
  then show "\<not> IsMark U r" "\<not> IsLetter U r" "\<not> IsDigit U r"
    using unicode_ok_space[OF assms(1) _ assms(2)]
    by (auto simp: IsMark_def IsLetter_def IsDigit_def)
qed

lemma fold_rune_space: "unicode_ok U \<Longrightarrow> IsSpace r \<Longrightarrow> fold_rune U r = '' ''"
  using IsSpace_class[of U r] by (auto simp: fold_rune_def)

lemma spaces_decode: "list_all (\<lambda>c. c = CHR '' '') s \<Longrightarrow> list_all IsSpace (utf8_decode s)"
  by (induction s) (auto simp: utf8_decode_def chunks_ascii IsSpace_def)

lemma PlaceDisplay_nonempty:
  assumes "unicode_ok U" "PlaceTokens U s \<noteq> []"
  shows "PlaceDisplay U s \<noteq> []"
proof
  assume "PlaceDisplay U s = []"
  then have "Fields (reduceParentheticals U s) = []"
    using Join_eq_Nil[of "Fields (reduceParentheticals U s)" "'' ''"]
    by (auto simp: PlaceDisplay_def dest: Fields_nonempty)
  then have sp: "\<forall>r\<in>set (utf8_decode (ToLower U (reduceParentheticals U s))). IsSpace r"
    using assms(1) by (auto simp: Fields_eq_Nil utf8_decode_ToLower lower_rune_space list_all_iff)
  define rs where "rs = utf8_decode (ToLower U (reduceParentheticals U s))"
  have "list_all (\<lambda>c. c = CHR '' '') (concat (map (fold_rune U) rs))"
    using sp assms(1) by (auto simp: rs_def fold_rune_space list_all_iff)
  then have "list_all IsSpace (utf8_decode (concat (map (fold_rune U) rs)))"
    using spaces_decode by blast
  then show False using assms(2) by (simp add: PlaceTokens_def rs_def Fields_eq_Nil)
qed

subsection \<open>The groups\<close>

text \<open>A list of sources agrees on a place when every two of them, and each with itself, match.\<close>

definition agreeing :: "unicode \<Rightarrow> (SourceResult \<Rightarrow> string) \<Rightarrow> SourceResult list \<Rightarrow> bool" where
  "agreeing U get g \<longleftrightarrow> list_all (\<lambda>a. list_all (\<lambda>b. PlaceNamesMatch U (get a) (get b)) g) g"

lemma agreeing_iff:
  "agreeing U get g \<longleftrightarrow> (\<forall>a\<in>set g. \<forall>b\<in>set g. PlaceNamesMatch U (get a) (get b))"
  by (simp add: agreeing_def list_all_iff)

lemma place_group_subseq: "subseq (place_group U get ok x) ok"
  by (simp add: place_group_def)

lemma place_group_agreeing: "agreeing U get (place_group U get ok x)"
  using tok.below_pairwise
  by (auto simp: agreeing_iff place_group_def PlaceNamesMatch_def tokensMatch_def)

lemma agreeing_in_place_group:
  assumes "subseq g ok" "agreeing U get g" "g \<noteq> []"
  shows "\<exists>m\<in>set g. PlaceTokens U (get m) \<noteq> [] \<and> subseq g (place_group U get ok m)"
proof -
  define S where "S = (\<lambda>r. PlaceTokens U (get r)) ` set g"
  have "finite S" "S \<noteq> {}" using assms(3) by (auto simp: S_def)
  then obtain t where "t \<in> S" "\<forall>x\<in>S. tokensPrefixOrEqual x t"
    using tok.pairwise_has_top[of S] assms(2)
    by (auto simp: S_def agreeing_iff PlaceNamesMatch_def tokensMatch_def)
  then obtain m where m: "m \<in> set g"
    "\<forall>r\<in>set g. tokensPrefixOrEqual (PlaceTokens U (get r)) (PlaceTokens U (get m))"
    by (auto simp: S_def)
  then have "filter (\<lambda>r. tokensPrefixOrEqual (PlaceTokens U (get r)) (PlaceTokens U (get m))) g = g"
    by (auto simp: filter_id_conv)
  then have "subseq g (place_group U get ok m)"
    using subseq_filter[OF assms(1)] unfolding place_group_def by metis
  moreover have "PlaceTokens U (get m) \<noteq> []"
    using m by (auto simp: tokensPrefixOrEqual_iff)
  ultimately show ?thesis using m(1) by blast
qed

text \<open>The state of the loop after the sources \<open>xs\<close>: a group of \<open>ok\<close>, at least as large as each.\<close>

lemma agree_step_grows: "length (fst st) \<le> length (fst (agree_step U get ok x st))"
  by (auto simp: agree_step_def Let_def split: prod.splits)

lemma agree_step_group:
  "fst (agree_step U get ok x st) = fst st \<or> fst (agree_step U get ok x st) = place_group U get ok x"
  by (auto simp: agree_step_def Let_def split: prod.splits)

lemma agree_step_covers:
  "PlaceTokens U (get x) \<noteq> [] \<Longrightarrow>
    length (place_group U get ok x) \<le> length (fst (agree_step U get ok x st))"
  by (auto simp: agree_step_def Let_def split: prod.splits)

lemma agree_fold_group:
  "fst (fold (agree_step U get ok) xs st) = fst st
    \<or> (\<exists>x\<in>set xs. fst (fold (agree_step U get ok) xs st) = place_group U get ok x)"
proof (induction xs arbitrary: st)
  case (Cons x xs)
  show ?case using Cons.IH[of "agree_step U get ok x st"] agree_step_group[of U get ok x st]
    by (simp only: fold_simps list.set) (elim disjE; simp; blast)
qed simp

lemma agree_fold_largest:
  "length (fst st) \<le> length (fst (fold (agree_step U get ok) xs st))
    \<and> (\<forall>x\<in>set xs. PlaceTokens U (get x) \<noteq> [] \<longrightarrow>
         length (place_group U get ok x) \<le> length (fst (fold (agree_step U get ok) xs st)))"
proof (induction xs arbitrary: st)
  case (Cons x xs)
  show ?case using Cons.IH[of "agree_step U get ok x st"] agree_step_grows[of st U get ok x]
      agree_step_covers[of U get x ok st] by fastforce
qed simp

lemma agreeOnPlace_subseq: "subseq (agreeOnPlace U ok get) ok"
  using agree_fold_group[of U get ok ok "([], 0)"] place_group_subseq
  by (auto simp: agreeOnPlace_def)

lemma agreeOnPlace_set: "set (agreeOnPlace U ok get) \<subseteq> set ok"
  using agreeOnPlace_subseq[of U ok get] by (auto simp: subseq_conv_nths dest: in_set_nthsD)

lemma agreeOnPlace_agreeing: "agreeing U get (agreeOnPlace U ok get)"
  using agree_fold_group[of U get ok ok "([], 0)"] place_group_agreeing
  by (auto simp: agreeOnPlace_def agreeing_iff)

lemma agreeOnPlace_largest:
  assumes "subseq g ok" "agreeing U get g"
  shows "length g \<le> length (agreeOnPlace U ok get)"
proof (cases "g = []")
  case False
  obtain m where "m \<in> set g" "PlaceTokens U (get m) \<noteq> []" "subseq g (place_group U get ok m)"
    using agreeing_in_place_group[OF assms False] by blast
  moreover have "m \<in> set ok" using \<open>m \<in> set g\<close> assms(1) by (auto simp: subseq_conv_nths dest: in_set_nthsD)
  ultimately show ?thesis
    using agree_fold_largest[of "([], 0)" U get ok ok] list_emb_length[of "(=)" g]
    by (fastforce simp: agreeOnPlace_def dest: list_emb_length)
qed simp

subsection \<open>The canonical name of a group\<close>

definition canonical_inv :: "unicode \<Rightarrow> (SourceResult \<Rightarrow> string) \<Rightarrow> SourceResult list
    \<Rightarrow> string \<times> nat \<times> nat \<Rightarrow> bool" where
  "canonical_inv U get rs st \<longleftrightarrow>
    (if fst st = [] then \<forall>r\<in>set rs. PlaceTokens U (get r) = []
     else \<exists>m\<in>set rs. PlaceTokens U (get m) \<noteq> [] \<and> fst st = PlaceDisplay U (get m)
        \<and> fst (snd st) = length (PlaceTokens U (get m))
        \<and> (\<forall>r\<in>set rs. PlaceTokens U (get r) \<noteq> [] \<longrightarrow>
             length (PlaceTokens U (get m)) \<le> length (PlaceTokens U (get r))))"

lemma canonical_step_inv:
  assumes "unicode_ok U" "canonical_inv U get rs st"
  shows "canonical_inv U get (rs @ [r]) (canonical_step U get r st)"
proof -
  obtain best n rank where st: "st = (best, n, rank)" by (cases st) auto
  have d: "PlaceTokens U (get r) \<noteq> [] \<Longrightarrow> PlaceDisplay U (get r) \<noteq> []"
    using PlaceDisplay_nonempty[OF assms(1)] by blast
  consider "PlaceTokens U (get r) = []"
    | "PlaceTokens U (get r) \<noteq> []" "best = []"
    | "PlaceTokens U (get r) \<noteq> []" "best \<noteq> []" by blast
  then show ?thesis
  proof cases
    case 1
    then show ?thesis using assms(2) by (auto simp: st canonical_step_def canonical_inv_def)
  next
    case 2
    then show ?thesis using assms(2) d by (simp add: st canonical_step_def canonical_inv_def)
  next
    case 3
    then obtain m where m: "m \<in> set rs" "PlaceTokens U (get m) \<noteq> []"
      "best = PlaceDisplay U (get m)" "n = length (PlaceTokens U (get m))"
      "\<forall>r\<in>set rs. PlaceTokens U (get r) \<noteq> [] \<longrightarrow> n \<le> length (PlaceTokens U (get r))"
      using assms(2) by (auto simp: st canonical_inv_def)
    show ?thesis
    proof (cases "length (PlaceTokens U (get r)) < n
        \<or> (length (PlaceTokens U (get r)) = n \<and> sourceRank (sr_Name r) < rank)")
      case True
      then show ?thesis using 3 m d by (auto simp: st canonical_step_def canonical_inv_def)
    next
      case False
      then have "canonical_step U get r st = st" "length (PlaceTokens U (get m)) \<le> length (PlaceTokens U (get r))"
        using 3 m(4) by (auto simp: st canonical_step_def)
      then show ?thesis using 3 m by (auto simp: st canonical_inv_def)
    qed
  qed
qed

lemma canonical_fold_inv:
  "unicode_ok U \<Longrightarrow> canonical_inv U get rs (fold (canonical_step U get) rs ([], 0, 0))"
  by (induction rs rule: rev_induct)
    (simp_all add: canonical_step_inv, simp add: canonical_inv_def)

lemma canonicalPlace_empty:
  "unicode_ok U \<Longrightarrow> canonicalPlace U g get = [] \<longleftrightarrow> (\<forall>r\<in>set g. PlaceTokens U (get r) = [])"
  using canonical_fold_inv[of U get g]
  by (auto simp: canonical_inv_def canonicalPlace_def split: if_splits)

lemma shorter_match_prefix:
  "tokensMatch a b \<Longrightarrow> length a \<le> length b \<Longrightarrow> tokensPrefixOrEqual a b"
  unfolding tokensMatch_def tokensPrefixOrEqual_iff
  by (metis le_antisym prefix_length_le prefix_def append_eq_append_conv append_Nil2 length_append add_0_right)

lemma canonicalPlace_shortest:
  assumes "unicode_ok U" "agreeing U get g" "g \<noteq> []"
  shows "\<exists>m\<in>set g. canonicalPlace U g get = PlaceDisplay U (get m)
    \<and> (\<forall>r\<in>set g. tokensPrefixOrEqual (PlaceTokens U (get m)) (PlaceTokens U (get r)))"
proof -
  have ne: "PlaceTokens U (get r) \<noteq> []" if "r \<in> set g" for r
    using assms(2) that
    by (fastforce simp: agreeing_iff PlaceNamesMatch_def tokensMatch_def tokensPrefixOrEqual_iff)
  then have "canonicalPlace U g get \<noteq> []"
    using canonicalPlace_empty[OF assms(1), of g get] assms(3) by (cases g) auto
  then obtain m where m: "m \<in> set g" "canonicalPlace U g get = PlaceDisplay U (get m)"
    "\<forall>r\<in>set g. length (PlaceTokens U (get m)) \<le> length (PlaceTokens U (get r))"
    using canonical_fold_inv[OF assms(1), of get g] ne
    by (auto simp: canonical_inv_def canonicalPlace_def)
  have "tokensPrefixOrEqual (PlaceTokens U (get m)) (PlaceTokens U (get r))" if "r \<in> set g" for r
    using assms(2) m(1,3) that shorter_match_prefix
    by (simp add: agreeing_iff PlaceNamesMatch_def)
  then show ?thesis using m by blast
qed

subsection \<open>The city verdict\<close>

text \<open>
  C27. The group search is exact: \<open>agreeOnPlace\<close> returns sources of the input, in order, every
  two of which name the same place, and no other such selection is larger, although the code
  only compares each source with the others once.
\<close>

theorem agreeOnPlace_exact:
  "subseq (agreeOnPlace U ok get) ok \<and> agreeing U get (agreeOnPlace U ok get)
   \<and> (\<forall>g. subseq g ok \<and> agreeing U get g \<longrightarrow> length g \<le> length (agreeOnPlace U ok get))"
  using agreeOnPlace_subseq agreeOnPlace_agreeing agreeOnPlace_largest by blast

lemma consensus_city_eq:
  "cl_CityConfident (consensus U ok) \<longleftrightarrow> 2 \<le> length (agreeOnPlace U ok sr_City)
     \<and> canonicalPlace U (agreeOnPlace U (agreeOnPlace U ok sr_City) sr_Region) sr_Region \<noteq> []"
  "cl_City (consensus U ok) = (if cl_CityConfident (consensus U ok)
     then canonicalPlace U (agreeOnPlace U ok sr_City) sr_City else [])"
  "cl_Region (consensus U ok) = (if cl_CityConfident (consensus U ok)
     then canonicalPlace U (agreeOnPlace U (agreeOnPlace U ok sr_City) sr_Region) sr_Region else [])"
  by (auto simp: consensus_def consensus_city_def Let_def)

text \<open>
  C28. A city-confident consensus rests on at least two sources that all name the same city; it
  stores the shortest of their names and a region that one of these same sources reported,
  both non-empty; a consensus that is not city-confident stores neither.
\<close>

theorem consensus_city_sound:
  assumes "unicode_ok U"
  shows "if cl_CityConfident (consensus U ok)
    then \<exists>g. subseq g ok \<and> 2 \<le> length g \<and> agreeing U sr_City g
      \<and> (\<exists>m\<in>set g. cl_City (consensus U ok) = PlaceDisplay U (sr_City m)
            \<and> (\<forall>r\<in>set g. tokensPrefixOrEqual (PlaceTokens U (sr_City m)) (PlaceTokens U (sr_City r))))
      \<and> (\<exists>m\<in>set g. cl_Region (consensus U ok) = PlaceDisplay U (sr_Region m))
      \<and> cl_City (consensus U ok) \<noteq> [] \<and> cl_Region (consensus U ok) \<noteq> []
    else cl_City (consensus U ok) = [] \<and> cl_Region (consensus U ok) = []"
proof (cases "cl_CityConfident (consensus U ok)")
  case True
  define g where "g = agreeOnPlace U ok sr_City"
  define h where "h = agreeOnPlace U g sr_Region"
  have g: "subseq g ok" "agreeing U sr_City g" "2 \<le> length g" "g \<noteq> []"
    using True agreeOnPlace_subseq agreeOnPlace_agreeing by (auto simp: g_def consensus_city_eq)
  have reg: "cl_Region (consensus U ok) = canonicalPlace U h sr_Region" "canonicalPlace U h sr_Region \<noteq> []"
    using True by (auto simp: consensus_city_eq g_def h_def)
  then have "h \<noteq> []" by (auto simp: canonicalPlace_def)
  then obtain m where m: "m \<in> set h" "canonicalPlace U h sr_Region = PlaceDisplay U (sr_Region m)"
    using canonicalPlace_shortest[OF assms, of sr_Region h] agreeOnPlace_agreeing unfolding h_def by blast
  have "m \<in> set g" using m(1) agreeOnPlace_set by (auto simp: h_def)
  moreover have "cl_City (consensus U ok) = canonicalPlace U g sr_City"
    using True by (simp add: consensus_city_eq g_def)
  moreover obtain k where k: "k \<in> set g" "canonicalPlace U g sr_City = PlaceDisplay U (sr_City k)"
    "\<forall>r\<in>set g. tokensPrefixOrEqual (PlaceTokens U (sr_City k)) (PlaceTokens U (sr_City r))"
    using canonicalPlace_shortest[OF assms g(2,4)] by blast
  moreover have "PlaceDisplay U (sr_City k) \<noteq> []"
    using k by (intro PlaceDisplay_nonempty[OF assms]) (auto simp: tokensPrefixOrEqual_iff)
  ultimately show ?thesis using True g reg m(2) by auto
qed (simp add: consensus_city_eq(2,3))

lemma region_found:
  assumes "unicode_ok U" and "a \<noteq> []" and "\<forall>r\<in>set a. PlaceTokens U (sr_Region r) \<noteq> []"
  shows "canonicalPlace U (agreeOnPlace U a sr_Region) sr_Region \<noteq> []"
proof -
  obtain r where r: "r \<in> set a" using assms(2) by (cases a) auto
  have "subseq [r] a" using r by (simp add: subseq_singleton_left)
  moreover have "agreeing U sr_Region [r]"
    using assms(3) r by (auto simp: agreeing_def PlaceNamesMatch_def tokensMatch_refl)
  ultimately have "1 \<le> length (agreeOnPlace U a sr_Region)"
    using agreeOnPlace_largest[of "[r]" a U sr_Region] by simp
  then obtain q where "q \<in> set (agreeOnPlace U a sr_Region)"
    by (cases "agreeOnPlace U a sr_Region") auto
  then show ?thesis
    using agreeOnPlace_set[of U a sr_Region] canonicalPlace_empty[OF assms(1)] assms(3) by blast
qed

text \<open>
  Agreement is never missed: when some two or more of the sources name the same city and
  every source reports a region, the consensus is city-confident.
\<close>

theorem consensus_city_complete:
  assumes "unicode_ok U" and "subseq g ok" and "2 \<le> length g" and "agreeing U sr_City g"
    and "\<forall>r\<in>set ok. PlaceTokens U (sr_Region r) \<noteq> []"
  shows "cl_CityConfident (consensus U ok)"
proof -
  have "2 \<le> length (agreeOnPlace U ok sr_City)"
    using agreeOnPlace_largest[OF assms(2,4)] assms(3) by simp
  then show ?thesis
    using agreeOnPlace_set region_found[OF assms(1), of "agreeOnPlace U ok sr_City"] assms(5)
    by (fastforce simp: consensus_city_eq(1))
qed

subsection \<open>Concrete sources\<close>

text \<open>Two sources that spell the same city differently, and a third that names another.\<close>

definition sample_sources :: "SourceResult list" where
  "sample_sources = [
    \<lparr> sr_Name = ''ip.pn'', sr_OK = True, sr_Err = [], sr_CountryCode = ''DE'',
      sr_Country = ''Germany'', sr_City = ''Frankfurt am Main'', sr_Region = ''Hesse'', sr_ASN = 3320,
      sr_Org = [], sr_Hosting = False, sr_Proxy = False, sr_Mobile = False \<rparr>,
    \<lparr> sr_Name = ''freeipapi'', sr_OK = True, sr_Err = [], sr_CountryCode = ''de'',
      sr_Country = ''Deutschland'', sr_City = ''Frankfurt'', sr_Region = ''Hesse'', sr_ASN = 3320,
      sr_Org = [], sr_Hosting = False, sr_Proxy = True, sr_Mobile = False \<rparr>,
    \<lparr> sr_Name = ''ipinfo'', sr_OK = True, sr_Err = [], sr_CountryCode = ''AT'',
      sr_Country = [], sr_City = ''Wien'', sr_Region = ''Wien'', sr_ASN = 0,
      sr_Org = [], sr_Hosting = False, sr_Proxy = False, sr_Mobile = True \<rparr>]"

lemmas sample_eval = sample_sources_def agreeing_def PlaceNamesMatch_def tokensMatch_def
  tokensPrefixOrEqual_iff normalizeCountry_def TrimSpace_def country_votes_def place_eval

lemma sample_agreeing: "agreeing latin_unicode sr_City (take 2 sample_sources)"
  by (simp add: sample_eval)

lemma sample_votes: "country_votes latin_unicode sample_sources ''de'' = 2"
  by (simp add: sample_eval)

lemma sample_pair: "subseq (take 2 sample_sources) sample_sources" "length (take 2 sample_sources) = 2"
  by (simp_all add: sample_sources_def)

lemma sample_other_votes: "d \<noteq> ''de'' \<Longrightarrow> country_votes latin_unicode sample_sources d < 2"
  by (simp add: sample_eval)

lemma sample_regions: "\<forall>r\<in>set sample_sources. PlaceTokens latin_unicode (sr_Region r) \<noteq> []"
  by (simp add: sample_eval)

lemma Germany_named: "countryNameForCode latin_unicode ''de'' = ''Germany''"
proof -
  have "(''DE'', ''Germany'') \<in> set isoCountryNames_A_J" by (simp add: isoCountryNames_A_J_def)
  then have "map_of isoCountryNames ''DE'' = Some ''Germany''"
    by (intro iso_entry) (simp add: isoCountryNames_def)
  then show ?thesis by (simp add: countryNameForCode_def ToUpper_def TrimSpace_def plain_eval)
qed

lemma sample_elected: "en_code (elected latin_unicode sample_sources) = ''de''"
  "en_votes (elected latin_unicode sample_sources) = 2"
  using elected_if[of "''de''" latin_unicode sample_sources] sample_votes sample_other_votes
  by (auto simp: MinSources_def isAlpha2_iff in_rng_def)

lemma sample_confident: "cl_CountryConfident (consensus latin_unicode sample_sources)"
  using sample_elected elected_name_iso[of latin_unicode sample_sources] Germany_named
  by (simp add: consensus_def consensus_country_elected_eq MinSources_def isAlpha2_iff in_rng_def)

theorem consensus_country_sound_witness:
  "cl_Country (consensus latin_unicode sample_sources) \<noteq> []"
  using consensus_country_sound[OF latin_unicode_ok sample_confident] by blast

theorem consensus_country_complete_witness:
  "cl_CountryCode (consensus latin_unicode sample_sources) = ''de''"
  using consensus_country_complete[of "''de''" latin_unicode sample_sources]
    sample_votes sample_other_votes Germany_named
  by (simp add: MinSources_def isAlpha2_iff in_rng_def)

theorem consensus_country_degrades_witness:
  "\<not> cl_CountryConfident (consensus latin_unicode (drop 1 sample_sources))
   \<and> cl_CountryCode (consensus latin_unicode (drop 1 sample_sources)) = []"
proof -
  have "country_votes latin_unicode (drop 1 sample_sources) c < MinSources" for c
    by (auto simp add: sample_eval MinSources_def)
  then show ?thesis using consensus_country_degrades[of latin_unicode "drop 1 sample_sources"] by blast
qed

theorem agreeOnPlace_exact_witness:
  "2 \<le> length (agreeOnPlace latin_unicode sample_sources sr_City)"
  using conjunct2[OF conjunct2[OF agreeOnPlace_exact], rule_format, OF conjI, OF sample_pair(1) sample_agreeing]
  by (simp only: sample_pair(2))

lemma sample_city_confident: "cl_CityConfident (consensus latin_unicode sample_sources)"
proof -
  have "2 \<le> length (agreeOnPlace latin_unicode sample_sources sr_City)"
    using agreeOnPlace_largest[OF sample_pair(1) sample_agreeing] by (simp only: sample_pair(2))
  then show ?thesis
    using agreeOnPlace_set region_found[OF latin_unicode_ok, of "agreeOnPlace latin_unicode sample_sources sr_City"]
      sample_regions
    by (fastforce simp: consensus_city_eq(1))
qed

theorem consensus_city_sound_witness:
  "cl_City (consensus latin_unicode sample_sources) \<noteq> []
   \<and> (\<exists>m\<in>set sample_sources. cl_Region (consensus latin_unicode sample_sources) = PlaceDisplay latin_unicode (sr_Region m))"
  using consensus_city_sound[OF latin_unicode_ok, of sample_sources] sample_city_confident
  by (simp only: if_True) (metis in_set_nthsD subseq_conv_nths)

theorem consensus_city_complete_witness:
  "cl_CityConfident (consensus latin_unicode sample_sources)"
  using consensus_city_complete[OF latin_unicode_ok sample_pair(1) _ sample_agreeing sample_regions]
  by (simp only: sample_pair(2) order_refl)


lemma sample_reversed: "mset sample_sources = mset (rev sample_sources)"
  by simp

theorem consensus_country_order_witness:
  "cl_CountryCode (consensus latin_unicode sample_sources)
    = cl_CountryCode (consensus latin_unicode (rev sample_sources))"
  using consensus_country_order[OF sample_reversed] by blast

theorem consensus_asn_flags_witness:
  "asn_votes sample_sources 3320 \<le> asn_votes sample_sources (cl_ASN (consensus latin_unicode sample_sources))"
  using conjunct1[OF conjunct2[OF consensus_asn_flags[of latin_unicode sample_sources]], rule_format, of 3320]
  by auto

end
