(* ===== verification/Go_Net.thy ===== *)
theory Go_Net
  imports Go_Text
begin

text \<open>
  The parts of Go's \<open>net\<close>, \<open>net/http\<close> and \<open>io\<close> that the program calls: host:port strings, the
  validity of an IP literal, requests and responses, and a body read through an
  \<open>io.LimitReader\<close>. The lemmas show that \<open>SplitHostPort\<close> undoes \<open>JoinHostPort\<close> and that a
  limited read is bounded.
\<close>

subsection \<open>host:port\<close>

abbreviation (input) colon :: char where "colon \<equiv> CHR '':''"
abbreviation (input) lbrack :: char where "lbrack \<equiv> CHR ''[''"
abbreviation (input) rbrack :: char where "rbrack \<equiv> CHR '']''"

text \<open>The string up to and after the last occurrence of a byte, if there is one.\<close>

fun cut_last :: "char \<Rightarrow> string \<Rightarrow> (string \<times> string) option" where
  "cut_last c [] = None"
| "cut_last c (x # xs) =
    (case cut_last c xs of
       Some (a, b) \<Rightarrow> Some (x # a, b)
     | None \<Rightarrow> if x = c then Some ([], xs) else None)"

text \<open>\<open>net.SplitHostPort\<close>; every error of it is \<open>None\<close>, which is all its callers test.\<close>

definition SplitHostPort :: "string \<Rightarrow> (string \<times> string) option" where
  "SplitHostPort s =
    (case cut_last colon s of
       None \<Rightarrow> None
     | Some (pre, port) \<Rightarrow>
         if hd s = lbrack then
           (case cut_at rbrack (tl s) of
              (host, None) \<Rightarrow> None
            | (host, Some rest) \<Rightarrow>
                if rest = [] \<or> rest \<noteq> colon # port then None
                else if lbrack \<in> set (tl s) \<or> rbrack \<in> set rest then None
                else Some (host, port))
         else if colon \<in> set pre then None
         else if lbrack \<in> set s \<or> rbrack \<in> set s then None
         else Some (pre, port))"

definition JoinHostPort :: "string \<Rightarrow> string \<Rightarrow> string" where
  "JoinHostPort host port =
    (if colon \<in> set host then lbrack # host @ [rbrack, colon] @ port else host @ colon # port)"

lemma cut_last_append: "c \<notin> set ys \<Longrightarrow> cut_last c (xs @ c # ys) = Some (xs, ys)"
proof (induction xs)
  case Nil
  have "cut_last c ys = None" using Nil by (induction ys) auto
  then show ?case by simp
qed simp

lemma cut_last_None: "cut_last c s = None \<longleftrightarrow> c \<notin> set s"
  by (induction s) (auto split: option.split)

lemma cut_last_Some: "cut_last c s = Some (a, b) \<Longrightarrow> s = a @ c # b \<and> c \<notin> set b"
proof (induction s arbitrary: a)
  case (Cons x xs)
  then show ?case by (auto split: option.splits if_splits simp: cut_last_None)
qed simp

lemma cut_at_append: "c \<notin> set xs \<Longrightarrow> cut_at c (xs @ c # ys) = (xs, Some ys)"
  by (induction xs) auto

lemma cut_at_None: "c \<notin> set xs \<Longrightarrow> cut_at c xs = (xs, None)"
  by (induction xs) auto

lemma cut_at_Some: "cut_at c s = (a, Some b) \<Longrightarrow> s = a @ c # b \<and> c \<notin> set a"
  by (induction s arbitrary: a) (auto split: if_splits prod.splits)

definition host_bytes :: "string \<Rightarrow> bool" where
  "host_bytes h \<longleftrightarrow> lbrack \<notin> set h \<and> rbrack \<notin> set h"

definition port_bytes :: "string \<Rightarrow> bool" where
  "port_bytes p \<longleftrightarrow> colon \<notin> set p \<and> lbrack \<notin> set p \<and> rbrack \<notin> set p"

lemma SplitHostPort_Join:
  assumes "host_bytes h" "port_bytes p"
  shows "SplitHostPort (JoinHostPort h p) = Some (h, p)"
proof (cases "colon \<in> set h")
  case True
  have "cut_last colon (lbrack # h @ rbrack # colon # p) = Some (lbrack # h @ [rbrack], p)"
    using cut_last_append[of colon p "lbrack # h @ [rbrack]"] assms by (simp add: port_bytes_def)
  moreover have "cut_at rbrack (h @ rbrack # colon # p) = (h, Some (colon # p))"
    using assms by (intro cut_at_append) (simp add: host_bytes_def)
  ultimately show ?thesis using True assms
    by (simp add: SplitHostPort_def JoinHostPort_def host_bytes_def port_bytes_def)
next
  case False
  have "cut_last colon (h @ colon # p) = Some (h, p)"
    using assms by (intro cut_last_append) (simp add: port_bytes_def)
  moreover have "hd (h @ colon # p) \<noteq> lbrack"
    using assms by (cases h) (auto simp: host_bytes_def)
  ultimately show ?thesis using False assms
    by (simp add: SplitHostPort_def JoinHostPort_def host_bytes_def port_bytes_def)
qed

lemma SplitHostPort_parts:
  assumes "SplitHostPort s = Some (h, p)"
  shows "host_bytes h \<and> colon \<notin> set p \<and> (s = JoinHostPort h p \<or> s = lbrack # h @ rbrack # colon # p)"
proof -
  obtain b where b: "cut_last colon s = Some (b, p)"
    using assms by (auto simp: SplitHostPort_def split: option.splits if_splits prod.splits)
  then have s: "s = b @ colon # p" "colon \<notin> set p" using cut_last_Some by blast+
  show ?thesis
  proof (cases "hd s = lbrack")
    case True
    then have "cut_at rbrack (tl s) = (h, Some (colon # p))" "lbrack \<notin> set (tl s)"
      using assms b by (auto simp: SplitHostPort_def split: prod.splits option.splits if_splits)
    then have "tl s = h @ rbrack # colon # p" "rbrack \<notin> set h" "lbrack \<notin> set h"
      using cut_at_Some by fastforce+
    moreover have "s \<noteq> []" using s(1) by simp
    then have "s = lbrack # tl s" using True by (metis list.collapse)
    ultimately show ?thesis using s(2) by (simp add: host_bytes_def)
  next
    case False
    then show ?thesis using assms b s
      by (auto simp: SplitHostPort_def JoinHostPort_def host_bytes_def split: if_splits)
  qed
qed

subsection \<open>IP literals\<close>

text \<open>\<open>net.ParseIP(s) != nil\<close>. An IPv4 literal is four decimal fields without leading zeros.\<close>

fun ipv4_fields :: "nat \<Rightarrow> nat \<Rightarrow> nat \<Rightarrow> string \<Rightarrow> bool" where
  "ipv4_fields nf ln val [] = (nf = 3 \<and> 0 < ln)"
| "ipv4_fields nf ln val (c # cs) =
    (if in_rng 48 57 c then
       (if ln = 1 \<and> val = 0 then False
        else if 255 < val * 10 + (of_char c - 48) then False
        else ipv4_fields nf (ln + 1) (val * 10 + (of_char c - 48)) cs)
     else if c = CHR ''.'' then
       (if ln = 0 \<or> cs = [] \<or> nf = 3 then False else ipv4_fields (nf + 1) 0 0 cs)
     else False)"

definition is_ipv4 :: "string \<Rightarrow> bool" where
  "is_ipv4 s = ipv4_fields 0 0 0 s"

definition is_hex :: "char \<Rightarrow> bool" where
  "is_hex c \<longleftrightarrow> in_rng 48 57 c \<or> in_rng 97 102 c \<or> in_rng 65 70 c"

definition unhex :: "char \<Rightarrow> nat" where
  "unhex c = (if in_rng 48 57 c then of_char c - 48
     else if in_rng 97 102 c then of_char c - 87 else of_char c - 55)"

text \<open>
  The loop of \<open>netip.parseIPv6\<close>: \<open>i\<close> counts the bytes filled, \<open>ell\<close> is whether \<open>::\<close> was
  seen. One group is taken per round, so eight rounds suffice.
\<close>

fun ipv6_groups :: "nat \<Rightarrow> nat \<Rightarrow> bool \<Rightarrow> string \<Rightarrow> bool" where
  "ipv6_groups 0 i ell s = False"
| "ipv6_groups (Suc n) i ell s =
    (let g = takeWhile is_hex s; rest = dropWhile is_hex s in
     if 4 < length g \<or> g = [] then False
     else if rest \<noteq> [] \<and> hd rest = CHR ''.'' then
       (if \<not> ell \<and> i \<noteq> 12 then False
        else if 16 < i + 4 then False
        else is_ipv4 s \<and> (if i + 4 < 16 then ell else \<not> ell))
     else if rest = [] then (if i + 2 < 16 then ell else \<not> ell)
     else if hd rest \<noteq> colon \<or> tl rest = [] then False
     else if hd (tl rest) = colon then
       (if ell then False
        else if tl (tl rest) = [] then i + 2 < 16
        else ipv6_groups n (i + 2) True (tl (tl rest)))
     else ipv6_groups n (i + 2) ell (tl rest))"

definition is_ipv6 :: "string \<Rightarrow> bool" where
  "is_ipv6 s =
    (if CHR ''%'' \<in> set s then False
     else if take 2 s = [colon, colon]
     then (drop 2 s = [] \<or> ipv6_groups 8 0 True (drop 2 s))
     else ipv6_groups 8 0 False s)"

text \<open>The first byte among \<open>.\<close>, \<open>:\<close> and \<open>%\<close> decides which syntax applies.\<close>

fun ParseIP_ok :: "string \<Rightarrow> string \<Rightarrow> bool" where
  "ParseIP_ok s [] = False"
| "ParseIP_ok s (c # cs) =
    (if c = CHR ''.'' then is_ipv4 s
     else if c = colon then is_ipv6 s
     else if c = CHR ''%'' then False
     else ParseIP_ok s cs)"

definition ParseIP :: "string \<Rightarrow> bool" where
  "ParseIP s = ParseIP_ok s s"

subsection \<open>Limited reads\<close>

text \<open>
  A response body is the bytes it delivers and the error, if any, that ends it instead of EOF.
  \<open>io.ReadAll(io.LimitReader(body, n))\<close> takes at most \<open>n\<close> bytes, and meets the error only when
  the bytes before it do not already fill the limit.
\<close>

record body =
  bd_data :: string
  bd_err :: "string option"

definition read_limited :: "nat \<Rightarrow> body \<Rightarrow> string + string" where
  "read_limited n b =
    (if n \<le> length (bd_data b) then Inr (take n (bd_data b))
     else (case bd_err b of Some e \<Rightarrow> Inl e | None \<Rightarrow> Inr (bd_data b)))"

lemma read_limited_bound: "read_limited n b = Inr s \<Longrightarrow> length s \<le> n \<and> prefix s (bd_data b)"
  by (auto simp: read_limited_def take_is_prefix split: if_splits option.splits)

text \<open>HTTP requests and responses as the program sees them.\<close>

record http_request =
  rq_Method :: string
  rq_URL :: string
  rq_Header :: "(string \<times> string) list"
  rq_Body :: "string option"

definition GET :: "string \<Rightarrow> (string \<times> string) list \<Rightarrow> http_request" where
  "GET url headers = \<lparr> rq_Method = ''GET'', rq_URL = url, rq_Header = headers, rq_Body = None \<rparr>"

record http_response =
  hr_StatusCode :: int
  hr_Header :: "string \<rightharpoonup> string"
  hr_Body :: body

text \<open>An HTTP client: what \<open>Do\<close> returns within a deadline.\<close>

record http_client =
  do_request :: "duration \<Rightarrow> http_request \<Rightarrow> string + http_response"

end
