(* ===== verification/Go_Url.thy ===== *)
theory Go_Url
  imports Go_Net
begin

text \<open>
  Go's \<open>net/url\<close> as the program uses it: \<open>Parse\<close>, \<open>Hostname\<close>, \<open>Port\<close>, \<open>Query\<close>,
  \<open>Values.Set\<close>, \<open>Values.Encode\<close> and \<open>URL.String\<close>, on byte strings, and the address that
  \<open>net/http\<close> dials for a URL. \<open>None\<close> is an error; its text is a parameter of the components
  that report it. The lemmas show that \<open>ParseQuery\<close> undoes \<open>Encode\<close>, and what parsing and
  sizing does to the plain URLs (a web scheme, a host name, an optional port, an unescaped path)
  that the tables of the program and its flags hold.
\<close>

subsection \<open>Percent-encoding\<close>

datatype encoding = encodePath | encodeUserPassword | encodeHost | encodeZone
  | encodeQueryComponent | encodeFragment

definition alphanumeric :: "char \<Rightarrow> bool" where
  "alphanumeric c \<longleftrightarrow> in_rng 97 122 c \<or> in_rng 65 90 c \<or> in_rng 48 57 c"

definition host_mode :: "encoding \<Rightarrow> bool" where
  "host_mode mode \<longleftrightarrow> mode = encodeHost \<or> mode = encodeZone"

definition shouldEscape :: "encoding \<Rightarrow> char \<Rightarrow> bool" where
  "shouldEscape mode c =
    (if alphanumeric c then False
     else if host_mode mode \<and> (c \<in> set ''!$&()*+,;=:[]<>'' \<or> c = CHR 0x22 \<or> c = CHR 0x27) then False
     else if c \<in> set ''-_.~'' then False
     else if c \<in> set ''$&+,/:;=?@'' then
       (case mode of
          encodePath \<Rightarrow> c = CHR ''?''
        | encodeUserPassword \<Rightarrow> c \<in> set ''@/?:''
        | encodeFragment \<Rightarrow> False
        | _ \<Rightarrow> True)
     else if mode = encodeFragment \<and> c \<in> set ''!()*'' then False
     else True)"

definition upperhex :: "nat \<Rightarrow> char" where
  "upperhex n = (if n < 10 then char_of (48 + n) else char_of (55 + n))"

text \<open>Which escapes a host may hold: non-ASCII bytes, \<open>%25\<close>, and in a zone what a host may hold.\<close>

definition escape_ok :: "encoding \<Rightarrow> char \<Rightarrow> char \<Rightarrow> bool" where
  "escape_ok mode h l =
    (if mode = encodeHost then 8 \<le> unhex h \<or> (h = CHR ''2'' \<and> l = CHR ''5'')
     else if mode = encodeZone then
       (h = CHR ''2'' \<and> l = CHR ''5'') \<or> char_of (unhex h * 16 + unhex l) = CHR '' ''
         \<or> \<not> shouldEscape encodeHost (char_of (unhex h * 16 + unhex l))
     else True)"

fun unescape :: "encoding \<Rightarrow> string \<Rightarrow> string option" where
  "unescape mode [] = Some []"
| "unescape mode (c # cs) =
    (if c = CHR ''%'' then
       (case cs of
          h # l # rest \<Rightarrow>
            if is_hex h \<and> is_hex l \<and> escape_ok mode h l
            then map_option (Cons (char_of (unhex h * 16 + unhex l))) (unescape mode rest) else None
        | _ \<Rightarrow> None)
     else if c = CHR ''+'' then
       map_option (Cons (if mode = encodeQueryComponent then CHR '' '' else c)) (unescape mode cs)
     else if host_mode mode \<and> of_char c < (0x80 :: nat) \<and> shouldEscape mode c then None
     else map_option (Cons c) (unescape mode cs))"

definition escape_char :: "encoding \<Rightarrow> char \<Rightarrow> string" where
  "escape_char mode c =
    (if c = CHR '' '' \<and> mode = encodeQueryComponent then ''+''
     else if shouldEscape mode c then [CHR ''%'', upperhex (of_char c div 16), upperhex (of_char c mod 16)]
     else [c])"

definition escape :: "encoding \<Rightarrow> string \<Rightarrow> string" where
  "escape mode s = concat (map (escape_char mode) s)"

definition validEncoded :: "encoding \<Rightarrow> string \<Rightarrow> bool" where
  "validEncoded mode s = list_all (\<lambda>c. c \<in> set ''!$&()*+,;=:@[]%'' \<or> c = CHR 0x27 \<or> \<not> shouldEscape mode c) s"

subsection \<open>Parsing\<close>

record URL =
  u_Scheme :: string
  u_Opaque :: string
  u_User :: "(string \<times> string option) option"
  u_Host :: string
  u_Path :: string
  u_RawPath :: string
  u_OmitHost :: bool
  u_ForceQuery :: bool
  u_RawQuery :: string
  u_Fragment :: string
  u_RawFragment :: string

definition URL0 :: URL where
  "URL0 = \<lparr> u_Scheme = [], u_Opaque = [], u_User = None, u_Host = [], u_Path = [], u_RawPath = [],
     u_OmitHost = False, u_ForceQuery = False, u_RawQuery = [], u_Fragment = [], u_RawFragment = [] \<rparr>"

definition lower_char :: "char \<Rightarrow> char" where
  "lower_char c = (if in_rng 65 90 c then char_of (of_char c + 32 :: nat) else c)"

text \<open>The scheme read so far is \<open>acc\<close>; a scheme may not be empty.\<close>

fun scheme_from :: "string \<Rightarrow> string \<Rightarrow> string \<Rightarrow> (string \<times> string) option" where
  "scheme_from raw acc [] = Some ([], raw)"
| "scheme_from raw acc (c # cs) =
    (if in_rng 97 122 c \<or> in_rng 65 90 c then scheme_from raw (acc @ [c]) cs
     else if in_rng 48 57 c \<or> c \<in> set ''+-.'' then
       (if acc = [] then Some ([], raw) else scheme_from raw (acc @ [c]) cs)
     else if c = colon then (if acc = [] then None else Some (acc, cs))
     else Some ([], raw))"

definition getScheme :: "string \<Rightarrow> (string \<times> string) option" where
  "getScheme raw = scheme_from raw [] raw"

definition validOptionalPort :: "string \<Rightarrow> bool" where
  "validOptionalPort port = (port = [] \<or> (hd port = colon \<and> list_all is_digit_char (tl port)))"

text \<open>What follows the last occurrence of a byte, with that byte; \<open>splitHostPort\<close> of \<open>net/url\<close>.\<close>

definition splitHostPort :: "string \<Rightarrow> string \<times> string" where
  "splitHostPort hostPort =
    (let (host, port) = (case cut_last colon hostPort of
           Some (h, p) \<Rightarrow> if validOptionalPort (colon # p) then (h, p) else (hostPort, [])
         | None \<Rightarrow> (hostPort, []))
     in (if host \<noteq> [] \<and> hd host = lbrack \<and> last host = rbrack then butlast (tl host) else host, port))"

text \<open>\<open>strings.Cut(s, "%25")\<close>: what comes before the first \<open>%25\<close> and the rest from there on.\<close>

fun cut_zone :: "string \<Rightarrow> string \<times> string" where
  "cut_zone [] = ([], [])"
| "cut_zone (c # cs) =
    (if take 3 (c # cs) = ''%25'' then ([], c # cs) else (let (a, b) = cut_zone cs in (c # a, b)))"

definition bracketed :: "string \<Rightarrow> string option" where
  "bracketed name =
    (let (addr, zone) = cut_zone name in
     case (unescape encodeHost addr, unescape encodeZone zone) of
       (Some a, Some z) \<Rightarrow>
         (case cut_at (CHR ''%'') (a @ z) of
            (ip, z0) \<Rightarrow> if is_ipv6 ip \<and> z0 \<noteq> Some [] then Some (a @ z) else None)
     | _ \<Rightarrow> None)"

text \<open>
  \<open>parseHost\<close>: an IPv6 literal in brackets with an optional port, or a name with one; more
  than one colon in the name is refused for the web schemes.
\<close>

definition web_scheme :: "string \<Rightarrow> bool" where
  "web_scheme s \<longleftrightarrow> s = ''http'' \<or> s = ''https''"

definition parseHost :: "string \<Rightarrow> string \<Rightarrow> string option" where
  "parseHost scheme host =
    (if lbrack \<in> set host then
       (if hd host \<noteq> lbrack \<or> lbrack \<in> set (tl host) then None
        else (case cut_last rbrack (tl host) of
            None \<Rightarrow> None
          | Some (name, port) \<Rightarrow>
              if \<not> validOptionalPort port then None
              else map_option (\<lambda>h. lbrack # h @ rbrack # port) (bracketed name)))
     else (case cut_last colon host of
         None \<Rightarrow> unescape encodeHost host
       | Some (name, port) \<Rightarrow>
           if colon \<in> set name \<and> web_scheme scheme then None
           else if \<not> validOptionalPort (colon # port) then None
           else unescape encodeHost host))"

definition validUserinfo :: "string \<Rightarrow> bool" where
  "validUserinfo s = list_all (\<lambda>c. alphanumeric c \<or> c \<in> set ''-._:~!$&()*+,;=%@'' \<or> c = CHR 0x27) s"

definition parseUser :: "string \<Rightarrow> (string \<times> string option) option" where
  "parseUser userinfo =
    (if \<not> validUserinfo userinfo then None
     else (case cut_at colon userinfo of
         (name, None) \<Rightarrow> map_option (\<lambda>n. (n, None)) (unescape encodeUserPassword name)
       | (name, Some pass) \<Rightarrow>
           (case (unescape encodeUserPassword name, unescape encodeUserPassword pass) of
              (Some n, Some p) \<Rightarrow> Some (n, Some p)
            | _ \<Rightarrow> None)))"

definition parseAuthority :: "string \<Rightarrow> string \<Rightarrow> ((string \<times> string option) option \<times> string) option" where
  "parseAuthority scheme authority =
    (case cut_last (CHR ''@'') authority of
       None \<Rightarrow> map_option (\<lambda>h. (None, h)) (parseHost scheme authority)
     | Some (userinfo, host) \<Rightarrow>
         (case parseHost scheme host of
            None \<Rightarrow> None
          | Some h \<Rightarrow> map_option (\<lambda>u. (Some u, h)) (parseUser userinfo)))"

definition setPath :: "string \<Rightarrow> URL \<Rightarrow> URL option" where
  "setPath p u = map_option (\<lambda>path. u\<lparr> u_Path := path, u_RawPath := (if p = escape encodePath path then [] else p) \<rparr>)
     (unescape encodePath p)"

definition setFragment :: "string \<Rightarrow> URL \<Rightarrow> URL option" where
  "setFragment f u = map_option (\<lambda>frag. u\<lparr> u_Fragment := frag,
       u_RawFragment := (if f = escape encodeFragment frag then [] else f) \<rparr>) (unescape encodeFragment f)"

definition cut_text :: "char \<Rightarrow> string \<Rightarrow> string \<times> string" where
  "cut_text c s = (case cut_at c s of (a, b) \<Rightarrow> (a, case b of None \<Rightarrow> [] | Some r \<Rightarrow> r))"

definition cut_query :: "string \<Rightarrow> bool \<times> string \<times> string" where
  "cut_query rest =
    (if rest \<noteq> [] \<and> last rest = CHR ''?'' \<and> CHR ''?'' \<notin> set (butlast rest) then (True, butlast rest, [])
     else (False, cut_text (CHR ''?'') rest))"

definition parseRest :: "URL \<Rightarrow> string \<Rightarrow> URL option" where
  "parseRest u rest =
    (if rest = [] \<or> hd rest \<noteq> CHR ''/'' then
       (if u_Scheme u \<noteq> [] then Some (u\<lparr> u_Opaque := rest \<rparr>)
        else if colon \<in> set (fst (cut_at (CHR ''/'') rest)) then None
        else setPath rest u)
     else if (u_Scheme u \<noteq> [] \<or> take 3 rest \<noteq> ''///'') \<and> take 2 rest = ''//'' then
       (let (authority, path) = (case cut_at (CHR ''/'') (drop 2 rest) of
              (a, None) \<Rightarrow> (a, []) | (a, Some p) \<Rightarrow> (a, CHR ''/'' # p))
        in (case parseAuthority (u_Scheme u) authority of
            None \<Rightarrow> None
          | Some (user, host) \<Rightarrow> setPath path (u\<lparr> u_User := user, u_Host := host \<rparr>)))
     else setPath rest (u\<lparr> u_OmitHost := (u_Scheme u \<noteq> []) \<rparr>))"

definition parse :: "string \<Rightarrow> URL option" where
  "parse raw =
    (if list_ex (\<lambda>c. of_char c < (0x20 :: nat) \<or> of_char c = (0x7F :: nat)) raw then None
     else if raw = ''*'' then Some (URL0\<lparr> u_Path := ''*'' \<rparr>)
     else (case getScheme raw of
         None \<Rightarrow> None
       | Some (scheme, rest0) \<Rightarrow>
           (let (force, rest, query) = cut_query rest0
            in parseRest (URL0\<lparr> u_Scheme := map lower_char scheme, u_ForceQuery := force, u_RawQuery := query \<rparr>) rest)))"

definition Parse :: "string \<Rightarrow> URL option" where
  "Parse raw =
    (let (u, frag) = cut_text (CHR ''#'') raw in
     case parse u of
       None \<Rightarrow> None
     | Some url \<Rightarrow> if frag = [] then Some url else setFragment frag url)"

definition Hostname :: "URL \<Rightarrow> string" where
  "Hostname u = fst (splitHostPort (u_Host u))"

definition Port :: "URL \<Rightarrow> string" where
  "Port u = snd (splitHostPort (u_Host u))"

text \<open>\<open>url.Parse\<close> followed by \<open>Hostname()\<close>, as the loops over URL tables call them.\<close>

definition hostname :: "string \<Rightarrow> string option" where
  "hostname raw = map_option Hostname (Parse raw)"

subsection \<open>Queries\<close>

text \<open>\<open>url.Values\<close>: the values of a key in order, the pairs of different keys in any order.\<close>

type_synonym "values" = "(string \<times> string) list"

definition maxQueryParams :: nat where "maxQueryParams = 10000"

fun Split :: "char \<Rightarrow> string \<Rightarrow> string \<Rightarrow> string list" where
  "Split c acc [] = [acc]"
| "Split c acc (x # xs) = (if x = c then acc # Split c [] xs else Split c (acc @ [x]) xs)"

text \<open>One setting; an empty or malformed one is skipped, since \<open>Query\<close> drops the error.\<close>

definition parse_setting :: "string \<Rightarrow> (string \<times> string) option" where
  "parse_setting s =
    (if s = [] \<or> CHR '';'' \<in> set s then None
     else (case cut_text (CHR ''='') s of
         (k, v) \<Rightarrow> (case (unescape encodeQueryComponent k, unescape encodeQueryComponent v) of
             (Some key, Some val) \<Rightarrow> Some (key, val)
           | _ \<Rightarrow> None)))"

definition ParseQuery :: "string \<Rightarrow> values" where
  "ParseQuery query =
    (let settings = Split (CHR ''&'') [] query
     in if maxQueryParams < length settings then [] else List.map_filter parse_setting settings)"

definition Query :: "URL \<Rightarrow> values" where
  "Query u = ParseQuery (u_RawQuery u)"

definition Values_Set :: "string \<Rightarrow> string \<Rightarrow> values \<Rightarrow> values" where
  "Values_Set key val q = filter (\<lambda>kv. fst kv \<noteq> key) q @ [(key, val)]"

definition show_setting :: "string \<times> string \<Rightarrow> string" where
  "show_setting kv = escape encodeQueryComponent (fst kv) @ CHR ''='' # escape encodeQueryComponent (snd kv)"

definition Encode :: "values \<Rightarrow> string" where
  "Encode q = Join (map show_setting (sort_key fst q)) ''&''"

subsection \<open>URL.String\<close>

definition EscapedPath :: "URL \<Rightarrow> string" where
  "EscapedPath u =
    (if u_RawPath u \<noteq> [] \<and> validEncoded encodePath (u_RawPath u) \<and> unescape encodePath (u_RawPath u) = Some (u_Path u)
     then u_RawPath u
     else if u_Path u = ''*'' then ''*'' else escape encodePath (u_Path u))"

definition EscapedFragment :: "URL \<Rightarrow> string" where
  "EscapedFragment u =
    (if u_RawFragment u \<noteq> [] \<and> validEncoded encodeFragment (u_RawFragment u)
        \<and> unescape encodeFragment (u_RawFragment u) = Some (u_Fragment u)
     then u_RawFragment u else escape encodeFragment (u_Fragment u))"

definition show_user :: "(string \<times> string option) \<Rightarrow> string" where
  "show_user up = escape encodeUserPassword (fst up)
     @ (case snd up of None \<Rightarrow> [] | Some p \<Rightarrow> colon # escape encodeUserPassword p)"

definition show_authority :: "URL \<Rightarrow> string" where
  "show_authority u =
    (if u_Scheme u = [] \<and> u_Host u = [] \<and> u_User u = None then []
     else if u_OmitHost u \<and> u_Host u = [] \<and> u_User u = None then []
     else (if u_Host u \<noteq> [] \<or> u_Path u \<noteq> [] \<or> u_User u \<noteq> None then ''//'' else [])
       @ (case u_User u of None \<Rightarrow> [] | Some up \<Rightarrow> show_user up @ ''@'')
       @ escape encodeHost (u_Host u))"

text \<open>Everything before the query, and everything after it.\<close>

definition show_target :: "URL \<Rightarrow> string" where
  "show_target u =
    (let scheme = (if u_Scheme u \<noteq> [] then u_Scheme u @ '':'' else []) in
     if u_Opaque u \<noteq> [] then scheme @ u_Opaque u
     else (let path = EscapedPath u; pre = scheme @ show_authority u;
               slash = (if path \<noteq> [] \<and> hd path \<noteq> CHR ''/'' \<and> u_Host u \<noteq> [] then ''/'' else []);
               dot = (if pre @ slash = [] \<and> colon \<in> set (fst (cut_at (CHR ''/'') path)) then ''./'' else [])
           in pre @ slash @ dot @ path))"

definition show_fragment :: "URL \<Rightarrow> string" where
  "show_fragment u = (if u_Fragment u \<noteq> [] then CHR ''#'' # EscapedFragment u else [])"

definition show_url :: "URL \<Rightarrow> string" where
  "show_url u = show_target u
     @ (if u_ForceQuery u \<or> u_RawQuery u \<noteq> [] then CHR ''?'' # u_RawQuery u else []) @ show_fragment u"

text \<open>
  The idiom of \<open>sizedURL\<close> and \<open>Due\<close>: parse, set one query parameter, print.
\<close>

definition with_param :: "string \<Rightarrow> string \<Rightarrow> string \<Rightarrow> string option" where
  "with_param raw key val =
    map_option (\<lambda>u. show_url (u\<lparr> u_RawQuery := Encode (Values_Set key val (Query u)) \<rparr>)) (Parse raw)"

subsection \<open>The address of a request\<close>

text \<open>
  The address \<open>net/http\<close> dials for a URL of a web scheme: the host name and the port, with the
  default one of the scheme. \<open>idna\<close> maps a host name that is not ASCII.
\<close>

definition canonicalAddr :: "(string \<Rightarrow> string) \<Rightarrow> URL \<Rightarrow> string" where
  "canonicalAddr idna u =
    JoinHostPort (if is_ascii (Hostname u) then Hostname u else idna (Hostname u))
      (if Port u \<noteq> [] then Port u else if u_Scheme u = ''https'' then ''443'' else ''80'')"

subsection \<open>Escaping and its inverse\<close>

lemma hex_nibble:
  assumes "n < 16"
  shows "is_hex (upperhex n)" "unhex (upperhex n) = n"
  using assms by (auto simp: is_hex_def unhex_def upperhex_def in_rng_def)

lemma percent_escaped: "shouldEscape mode (CHR ''%'')"
  by (cases mode) (simp_all add: shouldEscape_def alphanumeric_def in_rng_def host_mode_def)

lemma byte_nibbles: "char_of (of_char c div 16 * 16 + of_char c mod 16 :: nat) = c"
  by (simp add: div_mult_mod_eq)

lemma unescape_char:
  assumes "\<not> host_mode mode"
  shows "unescape mode (escape_char mode c @ cs) = map_option (Cons c) (unescape mode cs)"
proof (cases "shouldEscape mode c")
  case True
  have b: "of_char c div 16 < (16 :: nat)" "of_char c mod 16 < (16 :: nat)"
    by (simp_all add: less_mult_imp_div_less)
  show ?thesis
  proof (cases "c = CHR '' '' \<and> mode = encodeQueryComponent")
    case False
    have "escape_ok mode h l" for h l using assms by (auto simp: escape_ok_def host_mode_def)
    then show ?thesis
      using True False hex_nibble(1)[OF b(1)] hex_nibble(1)[OF b(2)]
      by (simp add: escape_char_def hex_nibble(2)[OF b(1)] hex_nibble(2)[OF b(2)] byte_nibbles del: mult.commute)
  qed (simp add: escape_char_def)
next
  case False
  then have "c \<noteq> CHR ''%''" using percent_escaped by blast
  moreover have "c = CHR ''+'' \<Longrightarrow> mode \<noteq> encodeQueryComponent"
    using False by (auto simp: shouldEscape_def alphanumeric_def in_rng_def host_mode_def)
  moreover have "\<not> (c = CHR '' '' \<and> mode = encodeQueryComponent)"
    using False by (auto simp: shouldEscape_def alphanumeric_def in_rng_def host_mode_def)
  ultimately show ?thesis using False assms by (auto simp: escape_char_def)
qed

lemma unescape_escape: "\<not> host_mode mode \<Longrightarrow> unescape mode (escape mode s) = Some s"
  by (induction s) (simp_all add: escape_def unescape_char)

text \<open>A byte that no mode touches, and a text of them.\<close>

definition unreserved :: "char \<Rightarrow> bool" where
  "unreserved c \<longleftrightarrow> alphanumeric c \<or> c \<in> set ''-_.~''"

lemma unreserved_plain: "unreserved c \<Longrightarrow> \<not> shouldEscape mode c"
  by (auto simp: unreserved_def shouldEscape_def)

lemma escape_id: "list_all (\<lambda>c. \<not> shouldEscape mode c) s \<Longrightarrow> escape mode s = s"
proof (induction s)
  case (Cons c s)
  have "\<not> (c = CHR '' '' \<and> mode = encodeQueryComponent)"
    using Cons.prems by (auto simp: shouldEscape_def alphanumeric_def in_rng_def host_mode_def)
  then show ?case using Cons by (simp add: escape_def escape_char_def)
qed (simp add: escape_def)

lemma unescape_id:
  "list_all (\<lambda>c. c \<noteq> CHR ''%'' \<and> (c = CHR ''+'' \<longrightarrow> mode \<noteq> encodeQueryComponent) \<and> (host_mode mode \<longrightarrow> \<not> shouldEscape mode c)) s
    \<Longrightarrow> unescape mode s = Some s"
  by (induction s) auto

text \<open>What an escaped query component is made of.\<close>

definition query_safe :: "char \<Rightarrow> bool" where
  "query_safe c \<longleftrightarrow> unreserved c \<or> c = CHR ''%'' \<or> c = CHR ''+''"

lemma upperhex_alnum: "n < 16 \<Longrightarrow> alphanumeric (upperhex n)"
  by (auto simp: alphanumeric_def upperhex_def in_rng_def)

lemma escape_query_safe: "list_all query_safe (escape encodeQueryComponent s)"
proof (induction s)
  case (Cons c s)
  have "list_all query_safe (escape_char encodeQueryComponent c)"
  proof (cases "shouldEscape encodeQueryComponent c")
    case True
    have "alphanumeric (upperhex (of_char c div 16))" "alphanumeric (upperhex (of_char c mod 16))"
      by (simp_all add: upperhex_alnum less_mult_imp_div_less)
    then show ?thesis using True by (simp add: escape_char_def query_safe_def unreserved_def)
  next
    case False
    then have "unreserved c"
      by (auto simp: shouldEscape_def unreserved_def host_mode_def split: if_splits)
    then show ?thesis using False by (simp add: escape_char_def query_safe_def)
  qed
  then show ?case using Cons by (simp add: escape_def)
qed (simp add: escape_def)

lemma query_safe_not:
  assumes "query_safe c"
  shows "c \<noteq> CHR ''&''" "c \<noteq> CHR ''=''" "c \<noteq> CHR '';''" "c \<noteq> CHR ''#''" "c \<noteq> CHR ''?''"
  using assms by (auto simp: query_safe_def unreserved_def alphanumeric_def in_rng_def)

subsection \<open>Queries: parsing undoes encoding\<close>

lemma Split_plain: "c \<notin> set s \<Longrightarrow> Split c acc s = [acc @ s]"
  by (induction s arbitrary: acc) auto

lemma Split_append: "c \<notin> set s \<Longrightarrow> Split c acc (s @ c # t) = (acc @ s) # Split c [] t"
  by (induction s arbitrary: acc) auto

lemma Split_Join: "ss \<noteq> [] \<Longrightarrow> \<forall>s\<in>set ss. c \<notin> set s \<Longrightarrow> Split c [] (Join ss [c]) = ss"
  by (induction ss "[c]" rule: Join.induct) (auto simp: Split_plain Split_append)

lemma setting_bytes: "c \<in> set (show_setting kv) \<Longrightarrow> query_safe c \<or> c = CHR ''=''"
  using escape_query_safe[of "fst kv"] escape_query_safe[of "snd kv"]
  by (auto simp: show_setting_def list_all_iff)

lemma escape_query_free: "x \<in> {CHR ''&'', CHR ''='', CHR '';'', CHR ''#'', CHR ''?''} \<Longrightarrow> x \<notin> set (escape encodeQueryComponent s)"
  using escape_query_safe[of s] query_safe_not by (fastforce simp: list_all_iff)

lemma parse_setting_show: "parse_setting (show_setting kv) = Some kv"
proof -
  have "CHR ''='' \<notin> set (escape encodeQueryComponent (fst kv))" by (rule escape_query_free) simp
  then have "cut_text (CHR ''='') (show_setting kv)
      = (escape encodeQueryComponent (fst kv), escape encodeQueryComponent (snd kv))"
    by (simp add: cut_text_def show_setting_def cut_at_append)
  moreover have "CHR '';'' \<notin> set (show_setting kv)"
    using setting_bytes[of "CHR '';''" kv] query_safe_not(3) by auto
  moreover have "show_setting kv \<noteq> []" by (simp add: show_setting_def)
  ultimately show ?thesis
    by (simp add: parse_setting_def unescape_escape host_mode_def)
qed

lemma map_filter_show: "List.map_filter parse_setting (map show_setting q) = q"
  by (induction q) (simp_all add: parse_setting_show)

lemma ParseQuery_Encode:
  assumes "length q \<le> maxQueryParams"
  shows "ParseQuery (Encode q) = sort_key fst q"
proof (cases "q = []")
  case True
  then show ?thesis by (simp add: ParseQuery_def Encode_def parse_setting_def maxQueryParams_def)
next
  case False
  then have "sort_key fst q \<noteq> []" by (metis length_0_conv length_sort)
  then have "Split (CHR ''&'') [] (Encode q) = map show_setting (sort_key fst q)"
    using setting_bytes query_safe_not(1) unfolding Encode_def by (intro Split_Join) auto
  then show ?thesis using assms by (simp add: ParseQuery_def map_filter_show)
qed

lemma length_map_filter: "length (List.map_filter f xs) \<le> length xs"
  by (simp add: List.map_filter_def)

lemma ParseQuery_length: "length (ParseQuery s) \<le> maxQueryParams"
  using length_map_filter[of parse_setting "Split (CHR ''&'') [] s"] by (simp add: ParseQuery_def Let_def)

text \<open>The values of one key.\<close>

definition values_of :: "values \<Rightarrow> string \<Rightarrow> string list" where
  "values_of q key = map snd (filter (\<lambda>kv. fst kv = key) q)"

lemma values_of_sort: "values_of (sort_key fst q) key = values_of q key"
  by (simp add: values_of_def sort_key_stable)

lemma values_of_Set: "values_of (Values_Set key val q) k = (if k = key then [val] else values_of q k)"
proof -
  have "filter (\<lambda>kv. fst kv = k) (filter (\<lambda>kv. fst kv \<noteq> key) q) = (if k = key then [] else filter (\<lambda>kv. fst kv = k) q)"
    by (auto simp: filter_empty_conv intro: filter_cong)
  then show ?thesis by (auto simp: values_of_def Values_Set_def)
qed

subsection \<open>Plain URLs\<close>

text \<open>
  The form of every URL in the program's tables and of an ordinary base URL in its flags: a web
  scheme, a host name with an optional port, a path, and perhaps a query.
\<close>

definition plain_name :: "string \<Rightarrow> bool" where
  "plain_name h \<longleftrightarrow> h \<noteq> [] \<and> list_all (\<lambda>c. alphanumeric c \<or> c = CHR ''-'' \<or> c = CHR ''.'') h"

definition plain_path :: "string \<Rightarrow> bool" where
  "plain_path p \<longleftrightarrow> (p = [] \<or> hd p = CHR ''/'') \<and> list_all (\<lambda>c. unreserved c \<or> c = CHR ''/'' \<or> c = CHR ''@'') p"

definition query_bytes :: "string \<Rightarrow> bool" where
  "query_bytes q \<longleftrightarrow> list_all (\<lambda>c. query_safe c \<or> c \<in> set ''&=:,/'') q"

definition with_port :: "string \<Rightarrow> string \<Rightarrow> string" where
  "with_port h port = (if port = [] then h else h @ colon # port)"

definition plain_url :: "string \<Rightarrow> string \<Rightarrow> string \<Rightarrow> string \<Rightarrow> string" where
  "plain_url scheme h port path = scheme @ ''://'' @ with_port h port @ path"

definition plain_target :: "string \<Rightarrow> string \<Rightarrow> string \<Rightarrow> string \<Rightarrow> bool" where
  "plain_target scheme h port path \<longleftrightarrow>
    web_scheme scheme \<and> plain_name h \<and> list_all is_digit_char port \<and> plain_path path"

lemma name_byte:
  assumes "alphanumeric c \<or> c = CHR ''-'' \<or> c = CHR ''.''"
  shows "c \<notin> {colon, lbrack, rbrack, CHR ''/'', CHR ''@'', CHR ''%'', CHR ''?'', CHR ''#'', CHR ''*'', CHR ''+''}"
    "\<not> shouldEscape mode c" "0x20 \<le> (of_char c :: nat)" "of_char c \<noteq> (0x7F :: nat)" "of_char c < (128 :: nat)"
proof -
  have "\<not> (alphanumeric x \<or> x = CHR ''-'' \<or> x = CHR ''.'')"
    if "x \<in> {colon, lbrack, rbrack, CHR ''/'', CHR ''@'', CHR ''%'', CHR ''?'', CHR ''#'', CHR ''*'', CHR ''+''}" for x
    using that by (auto simp: alphanumeric_def in_rng_def)
  then show "c \<notin> {colon, lbrack, rbrack, CHR ''/'', CHR ''@'', CHR ''%'', CHR ''?'', CHR ''#'', CHR ''*'', CHR ''+''}"
    using assms by blast
  show "\<not> shouldEscape mode c"
    using assms by (intro unreserved_plain) (auto simp: unreserved_def)
  show "0x20 \<le> (of_char c :: nat)" "of_char c \<noteq> (0x7F :: nat)" "of_char c < (128 :: nat)"
    using assms unfolding alphanumeric_def in_rng_def by auto
qed

lemma digit_byte: "is_digit_char c \<Longrightarrow> alphanumeric c"
  by (simp add: is_digit_char_def alphanumeric_def)

lemma plain_name_free:
  assumes "plain_name h" "x \<in> {colon, lbrack, rbrack, CHR ''/'', CHR ''@'', CHR ''%'', CHR ''?'', CHR ''#'', CHR ''*'', CHR ''+''}"
  shows "x \<notin> set h"
  using assms name_byte(1) by (fastforce simp: plain_name_def list_all_iff)

lemma plain_port_free:
  assumes "list_all is_digit_char port" "x \<in> {colon, lbrack, rbrack, CHR ''/'', CHR ''@'', CHR ''%'', CHR ''?'', CHR ''#'', CHR ''*'', CHR ''+''}"
  shows "x \<notin> set port"
  using assms name_byte(1) digit_byte by (fastforce simp: list_all_iff)

lemma with_port_free:
  assumes "plain_name h" "list_all is_digit_char port"
    and "x \<in> {lbrack, rbrack, CHR ''/'', CHR ''@'', CHR ''%'', CHR ''?'', CHR ''#'', CHR ''*'', CHR ''+''}"
  shows "x \<notin> set (with_port h port)"
  using plain_name_free[OF assms(1), of x] plain_port_free[OF assms(2), of x] assms(3)
  by (auto simp: with_port_def)

lemma path_byte:
  assumes "unreserved c \<or> c = CHR ''/'' \<or> c = CHR ''@''"
  shows "c \<notin> {CHR ''?'', CHR ''#'', CHR ''%'', CHR ''+''}" "\<not> shouldEscape encodePath c"
    "0x20 \<le> (of_char c :: nat)" "of_char c \<noteq> (0x7F :: nat)"
proof -
  have "\<not> (unreserved x \<or> x = CHR ''/'' \<or> x = CHR ''@'')" if "x \<in> {CHR ''?'', CHR ''#'', CHR ''%'', CHR ''+''}" for x
    using that by (auto simp: unreserved_def alphanumeric_def in_rng_def)
  then show "c \<notin> {CHR ''?'', CHR ''#'', CHR ''%'', CHR ''+''}" using assms by blast
  have "\<not> shouldEscape encodePath (CHR ''/'')" "\<not> shouldEscape encodePath (CHR ''@'')" by (simp_all add: shouldEscape_def alphanumeric_def in_rng_def host_mode_def)
  then show "\<not> shouldEscape encodePath c" using assms unreserved_plain by blast
  show "0x20 \<le> (of_char c :: nat)" "of_char c \<noteq> (0x7F :: nat)"
    using assms unfolding unreserved_def alphanumeric_def in_rng_def by auto
qed

lemma plain_path_free:
  "plain_path p \<Longrightarrow> x \<in> {CHR ''?'', CHR ''#'', CHR ''%'', CHR ''+''} \<Longrightarrow> x \<notin> set p"
  using path_byte(1) by (fastforce simp: plain_path_def list_all_iff)

lemma plain_path_set: "plain_path p \<Longrightarrow> setPath p u = Some (u\<lparr> u_Path := p, u_RawPath := [] \<rparr>)"
proof -
  assume p: "plain_path p"
  have "unescape encodePath p = Some p"
    using p plain_path_free[OF p] by (intro unescape_id) (auto simp: list_all_iff host_mode_def)
  moreover have "escape encodePath p = p"
    using p path_byte(2) by (intro escape_id) (auto simp: plain_path_def list_all_iff)
  ultimately show ?thesis by (simp add: setPath_def)
qed

lemma authority_byte:
  assumes "plain_name h" "list_all is_digit_char port" "c \<in> set (with_port h port)"
  shows "\<not> shouldEscape encodeHost c"
proof (cases "c = colon")
  case True
  then show ?thesis by (simp add: shouldEscape_def host_mode_def)
next
  case False
  then have "alphanumeric c \<or> c = CHR ''-'' \<or> c = CHR ''.''"
    using assms digit_byte by (auto simp: with_port_def plain_name_def list_all_iff split: if_splits)
  then show ?thesis by (rule name_byte(2))
qed

lemma plain_host_parsed:
  assumes "plain_name h" "list_all is_digit_char port"
  shows "parseAuthority scheme (with_port h port) = Some (None, with_port h port)"
proof -
  have un: "unescape encodeHost (with_port h port) = Some (with_port h port)"
  proof (intro unescape_id)
    have "\<not> shouldEscape encodeHost c" if "c \<in> set (with_port h port)" for c
      using authority_byte[OF assms that] .
    then show "list_all (\<lambda>c. c \<noteq> CHR ''%'' \<and> (c = CHR ''+'' \<longrightarrow> encodeHost \<noteq> encodeQueryComponent)
        \<and> (host_mode encodeHost \<longrightarrow> \<not> shouldEscape encodeHost c)) (with_port h port)"
      using with_port_free[OF assms, of "CHR ''%''"] by (auto simp: list_all_iff)
  qed
  have "parseHost scheme (with_port h port) = Some (with_port h port)"
  proof (cases "port = []")
    case True
    then have "cut_last colon (with_port h port) = None"
      using plain_name_free[OF assms(1), of colon] by (simp add: with_port_def cut_last_None)
    then show ?thesis using un with_port_free[OF assms, of lbrack] by (simp add: parseHost_def)
  next
    case False
    then have "cut_last colon (with_port h port) = Some (h, port)"
      using plain_port_free[OF assms(2), of colon] by (simp add: with_port_def cut_last_append)
    then show ?thesis
      using un with_port_free[OF assms, of lbrack] plain_name_free[OF assms(1), of colon] assms(2)
      by (simp add: parseHost_def validOptionalPort_def)
  qed
  moreover have "cut_last (CHR ''@'') (with_port h port) = None"
    using with_port_free[OF assms, of "CHR ''@''"] by (simp add: cut_last_None)
  ultimately show ?thesis by (simp add: parseAuthority_def)
qed

lemma plain_splitHostPort:
  assumes "plain_name h" "list_all is_digit_char port"
  shows "splitHostPort (with_port h port) = (h, port)"
proof -
  have h: "h \<noteq> []" "hd h \<noteq> lbrack"
    using assms(1) plain_name_free[OF assms(1), of lbrack] by (auto simp: plain_name_def neq_Nil_conv)
  show ?thesis
  proof (cases "port = []")
    case True
    then have "cut_last colon (with_port h port) = None"
      using plain_name_free[OF assms(1), of colon] by (simp add: with_port_def cut_last_None)
    then show ?thesis using h True by (simp add: splitHostPort_def with_port_def)
  next
    case False
    then have "cut_last colon (with_port h port) = Some (h, port)"
      using plain_port_free[OF assms(2), of colon] by (simp add: with_port_def cut_last_append)
    then show ?thesis using h assms(2) by (simp add: splitHostPort_def validOptionalPort_def)
  qed
qed

definition plain_parsed :: "string \<Rightarrow> string \<Rightarrow> string \<Rightarrow> string \<Rightarrow> string \<Rightarrow> URL" where
  "plain_parsed scheme h port path query =
    URL0\<lparr> u_Scheme := scheme, u_Host := with_port h port, u_Path := path, u_RawQuery := query \<rparr>"

definition query_part :: "string \<Rightarrow> string" where
  "query_part query = (if query = [] then [] else CHR ''?'' # query)"

lemma query_byte:
  assumes "query_safe c \<or> c \<in> set ''&=:,/''"
  shows "c \<noteq> CHR ''?''" "c \<noteq> CHR ''#''" "0x20 \<le> (of_char c :: nat)" "of_char c \<noteq> (0x7F :: nat)"
proof -
  have "\<not> query_safe (CHR ''?'')" "\<not> query_safe (CHR ''#'')" using query_safe_not by blast+
  then show "c \<noteq> CHR ''?''" "c \<noteq> CHR ''#''" using assms by auto
  show "0x20 \<le> (of_char c :: nat)" "of_char c \<noteq> (0x7F :: nat)"
    using assms unfolding query_safe_def unreserved_def alphanumeric_def in_rng_def by auto
qed

lemma cut_query_part:
  assumes "CHR ''?'' \<notin> set pre" "CHR ''?'' \<notin> set query" "pre \<noteq> []"
  shows "cut_query (pre @ query_part query) = (False, pre, query)"
proof (cases "query = []")
  case True
  have "last pre \<noteq> CHR ''?''" using assms(1,3) last_in_set by force
  then show ?thesis using True assms by (simp add: cut_query_def query_part_def cut_text_def cut_at_None)
next
  case False
  have "last query \<noteq> CHR ''?''" using assms(2) False last_in_set by force
  then show ?thesis using False assms(1) by (simp add: cut_query_def query_part_def cut_text_def cut_at_append)
qed

lemma parseRest_plain:
  assumes "plain_name h" "list_all is_digit_char port" "plain_path path" "u_Scheme u \<noteq> []"
  shows "parseRest u (''//'' @ with_port h port @ path) = Some (u\<lparr> u_User := None, u_Host := with_port h port,
    u_Path := path, u_RawPath := [] \<rparr>)"
proof -
  have "CHR ''/'' \<notin> set (with_port h port)" using with_port_free[OF assms(1,2)] by simp
  then have "(case cut_at (CHR ''/'') (with_port h port @ path) of (a, None) \<Rightarrow> (a, []) | (a, Some p) \<Rightarrow> (a, CHR ''/'' # p))
      = (with_port h port, path)"
    using assms(3) by (cases path) (auto simp: plain_path_def cut_at_None cut_at_append)
  then show ?thesis
    using assms by (simp add: parseRest_def plain_host_parsed plain_path_set)
qed

lemma getScheme_web:
  assumes "web_scheme scheme"
  shows "getScheme (scheme @ ''://'' @ rest) = Some (scheme, ''//'' @ rest)" "map lower_char scheme = scheme"
    "scheme \<noteq> []" "CHR ''#'' \<notin> set scheme" "list_all (\<lambda>c. 0x20 \<le> (of_char c :: nat) \<and> of_char c \<noteq> (0x7F :: nat)) scheme"
  using assms by (auto simp: web_scheme_def getScheme_def in_rng_def lower_char_def)

lemma Parse_plain:
  assumes "plain_target scheme h port path" "query_bytes query"
  shows "Parse (plain_url scheme h port path @ query_part query) = Some (plain_parsed scheme h port path query)"
proof -
  note t = assms(1)[unfolded plain_target_def]
  note web = getScheme_web[OF conjunct1[OF t]]
  let ?raw = "plain_url scheme h port path @ query_part query"
  have q: "CHR ''?'' \<notin> set query" "CHR ''#'' \<notin> set query"
    using assms(2) query_byte by (fastforce simp: query_bytes_def list_all_iff)+
  have hp: "CHR ''#'' \<notin> set (with_port h port)" "CHR ''?'' \<notin> set (with_port h port)"
    using with_port_free t by simp_all
  have pp: "CHR ''#'' \<notin> set path" "CHR ''?'' \<notin> set path" using plain_path_free t by simp_all
  have hash: "CHR ''#'' \<notin> set ?raw" using web(4) hp pp q by (auto simp: plain_url_def query_part_def)
  have byte: "0x20 \<le> (of_char c :: nat) \<and> of_char c \<noteq> (0x7F :: nat)" if "c \<in> set ?raw" for c
  proof -
    have "c \<in> set scheme \<or> c \<in> set ''://?'' \<or> c \<in> set h \<or> c \<in> set port \<or> c \<in> set path \<or> c \<in> set query"
      using that by (auto simp: plain_url_def query_part_def with_port_def split: if_splits)
    then show ?thesis
    proof (elim disjE)
      assume "c \<in> set scheme" then show ?thesis using web(5) by (auto simp: list_all_iff)
    next
      assume "c \<in> set h" then show ?thesis using t name_byte(3,4) by (fastforce simp: plain_name_def list_all_iff)
    next
      assume "c \<in> set port" then show ?thesis using t name_byte(3,4) digit_byte by (fastforce simp: list_all_iff)
    next
      assume "c \<in> set path" then show ?thesis using t path_byte(3,4) by (fastforce simp: plain_path_def list_all_iff)
    next
      assume "c \<in> set query" then show ?thesis using assms(2) query_byte(3,4) by (fastforce simp: query_bytes_def list_all_iff)
    qed auto
  qed
  define R where "R = ?raw"
  define P where "P = ''//'' @ with_port h port @ path"
  define u where "u = URL0\<lparr> u_Scheme := scheme, u_ForceQuery := False, u_RawQuery := query \<rparr>"
  have "R \<noteq> ''*''" using t by (auto simp: R_def plain_url_def web_scheme_def)
  moreover have "\<not> list_ex (\<lambda>c. of_char c < (0x20 :: nat) \<or> of_char c = (0x7F :: nat)) R"
    unfolding R_def list_ex_iff using byte by (metis not_le)
  moreover have "getScheme R = Some (scheme, P @ query_part query)"
    using web(1)[of "with_port h port @ path @ query_part query"] by (simp add: plain_url_def R_def P_def)
  moreover have "cut_query (P @ query_part query) = (False, P, query)"
    unfolding P_def using hp pp q by (intro cut_query_part) auto
  moreover have "parseRest u P = Some (u\<lparr> u_User := None, u_Host := with_port h port, u_Path := path, u_RawPath := [] \<rparr>)"
    unfolding P_def using t web(3) by (intro parseRest_plain) (simp_all add: u_def)
  ultimately have "parse R = Some (plain_parsed scheme h port path query)"
    using web(2) by (simp add: parse_def u_def plain_parsed_def URL0_def)
  then have "parse ?raw = Some (plain_parsed scheme h port path query)" by (simp add: R_def)
  then show ?thesis using hash by (simp add: Parse_def cut_text_def cut_at_None)
qed

lemma plain_parts:
  assumes "plain_name h" "list_all is_digit_char port"
  shows "Hostname (plain_parsed scheme h port path query) = h" "Port (plain_parsed scheme h port path query) = port"
  using plain_splitHostPort[OF assms] by (simp_all add: Hostname_def Port_def plain_parsed_def)

lemma hostname_plain:
  assumes "plain_target scheme h port path" "query_bytes query"
  shows "hostname (plain_url scheme h port path @ query_part query) = Some h"
  using Parse_plain[OF assms] plain_parts(1)[of h port] assms(1) by (simp add: hostname_def plain_target_def)

lemma canonicalAddr_plain:
  assumes "plain_target scheme h port path"
  shows "canonicalAddr idna (plain_parsed scheme h port path query)
    = JoinHostPort h (if port \<noteq> [] then port else if scheme = ''https'' then ''443'' else ''80'')"
proof -
  have p: "plain_name h" "list_all is_digit_char port" using assms by (simp_all add: plain_target_def)
  then have "is_ascii h" using name_byte(5) by (fastforce simp: plain_name_def is_ascii_def list_all_iff)
  then show ?thesis using plain_parts[OF p] by (simp add: canonicalAddr_def plain_parsed_def)
qed

subsection \<open>Setting a parameter\<close>

lemma show_plain:
  assumes "plain_target scheme h port path"
  shows "show_url (plain_parsed scheme h port path query) = plain_url scheme h port path @ query_part query"
proof -
  note t = assms[unfolded plain_target_def]
  have "\<not> shouldEscape encodeHost c" if "c \<in> set (with_port h port)" for c
    using authority_byte[OF _ _ that] t by blast
  then have host: "escape encodeHost (with_port h port) = with_port h port"
    by (intro escape_id) (simp add: list_all_iff)
  have path: "escape encodePath path = path"
    using t path_byte(2) by (intro escape_id) (auto simp: plain_path_def list_all_iff)
  define hp where "hp = with_port h port"
  have "path \<noteq> ''*''" "path \<noteq> [] \<Longrightarrow> hd path = CHR ''/''" using t by (auto simp: plain_path_def)
  moreover have "hp \<noteq> []" using t by (auto simp: with_port_def plain_name_def hp_def)
  moreover have "scheme \<noteq> []" using t by (auto simp: web_scheme_def)
  moreover define u where "u = plain_parsed scheme h port path query"
  moreover have v: "u_Scheme u = scheme" "u_Host u = hp" "u_User u = None" "u_Opaque u = []" "u_Path u = path"
    "u_RawPath u = []" "u_OmitHost u = False" "u_ForceQuery u = False" "u_RawQuery u = query" "u_Fragment u = []"
    by (simp_all add: u_def plain_parsed_def URL0_def hp_def)
  ultimately have au: "show_authority u = ''//'' @ hp" and ep: "EscapedPath u = path" 
    using host path by (simp_all add: show_authority_def EscapedPath_def hp_def)
  have "show_target u = scheme @ '':'' @ ''//'' @ hp @ path"
    unfolding show_target_def au ep v using \<open>scheme \<noteq> []\<close> \<open>path \<noteq> [] \<Longrightarrow> hd path = CHR ''/''\<close> by auto
  then show ?thesis
    by (simp add: show_url_def u_def[symmetric] v show_fragment_def query_part_def plain_url_def hp_def)
qed

lemma show_keeps [simp]:
  "show_target (u\<lparr> u_RawQuery := q \<rparr>) = show_target u" "show_fragment (u\<lparr> u_RawQuery := q \<rparr>) = show_fragment u"
  by (simp_all add: show_target_def show_authority_def EscapedPath_def show_fragment_def EscapedFragment_def)

text \<open>
  What the idiom prints: the URL's own target and fragment around a query in which the key has
  exactly the new value and every other key keeps its values.
\<close>

lemma with_param_spec:
  assumes "with_param raw key val = Some out" "length (Query (the (Parse raw))) < maxQueryParams"
  shows "\<exists>u query. Parse raw = Some u \<and> out = show_target u @ CHR ''?'' # query @ show_fragment u
    \<and> list_all (\<lambda>c. query_safe c \<or> c \<in> set ''&='') query
    \<and> (\<forall>k. values_of (ParseQuery query) k = (if k = key then [val] else values_of (Query u) k))"
proof -
  obtain u where u: "Parse raw = Some u" "out = show_url (u\<lparr> u_RawQuery := Encode (Values_Set key val (Query u)) \<rparr>)"
    using assms(1) by (auto simp: with_param_def)
  define q where "q = Values_Set key val (Query u)"
  have "length q \<le> Suc (length (Query u))" by (simp add: q_def Values_Set_def)
  moreover have "length (Query u) < maxQueryParams" using assms(2) u(1) by simp
  ultimately have len: "length q \<le> maxQueryParams" by linarith
  have qne: "sort_key fst q \<noteq> []" using q_def by (metis Values_Set_def append_is_Nil_conv length_0_conv length_sort list.distinct(1))
  have joined: "list_all P (Join ss ''&'')" if "P (CHR ''&'')" "\<forall>s\<in>set ss. list_all P s" for P ss
    using that by (induction ss "''&''" rule: Join.induct) auto
  have bytes: "list_all (\<lambda>c. query_safe c \<or> c \<in> set ''&='') (Encode q)"
    unfolding Encode_def using setting_bytes by (intro joined) (auto simp: list_all_iff)
  have "Encode q \<noteq> []"
    using qne by (cases "sort_key fst q"; cases "tl (sort_key fst q)") (simp_all add: Encode_def show_setting_def)
  then have "out = show_target u @ CHR ''?'' # Encode q @ show_fragment u"
    by (simp add: u(2) q_def[symmetric] show_url_def)
  moreover have "values_of (ParseQuery (Encode q)) k = (if k = key then [val] else values_of (Query u) k)" for k
    unfolding ParseQuery_Encode[OF len] values_of_sort by (simp add: q_def values_of_Set)
  ultimately show ?thesis using u(1) bytes by blast
qed

text \<open>On a plain URL without a query the parameter is appended.\<close>

lemma with_param_plain:
  assumes "plain_target scheme h port path" "list_all unreserved key" "list_all unreserved val"
  shows "with_param (plain_url scheme h port path) key val
    = Some (plain_url scheme h port path @ CHR ''?'' # key @ CHR ''='' # val)"
proof -
  have e: "Parse (plain_url scheme h port path) = Some (plain_parsed scheme h port path [])"
    using Parse_plain[OF assms(1), of "[]"] by (simp add: query_bytes_def query_part_def)
  have "escape encodeQueryComponent s = s" if "list_all unreserved s" for s
    using that unreserved_plain by (intro escape_id) (auto simp: list_all_iff)
  then have "Encode (Values_Set key val []) = key @ CHR ''='' # val"
    using assms(2,3) by (simp add: Encode_def Values_Set_def show_setting_def)
  moreover have "Query (plain_parsed scheme h port path []) = []"
    by (simp add: Query_def plain_parsed_def ParseQuery_def parse_setting_def maxQueryParams_def)
  moreover have "(plain_parsed scheme h port path [])\<lparr> u_RawQuery := q \<rparr> = plain_parsed scheme h port path q" for q
    by (simp add: plain_parsed_def)
  ultimately show ?thesis
    using show_plain[OF assms(1), of "key @ CHR ''='' # val"] by (simp add: with_param_def e query_part_def)
qed

subsection \<open>Recognising a plain https URL\<close>

definition https_name :: "string \<Rightarrow> string" where
  "https_name url = takeWhile (\<lambda>c. c \<noteq> CHR ''/'') (drop 8 url)"

definition https_tail :: "string \<Rightarrow> string" where
  "https_tail url = dropWhile (\<lambda>c. c \<noteq> CHR ''/'') (drop 8 url)"

definition plain_https :: "string \<Rightarrow> bool" where
  "plain_https url \<longleftrightarrow> take 8 url = ''https://'' \<and> plain_name (https_name url)
    \<and> (case cut_at (CHR ''?'') (https_tail url) of
        (path, None) \<Rightarrow> plain_path path
      | (path, Some query) \<Rightarrow> plain_path path \<and> query \<noteq> [] \<and> query_bytes query)"

lemmas url_eval = plain_https_def https_name_def https_tail_def plain_name_def plain_path_def unreserved_def
  alphanumeric_def in_rng_def query_bytes_def query_safe_def

lemma plain_https_parts:
  assumes "plain_https url"
  shows "\<exists>path query. plain_target ''https'' (https_name url) [] path \<and> query_bytes query
    \<and> url = plain_url ''https'' (https_name url) [] path @ query_part query"
proof -
  obtain path q where c: "cut_at (CHR ''?'') (https_tail url) = (path, q)" by fastforce
  define query where "query = (case q of None \<Rightarrow> [] | Some s \<Rightarrow> s)"
  have tail: "https_tail url = path @ query_part query"
  proof (cases q)
    case None
    then have "CHR ''?'' \<notin> set (https_tail url)" using c cut_at_append
      by (metis in_set_conv_decomp_first prod.inject option.distinct(1))
    then show ?thesis using c None by (simp add: cut_at_None query_def query_part_def)
  next
    case (Some s)
    then have "s \<noteq> []" using assms c by (auto simp: plain_https_def)
    then show ?thesis using cut_at_Some[of "CHR ''?''" "https_tail url" path s] c Some
      by (simp add: query_def query_part_def)
  qed
  have "url = take 8 url @ drop 8 url" by simp
  also have "\<dots> = ''https://'' @ https_name url @ https_tail url"
    using assms by (simp add: plain_https_def https_name_def https_tail_def)
  finally have "url = plain_url ''https'' (https_name url) [] path @ query_part query"
    using tail by (simp add: plain_url_def with_port_def)
  moreover have "plain_target ''https'' (https_name url) [] path" "query_bytes query"
    using assms c by (auto simp: plain_https_def plain_target_def web_scheme_def query_def query_bytes_def split: option.splits)
  ultimately show ?thesis by blast
qed

lemma plain_https_hostname:
  assumes "plain_https url"
  shows "hostname url = Some (https_name url)" "plain_name (https_name url)"
proof -
  show "plain_name (https_name url)" using assms by (simp add: plain_https_def)
  show "hostname url = Some (https_name url)"
    using plain_https_parts[OF assms] hostname_plain by metis
qed

lemma plain_name_ok: "plain_name h \<Longrightarrow> h \<noteq> [] \<and> is_ascii h \<and> host_bytes h \<and> colon \<notin> set h"
  using plain_name_free name_byte(5) by (fastforce simp: plain_name_def is_ascii_def host_bytes_def list_all_iff)

subsection \<open>Requests\<close>

text \<open>
  The error of \<open>http.NewRequestWithContext\<close> for a fixed method and a context: that of
  \<open>url.Parse\<close>.
\<close>

definition NewRequest :: "(string \<Rightarrow> string) \<Rightarrow> string \<Rightarrow> string option" where
  "NewRequest urlText url = (if Parse url = None then Some (urlText url) else None)"

lemma NewRequest_None: "NewRequest urlText url = None \<longleftrightarrow> Parse url \<noteq> None"
  by (simp add: NewRequest_def)

lemma NewRequest_parsed [simp]: "Parse url = Some u \<Longrightarrow> NewRequest urlText url = None"
  by (simp add: NewRequest_def)

lemma plain_https_parsed: "plain_https url \<Longrightarrow> \<exists>u. Parse url = Some u"
  using plain_https_hostname(1)[of url] by (auto simp: hostname_def)

subsection \<open>A plain base URL\<close>

text \<open>
  The base URL of a server as a flag gives it: a web scheme, a host, perhaps a port, and any
  number of slashes at the end, which every endpoint of the server strips.
\<close>

definition plain_base :: "string \<Rightarrow> bool" where
  "plain_base s \<longleftrightarrow> (\<exists>scheme h port. plain_target scheme h port [] \<and> TrimRight s (CHR ''/'') = plain_url scheme h port [])"

lemma plain_base_target:
  assumes "plain_base s" "plain_path p"
  shows "\<exists>scheme h port. plain_target scheme h port p \<and> TrimRight s (CHR ''/'') @ p = plain_url scheme h port p"
  using assms by (fastforce simp: plain_base_def plain_target_def plain_url_def)

lemma plain_base_parsed:
  assumes "plain_base s" "plain_path p"
  shows "NewRequest urlText (TrimRight s (CHR ''/'') @ p) = None"
proof -
  obtain scheme h port where t: "plain_target scheme h port p" "TrimRight s (CHR ''/'') @ p = plain_url scheme h port p"
    using plain_base_target[OF assms] by blast
  show ?thesis using Parse_plain[OF t(1), of "[]"] t(2) by (simp add: query_bytes_def query_part_def)
qed

lemma plain_base_param:
  assumes "plain_base s" "plain_path p" "list_all unreserved key" "list_all unreserved val"
  shows "with_param (TrimRight s (CHR ''/'') @ p) key val = Some (TrimRight s (CHR ''/'') @ p @ CHR ''?'' # key @ CHR ''='' # val)"
    "NewRequest urlText (TrimRight s (CHR ''/'') @ p @ CHR ''?'' # key @ CHR ''='' # val) = None"
proof -
  obtain scheme h port where t: "plain_target scheme h port p" "TrimRight s (CHR ''/'') @ p = plain_url scheme h port p"
    using plain_base_target[OF assms(1,2)] by blast
  have q: "query_bytes (key @ CHR ''='' # val)"
    using assms(3,4) by (auto simp: query_bytes_def list_all_iff query_safe_def)
  have e: "TrimRight s (CHR ''/'') @ p @ CHR ''?'' # key @ CHR ''='' # val = plain_url scheme h port p @ query_part (key @ CHR ''='' # val)"
    using arg_cong[OF t(2), of "\<lambda>u. u @ CHR ''?'' # key @ CHR ''='' # val"] by (simp add: query_part_def)
  show "with_param (TrimRight s (CHR ''/'') @ p) key val = Some (TrimRight s (CHR ''/'') @ p @ CHR ''?'' # key @ CHR ''='' # val)"
    unfolding e using with_param_plain[OF t(1) assms(3,4)] t(2) by (simp add: query_part_def)
  show "NewRequest urlText (TrimRight s (CHR ''/'') @ p @ CHR ''?'' # key @ CHR ''='' # val) = None"
    unfolding e using Parse_plain[OF t(1) q] by simp
qed

lemma Itoa_plain: "list_all unreserved (Itoa n)"
proof (induction n rule: Itoa.induct)
  case (1 n)
  have "unreserved (char_of (48 + k))" if "k < 10" for k :: nat
    using that by (simp add: unreserved_def alphanumeric_def in_rng_def)
  then show ?case using 1 by (cases "n < 10") (simp_all add: Itoa.simps[of n])
qed

subsection \<open>Hosts of a table of URLs\<close>

text \<open>
  The hosts of a list of URLs, de-duplicated: the loop that \<open>SourceHosts\<close>
  and \<open>DestinationHosts\<close> share; a URL that does not parse is skipped.
\<close>

definition hosts_of :: "string list \<Rightarrow> string list" where
  "hosts_of urls = dedup_from {[]} (List.map_filter hostname urls)"

lemma hosts_of_set: "h \<in> set (hosts_of urls) \<longleftrightarrow> h \<noteq> [] \<and> (\<exists>u\<in>set urls. hostname u = Some h)"
  by (auto simp: hosts_of_def List.map_filter_def image_iff)

lemma hosts_of_distinct: "distinct (hosts_of urls)"
  by (simp add: hosts_of_def)

end
