(* ===== verification/Go_Json_Read.thy ===== *)
theory Go_Json_Read
  imports Go_Net
begin

text \<open>
  Reading JSON as \<open>encoding/json\<close> does: the syntax of a document, from bytes to a value, and its
  decoding into the fields of a struct. The parser is total; the lemmas show that it consumes
  what it reads, so that the checks which make its recursion well-founded never fail.
\<close>

subsection \<open>Values\<close>

text \<open>A parsed JSON document; a number keeps its literal text.\<close>

datatype json = JNull | JBool bool | JNum string | JStr string | JArr "json list"
  | JObj "(string \<times> json) list"

subsection \<open>Strings\<close>

abbreviation (input) quotation :: char where "quotation \<equiv> CHR 0x22"
abbreviation (input) backslash :: char where "backslash \<equiv> CHR 0x5C"

definition json_space :: "char \<Rightarrow> bool" where
  "json_space c \<longleftrightarrow> of_char c \<in> {9, 10, 13, 32 :: nat}"

definition skip_space :: "string \<Rightarrow> string" where
  "skip_space s = dropWhile json_space s"

text \<open>
  The scanner's view of a string after its opening quote: the text up to the closing quote, and
  what follows. A control character, an unknown escape or a bad \<open>\u\<close> is refused.
\<close>

fun scan_string :: "string \<Rightarrow> (string \<times> string) option" where
  "scan_string [] = None"
| "scan_string [c] = (if c = quotation then Some ([], []) else None)"
| "scan_string (c # e # r) =
    (if c = quotation then Some ([], e # r)
     else if c = backslash then
       (if e = CHR ''u'' then
          (if 4 \<le> length r \<and> list_all is_hex (take 4 r)
           then map_option (\<lambda>(b, s). (c # e # b, s)) (scan_string r) else None)
        else if e \<in> set ''bfnrt/'' \<or> e = backslash \<or> e = quotation
        then map_option (\<lambda>(b, s). (c # e # b, s)) (scan_string r) else None)
     else if of_char c < (0x20 :: nat) then None
     else map_option (\<lambda>(b, s). (c # b, s)) (scan_string (e # r)))"

definition unescape_char :: "char \<Rightarrow> char" where
  "unescape_char e =
    (if e = CHR ''b'' then char_of (8 :: nat) else if e = CHR ''f'' then char_of (12 :: nat)
     else if e = CHR ''n'' then char_of (10 :: nat) else if e = CHR ''r'' then char_of (13 :: nat)
     else if e = CHR ''t'' then char_of (9 :: nat) else e)"

definition hex4 :: "string \<Rightarrow> rune" where
  "hex4 s = foldl (\<lambda>n c. n * 16 + unhex c) 0 (take 4 s)"

definition IsSurrogate :: "rune \<Rightarrow> bool" where
  "IsSurrogate r \<longleftrightarrow> 0xD800 \<le> r \<and> r < 0xE000"

text \<open>\<open>utf16.DecodeRune\<close>.\<close>

definition decode_pair :: "rune \<Rightarrow> rune \<Rightarrow> rune" where
  "decode_pair r1 r2 =
    (if 0xD800 \<le> r1 \<and> r1 < 0xDC00 \<and> 0xDC00 \<le> r2 \<and> r2 < 0xE000
     then (r1 - 0xD800) * 1024 + (r2 - 0xDC00) + 0x10000 else RuneError)"

text \<open>\<open>getu4\<close>: the number of a \<open>\u\<close> escape at the start, if there is one.\<close>

definition getu4 :: "string \<Rightarrow> rune option" where
  "getu4 s = (if prefix [backslash, CHR ''u''] s \<and> 6 \<le> length s then Some (hex4 (drop 2 s)) else None)"

text \<open>
  \<open>unquote\<close>: what a scanned string denotes. A surrogate that is not the first of a pair, and
  every byte that is not UTF-8, becomes U+FFFD.
\<close>

function unquote :: "string \<Rightarrow> string" where
  "unquote [] = []"
| "unquote (c # cs) =
    (if c = backslash then
       (case cs of
          [] \<Rightarrow> []
        | e # r \<Rightarrow>
           if e = CHR ''u'' then
             (let rr = hex4 r; r' = drop 4 r in
              if \<not> IsSurrogate rr then encode_rune rr @ unquote r'
              else (case getu4 r' of
                  Some rr1 \<Rightarrow>
                    if decode_pair rr rr1 \<noteq> RuneError
                    then encode_rune (decode_pair rr rr1) @ unquote (drop 6 r')
                    else encode_rune RuneError @ unquote r'
                | None \<Rightarrow> encode_rune RuneError @ unquote r'))
           else unescape_char e # unquote r)
     else if of_char c < (0x80 :: nat) then c # unquote cs
     else encode_rune (fst (decode_rune (c # cs))) @ unquote (drop (snd (decode_rune (c # cs)) - 1) cs))"
  by pat_completeness auto
termination by (relation "measure length") auto

declare unquote.simps(2) [simp del]

subsection \<open>Numbers\<close>

definition scan_digits :: "string \<Rightarrow> (string \<times> string) option" where
  "scan_digits s = (let d = takeWhile is_digit_char s in if d = [] then None else Some (d, dropWhile is_digit_char s))"

text \<open>The digits before the point: a leading zero stands alone.\<close>

definition scan_integer :: "string \<Rightarrow> (string \<times> string) option" where
  "scan_integer s = (if prefix ''0'' s then Some (''0'', tl s) else scan_digits s)"

definition scan_fraction :: "string \<Rightarrow> (string \<times> string) option" where
  "scan_fraction s =
    (if prefix ''.'' s then map_option (map_prod (Cons (CHR ''.'')) id) (scan_digits (tl s)) else Some ([], s))"

definition scan_exponent :: "string \<Rightarrow> (string \<times> string) option" where
  "scan_exponent s =
    (if prefix ''e'' s \<or> prefix ''E'' s then
       (if prefix ''+'' (tl s) \<or> prefix ''-'' (tl s)
        then map_option (map_prod (\<lambda>d. take 2 s @ d) id) (scan_digits (drop 2 s))
        else map_option (map_prod (Cons (hd s)) id) (scan_digits (tl s)))
     else Some ([], s))"

definition scan_sign :: "string \<Rightarrow> string \<times> string" where
  "scan_sign s = (if prefix ''-'' s then (''-'', tl s) else ([], s))"

definition scan_number :: "string \<Rightarrow> (string \<times> string) option" where
  "scan_number s =
    (let (sign, s1) = scan_sign s in
     Option.bind (scan_integer s1) (\<lambda>(i, s2).
     Option.bind (scan_fraction s2) (\<lambda>(f, s3).
     map_option (\<lambda>(e, s4). (sign @ i @ f @ e, s4)) (scan_exponent s3))))"

text \<open>A literal or a number.\<close>

definition scan_scalar :: "string \<Rightarrow> (json \<times> string) option" where
  "scan_scalar s =
    (if prefix ''true'' s then Some (JBool True, drop 4 s)
     else if prefix ''false'' s then Some (JBool False, drop 5 s)
     else if prefix ''null'' s then Some (JNull, drop 4 s)
     else map_option (map_prod JNum id) (scan_number s))"

lemma skip_space_length: "length (skip_space s) \<le> length s"
  by (simp add: skip_space_def length_dropWhile_le)

lemma skip_space_Cons: "skip_space s = c # r \<Longrightarrow> length r < length s"
  using skip_space_length[of s] by simp

lemma skip_space_tl: "length b < length s \<Longrightarrow> 2 * (length (skip_space b) - Suc 0) < Suc (2 * length s)"
  using skip_space_length[of b] by linarith

subsection \<open>Documents\<close>

text \<open>
  A value with at most \<open>d\<close> containers around any scalar in it, after white space; what follows it
  is returned. \<open>json_elements\<close> and \<open>json_members\<close> read on to the closing bracket. The test that a
  value left less to read than there was makes the recursion well-founded.
\<close>

function json_value :: "nat \<Rightarrow> string \<Rightarrow> (json \<times> string) option"
  and json_elements :: "nat \<Rightarrow> string \<Rightarrow> (json list \<times> string) option"
  and json_members :: "nat \<Rightarrow> string \<Rightarrow> ((string \<times> json) list \<times> string) option" where
  "json_value d s =
    (case skip_space s of
       [] \<Rightarrow> None
     | c # r \<Rightarrow>
        if c = CHR ''['' then
          (if d = 0 then None
           else if prefix '']'' (skip_space r) then Some (JArr [], tl (skip_space r))
           else map_option (map_prod JArr id) (json_elements (d - 1) r))
        else if c = CHR ''{'' then
          (if d = 0 then None
           else if prefix ''}'' (skip_space r) then Some (JObj [], tl (skip_space r))
           else map_option (map_prod JObj id) (json_members (d - 1) r))
        else if c = quotation then map_option (map_prod (JStr \<circ> unquote) id) (scan_string r)
        else scan_scalar (c # r))"
| "json_elements d s =
    (case json_value d s of
       None \<Rightarrow> None
     | Some (v, r) \<Rightarrow>
        (case skip_space r of
           [] \<Rightarrow> None
         | c # r' \<Rightarrow>
            if c = CHR '']'' then Some ([v], r')
            else if c = CHR '','' \<and> length r' < length s
            then map_option (map_prod (Cons v) id) (json_elements d r')
            else None))"
| "json_members d s =
    (case skip_space s of
       [] \<Rightarrow> None
     | q # r0 \<Rightarrow>
        if q \<noteq> quotation then None
        else (case scan_string r0 of
          None \<Rightarrow> None
        | Some (k, r1) \<Rightarrow>
          if prefix '':'' (skip_space r1) \<and> length r1 < length s then
            (case json_value d (tl (skip_space r1)) of
               None \<Rightarrow> None
             | Some (v, r) \<Rightarrow>
                (case skip_space r of
                   [] \<Rightarrow> None
                 | c # r' \<Rightarrow>
                    if c = CHR ''}'' then Some ([(unquote k, v)], r')
                    else if c = CHR '','' \<and> length r' < length s
                    then map_option (map_prod (Cons (unquote k, v)) id) (json_members d r')
                    else None))
          else None))"
  by pat_completeness auto
termination
  by (relation "measure (\<lambda>x. case x of Inl (d, s) \<Rightarrow> 2 * length s
      | Inr (Inl (d, s)) \<Rightarrow> 2 * length s + 1 | Inr (Inr (d, s)) \<Rightarrow> 2 * length s + 1)")
    (auto dest!: skip_space_Cons simp: skip_space_tl)

declare json_value.simps [simp del] json_elements.simps [simp del] json_members.simps [simp del]

definition maxNestingDepth :: nat where
  "maxNestingDepth = 10000"

text \<open>\<open>json.Unmarshal\<close> checks that nothing follows the value.\<close>

definition json_syntax :: "string \<Rightarrow> json option" where
  "json_syntax s =
    (case json_value maxNestingDepth s of
       Some (v, r) \<Rightarrow> if skip_space r = [] then Some v else None
     | None \<Rightarrow> None)"

text \<open>
  \<open>json.Decoder\<close> takes the first value of a body and leaves the rest unread; the end of a scalar
  is only known from the byte after it, or from the end of the body.
\<close>

definition is_container :: "json \<Rightarrow> bool" where
  "is_container v = (case v of JArr _ \<Rightarrow> True | JObj _ \<Rightarrow> True | _ \<Rightarrow> False)"

definition first_value :: "body \<Rightarrow> json option" where
  "first_value b =
    (case json_value maxNestingDepth (bd_data b) of
       Some (v, r) \<Rightarrow> if r = [] \<and> bd_err b \<noteq> None \<and> \<not> is_container v then None else Some v
     | None \<Rightarrow> None)"

subsection \<open>Reading consumes\<close>

lemma scan_string_shorter: "scan_string s = Some (b, r) \<Longrightarrow> length r < length s"
  by (induction s arbitrary: b rule: scan_string.induct) (fastforce split: if_splits)+

lemma scan_digits_shorter: "scan_digits s = Some (d, r) \<Longrightarrow> length r < length s"
  by (cases s) (auto simp: scan_digits_def Let_def length_dropWhile_le le_imp_less_Suc split: if_splits)

lemma scan_integer_shorter: "scan_integer s = Some (i, r) \<Longrightarrow> length r < length s"
  using scan_digits_shorter[of s] by (cases s) (auto simp: scan_integer_def split: if_splits)

lemma scan_fraction_shorter: "scan_fraction s = Some (f, r) \<Longrightarrow> length r \<le> length s"
  using scan_digits_shorter[of "tl s"] by (fastforce simp: scan_fraction_def split: if_splits)

lemma scan_exponent_shorter: "scan_exponent s = Some (e, r) \<Longrightarrow> length r \<le> length s"
  using scan_digits_shorter[of "tl s"] scan_digits_shorter[of "drop 2 s"]
  by (fastforce simp: scan_exponent_def split: if_splits)

lemma scan_number_shorter: "scan_number s = Some (n, r) \<Longrightarrow> length r < length s"
proof -
  assume "scan_number s = Some (n, r)"
  then obtain i s2 f s3 e where "scan_integer (snd (scan_sign s)) = Some (i, s2)" "scan_fraction s2 = Some (f, s3)"
    "scan_exponent s3 = Some (e, r)"
    by (auto simp: scan_number_def Let_def split_beta bind_eq_Some_conv)
  moreover have "length (snd (scan_sign s)) \<le> length s" by (simp add: scan_sign_def)
  ultimately show ?thesis
    using scan_integer_shorter scan_fraction_shorter scan_exponent_shorter by fastforce
qed

lemma scan_scalar_shorter: "scan_scalar s = Some (v, r) \<Longrightarrow> length r < length s"
  using scan_number_shorter by (auto simp: scan_scalar_def split: if_splits dest!: prefix_length_le)

lemma json_shorter:
  "json_value d s = Some (v, r) \<Longrightarrow> length r < length s"
  "json_elements d s = Some (vs, r) \<Longrightarrow> length r < length s"
  "json_members d s = Some (ms, r) \<Longrightarrow> length r < length s"
proof (induction d s and d s and d s arbitrary: v r and vs r and ms r rule: json_value_json_elements_json_members.induct)
  case (1 d s)
  then obtain c t where s: "skip_space s = c # t"
    by (cases "skip_space s") (auto simp: json_value.simps)
  have t: "length t < length s" "length (c # t) \<le> length s" using s skip_space_Cons skip_space_length[of s] by auto
  have tl: "length (tl (skip_space t)) \<le> length t" using skip_space_length[of t] by simp
  have arr: "length r < length s" if "json_elements (d - 1) t = Some (vs, r)" "c = CHR ''[''" "d \<noteq> 0" "\<not> prefix '']'' (skip_space t)" for vs
    using "1.IH"(1)[OF s that(2,3,4,1)] t(1) by linarith
  have obj: "length r < length s" if "json_members (d - 1) t = Some (ms, r)" "c = CHR ''{''" "d \<noteq> 0" "\<not> prefix ''}'' (skip_space t)" for ms
    using "1.IH"(2)[OF s _ that(2,3,4,1)] that(2) t(1) by simp
  show ?case
    using "1.prems" arr obj s t tl scan_string_shorter[of t] scan_scalar_shorter[of "c # t"]
    by (auto simp: json_value.simps split: if_splits)
next
  case (2 d s)
  obtain v1 r1 c t where s: "json_value d s = Some (v1, r1)" "skip_space r1 = c # t"
    "c = CHR '']'' \<and> r = t \<or> c = CHR '','' \<and> length t < length s \<and> (\<exists>ws. json_elements d t = Some (ws, r))"
    using "2.prems" by (auto simp: json_elements.simps[of d s] split: option.splits list.splits if_splits)
  have "length t < length s" using "2.IH"(1)[OF s(1)] skip_space_Cons[OF s(2)] by linarith
  then show ?case
    using s(3) "2.IH"(2)[OF s(1) refl s(2)] by (fastforce dest: less_trans)
next
  case (3 d s)
  obtain q r0 k r1 v1 r2 c t where s: "skip_space s = q # r0" "scan_string r0 = Some (k, r1)" "q = quotation"
    "prefix '':'' (skip_space r1)" "length r1 < length s"
    "json_value d (tl (skip_space r1)) = Some (v1, r2)" "skip_space r2 = c # t"
    "c = CHR ''}'' \<and> r = t \<or> c = CHR '','' \<and> length t < length s \<and> (\<exists>ws. json_members d t = Some (ws, r))"
    using "3.prems" by (auto simp: json_members.simps[of d s] split: option.splits list.splits if_splits)
  have "length r2 < length (tl (skip_space r1))"
    using "3.IH"(1)[OF s(1) _ s(2) refl _ s(6)] s(3,4,5) by simp
  then have "length t < length s"
    using skip_space_Cons[OF s(7)] skip_space_length[of r1] s(5) by simp
  then show ?case
    using s(8) "3.IH"(2)[OF s(1) _ s(2) refl _ s(6) refl s(7)] s(3,4,5) by (fastforce dest: less_trans)
qed

text \<open>The recursion of the reader, without the checks.\<close>

lemma json_elements_step:
  "json_elements d s =
    (case json_value d s of
       None \<Rightarrow> None
     | Some (v, r) \<Rightarrow>
         if prefix '']'' (skip_space r) then Some ([v], tl (skip_space r))
         else if prefix '','' (skip_space r)
         then map_option (map_prod (Cons v) id) (json_elements d (tl (skip_space r)))
         else None)"
  by (subst json_elements.simps)
    (auto split: option.split list.split dest!: json_shorter skip_space_Cons)

lemma json_members_step:
  "json_members d s =
    (if prefix [quotation] (skip_space s) then
       (case scan_string (tl (skip_space s)) of
          None \<Rightarrow> None
        | Some (k, r1) \<Rightarrow>
          if prefix '':'' (skip_space r1) then
            (case json_value d (tl (skip_space r1)) of
               None \<Rightarrow> None
             | Some (v, r) \<Rightarrow>
                if prefix ''}'' (skip_space r) then Some ([(unquote k, v)], tl (skip_space r))
                else if prefix '','' (skip_space r)
                then map_option (map_prod (Cons (unquote k, v)) id) (json_members d (tl (skip_space r)))
                else None)
          else None)
     else None)"
proof (cases "skip_space s")
  case (Cons q r0)
  have short: "length r1 < length s" if "scan_string r0 = Some (k, r1)" for k r1
    using scan_string_shorter[OF that] skip_space_Cons[OF Cons] by simp
  have short': "length r' < length s"
    if "scan_string r0 = Some (k, r1)" "json_value d (tl (skip_space r1)) = Some (v, r)" "skip_space r = c # r'" for k r1 v r c r'
    using short[OF that(1)] json_shorter(1)[OF that(2)] skip_space_length[of r1] skip_space_Cons[OF that(3)] by simp
  show ?thesis
    by (subst json_members.simps) (auto simp: Cons short short' split: option.split list.split)
qed (simp add: json_members.simps[of d s])

subsection \<open>Decoding JSON documents\<close>

text \<open>
  A member matches a struct field by its exact name or up to the letter case; U+017F and
  U+212A are the two other runes that fold to an ASCII letter.
\<close>

definition fold_key :: "string \<Rightarrow> rune list" where
  "fold_key k = map (\<lambda>r. if 97 \<le> r \<and> r \<le> 122 then r - 32
      else if r = 0x17F then 83 else if r = 0x212A then 75 else r) (utf8_decode k)"

definition key_is :: "string \<Rightarrow> string \<Rightarrow> bool" where
  "key_is name k \<longleftrightarrow> k = name \<or> fold_key k = fold_key name"

text \<open>The values given for a field, in document order: the decoder applies them in turn.\<close>

definition members :: "string \<Rightarrow> (string \<times> json) list \<Rightarrow> json list" where
  "members name ms = map snd (filter (\<lambda>m. key_is name (fst m)) ms)"

text \<open>
  A value of the wrong type makes \<open>Unmarshal\<close> return an error once it has finished; \<open>null\<close>
  leaves the field as it is.
\<close>

definition str_type :: "json \<Rightarrow> bool" where
  "str_type v = (case v of JStr _ \<Rightarrow> True | JNull \<Rightarrow> True | _ \<Rightarrow> False)"

definition bool_type :: "json \<Rightarrow> bool" where
  "bool_type v = (case v of JBool _ \<Rightarrow> True | JNull \<Rightarrow> True | _ \<Rightarrow> False)"

definition str_member :: "string \<Rightarrow> (string \<times> json) list \<Rightarrow> string" where
  "str_member name ms = fold (\<lambda>v s. case v of JStr t \<Rightarrow> t | _ \<Rightarrow> s) (members name ms) []"

definition bool_member :: "string \<Rightarrow> (string \<times> json) list \<Rightarrow> bool" where
  "bool_member name ms = fold (\<lambda>v b. case v of JBool t \<Rightarrow> t | _ \<Rightarrow> b) (members name ms) False"

text \<open>A \<open>json.RawMessage\<close> field takes every value, \<open>null\<close> included; absent is \<open>None\<close>.\<close>

definition raw_member :: "string \<Rightarrow> (string \<times> json) list \<Rightarrow> json option" where
  "raw_member name ms = fold (\<lambda>v _. Some v) (members name ms) None"

definition well_typed :: "string list \<Rightarrow> string list \<Rightarrow> (string \<times> json) list \<Rightarrow> bool" where
  "well_typed strs bools ms \<longleftrightarrow>
    list_all (\<lambda>n. list_all str_type (members n ms)) strs
    \<and> list_all (\<lambda>n. list_all bool_type (members n ms)) bools"

text \<open>The members of the document given to a struct: \<open>null\<close> is the empty struct's worth.\<close>

definition struct_members :: "json \<Rightarrow> (string \<times> json) list option" where
  "struct_members j = (case j of JObj ms \<Rightarrow> Some ms | JNull \<Rightarrow> Some [] | _ \<Rightarrow> None)"

subsection \<open>What is left of the standard library\<close>

text \<open>
  \<open>json_text\<close> renders the error that \<open>Unmarshal\<close> returns for
  a document it refuses, \<open>url_text\<close> that of \<open>url.Parse\<close> for a URL it refuses; \<open>print_table\<close> is the table
  of the printable runes above U+00FF, for \<open>%q\<close>.
\<close>

record stdlib =
  json_text :: "string \<Rightarrow> string"
  url_text :: "string \<Rightarrow> string"
  print_table :: "rune \<Rightarrow> bool"

definition unmarshal :: "stdlib \<Rightarrow> string list \<Rightarrow> string list \<Rightarrow> string \<Rightarrow> string + (string \<times> json) list" where
  "unmarshal L strs bools b =
    (case json_syntax b of
       None \<Rightarrow> Inl (json_text L b)
     | Some j \<Rightarrow> (case struct_members j of
           None \<Rightarrow> Inl (json_text L b)
         | Some ms \<Rightarrow> if well_typed strs bools ms then Inr ms else Inl (json_text L b)))"

subsection \<open>Lists of structs\<close>

text \<open>
  Decoding into a field \<open>list\<close> of structs with one string field \<open>name\<close>: an element keeps what
  the slice held there where the document says nothing.
\<close>

definition element_type :: "string \<Rightarrow> json \<Rightarrow> bool" where
  "element_type name v = (case struct_members v of None \<Rightarrow> False | Some ms \<Rightarrow> well_typed [name] [] ms)"

definition decode_element :: "string \<Rightarrow> json \<Rightarrow> string \<Rightarrow> string" where
  "decode_element name v old =
    fold (\<lambda>x s. case x of JStr t \<Rightarrow> t | _ \<Rightarrow> s) (members name (the (struct_members v))) old"

definition elements_type :: "string \<Rightarrow> json \<Rightarrow> bool" where
  "elements_type name v =
    (case v of JArr xs \<Rightarrow> list_all (element_type name) xs | JNull \<Rightarrow> True | _ \<Rightarrow> False)"

definition decode_elements :: "string \<Rightarrow> json \<Rightarrow> string list \<Rightarrow> string list" where
  "decode_elements name v old =
    (case v of
       JArr xs \<Rightarrow> map (\<lambda>(i, x). decode_element name x (if i < length old then old ! i else [])) (enumerate 0 xs)
     | JNull \<Rightarrow> [] | _ \<Rightarrow> old)"

end
