(* ===== verification/Go_Errors.thy ===== *)
theory Go_Errors
  imports Go_Text
begin

text \<open>
  Errors as Go has them: a value with a text that may wrap other errors. The sentinels are the
  exported error variables that the packages \<open>bandwidth\<close>, \<open>egresshealth\<close>, \<open>geolocate\<close> and
  \<open>ingest\<close> declare and that callers recognise with \<open>errors.Is\<close>; a name that two packages use
  carries its package. The lemmas compute \<open>errors.Is\<close> and the text of a wrapped error.
\<close>

datatype sentinel =
    bandwidth_ErrNoBudget | bandwidth_ErrUnsupported | ErrNoSample
  | health_ErrUnsupported | health_ErrNoBudget | geolocate_ErrNoConsensus
  | ErrNotConfident | ErrIncompleteCountry | ErrRejected | ErrMissingProbedAt
  | ErrDueUnsupported | ErrAttemptUnsupported | ErrUnauthorized | ErrPinsUnavailable

datatype err =
    ErrorString string           \<comment> \<open>an error no sentinel recognises\<close>
  | Sentinel sentinel
  | Wrap "err list" string       \<comment> \<open>\<open>fmt.Errorf\<close>: the errors given to \<open>%w\<close>, and the text\<close>

fun sentinel_text :: "sentinel \<Rightarrow> string" where
  "sentinel_text bandwidth_ErrNoBudget = ''bandwidth: no active-probe byte budget for this hour''"
| "sentinel_text bandwidth_ErrUnsupported =
     ''bandwidth: the server does not implement the provider bandwidth endpoints''"
| "sentinel_text ErrNoSample = ''bandwidth: no bytes transferred, cannot compute a rate''"
| "sentinel_text health_ErrUnsupported =
     ''egresshealth: the server does not implement the provider egress health endpoint''"
| "sentinel_text health_ErrNoBudget =
     ''egresshealth: the context was already done before any check ran''"
| "sentinel_text geolocate_ErrNoConsensus = ''geolocate: fewer than MinSources sources responded''"
| "sentinel_text ErrNotConfident = ''ingest: result is not country-confident''"
| "sentinel_text ErrIncompleteCountry =
     ''ingest: country-confident result needs an alpha-2 code and a non-empty country name''"
| "sentinel_text ErrRejected = ''ingest: server rejected the submission''"
| "sentinel_text ErrMissingProbedAt = ''ingest: loc.ProbedAt is zero''"
| "sentinel_text ErrDueUnsupported =
     ''ingest: the server does not implement /network/provider-egress-due''"
| "sentinel_text ErrAttemptUnsupported =
     ''ingest: the server does not implement /network/provider-egress-attempt''"
| "sentinel_text ErrUnauthorized = ''ingest: the server rejected the operator secret''"
| "sentinel_text ErrPinsUnavailable =
     ''ingest: could not get the geolocation certificate pins from the server''"

text \<open>\<open>err.Error()\<close>\<close>

fun Error :: "err \<Rightarrow> string" where
  "Error (ErrorString s) = s"
| "Error (Sentinel s) = sentinel_text s"
| "Error (Wrap es s) = s"

text \<open>\<open>errors.Is\<close> against a sentinel.\<close>

fun Is :: "err \<Rightarrow> sentinel \<Rightarrow> bool" where
  "Is (ErrorString s) t = False"
| "Is (Sentinel s) t = (s = t)"
| "Is (Wrap es s) t = list_ex (\<lambda>e. Is e t) es"

text \<open>\<open>fmt.Errorf("%w" + text, sentinel, ...)\<close>, the form every wrapped sentinel has.\<close>

definition wrapf :: "sentinel \<Rightarrow> string \<Rightarrow> err" where
  "wrapf s text = Wrap [Sentinel s] (sentinel_text s @ text)"

lemma Is_wrapf [simp]: "Is (wrapf s text) t \<longleftrightarrow> s = t"
  by (simp add: wrapf_def)

lemma Error_wrapf [simp]: "Error (wrapf s text) = sentinel_text s @ text"
  by (simp add: wrapf_def)

end
