(* ===== verification/Go_Json.thy ===== *)
theory Go_Json
  imports Go_Json_Read Go_Errors
begin

text \<open>
  \<open>json.Marshal\<close> of the documents the program sends: strings with the escapes of
  \<open>encoding/json\<close> (HTML-safe, invalid UTF-8 replaced), objects in field order. The lemmas show
  that a reader gets back what was written.
\<close>

definition escape_ascii :: "rune \<Rightarrow> string" where
  "escape_ascii r =
    (if r = 0x5C \<or> r = 0x22 then [CHR 0x5C, char_of r]
     else if r = 0x08 then [CHR 0x5C, CHR ''b'']
     else if r = 0x0C then [CHR 0x5C, CHR ''f'']
     else if r = 0x0A then [CHR 0x5C, CHR ''n'']
     else if r = 0x0D then [CHR 0x5C, CHR ''r'']
     else if r = 0x09 then [CHR 0x5C, CHR ''t'']
     else if r < 0x20 \<or> r = 0x3C \<or> r = 0x3E \<or> r = 0x26
     then [CHR 0x5C, CHR ''u'', CHR ''0'', CHR ''0'', hex_digit (r div 16), hex_digit (r mod 16)]
     else [char_of r])"

definition escape_chunk :: "rune \<times> string \<Rightarrow> string" where
  "escape_chunk c =
    (let (r, bytes) = c in
     if r < 128 then escape_ascii r
     else if r = RuneError \<and> length bytes = 1 then CHR 0x5C # ''ufffd''
     else if r = 0x2028 then CHR 0x5C # ''u2028''
     else if r = 0x2029 then CHR 0x5C # ''u2029''
     else bytes)"

definition marshal_string :: "string \<Rightarrow> string" where
  "marshal_string s = CHR 0x22 # concat (map escape_chunk (chunks s)) @ [CHR 0x22]"

fun marshal :: "json \<Rightarrow> string" where
  "marshal JNull = ''null''"
| "marshal (JBool b) = (if b then ''true'' else ''false'')"
| "marshal (JNum s) = s"
| "marshal (JStr s) = marshal_string s"
| "marshal (JArr xs) = CHR ''['' # Join (map marshal xs) '','' @ '']''"
| "marshal (JObj ms) =
     CHR ''{'' # Join (map (\<lambda>(k, v). marshal_string k @ CHR '':'' # marshal v) ms) '','' @ ''}''"

text \<open>A decimal integer, as \<open>strconv.Itoa\<close> and \<open>json.Marshal\<close> write it.\<close>

definition show_int :: "int \<Rightarrow> string" where
  "show_int n = (if n < 0 then CHR ''-'' # Itoa (nat (- n)) else Itoa (nat n))"

text \<open>A member that \<open>omitempty\<close> leaves out when its value is the zero value.\<close>

definition omit :: "bool \<Rightarrow> string \<Rightarrow> json \<Rightarrow> (string \<times> json) list" where
  "omit absent name v = (if absent then [] else [(name, v)])"

lemma omit_simps [simp]: "omit True n v = []" "omit False n v = [(n, v)]"
  by (simp_all add: omit_def)

subsection \<open>What is written is read\<close>

lemma hex_digit_hex: "n < 16 \<Longrightarrow> is_hex (hex_digit n) \<and> unhex (hex_digit n) = n"
  by (auto simp: hex_digit_def is_hex_def in_rng_def unhex_def)

lemma scan_plain:
  assumes "c \<noteq> quotation" "c \<noteq> backslash" "32 \<le> (of_char c :: nat)" 
  shows "scan_string (c # t) = map_option (map_prod (Cons c) id) (scan_string t)"
  using assms by (cases t) (auto simp: map_prod_def)

lemma scan_wide:
  assumes "list_all (\<lambda>x. 128 \<le> (of_char x :: nat)) bs"
  shows "scan_string (bs @ t) = map_option (map_prod (append bs) id) (scan_string t)"
  using assms
proof (induction bs)
  case (Cons b bs)
  have "b \<noteq> quotation" "b \<noteq> backslash" using Cons.prems by auto
  then show ?case using Cons scan_plain[of b "bs @ t"] by (simp add: option.map_comp comp_def map_prod_def split_beta)
qed (cases "scan_string t", auto)

lemma scan_escape:
  assumes "e \<in> set ''bfnrt/'' \<or> e = backslash \<or> e = quotation"
  shows "scan_string (backslash # e # t) = map_option (map_prod (append [backslash, e]) id) (scan_string t)"
  using assms by (cases t) (auto simp: map_prod_def)

lemma scan_u:
  assumes "is_hex a" "is_hex b" "is_hex c" "is_hex d"
  shows "scan_string (backslash # CHR ''u'' # a # b # c # d # t)
    = map_option (map_prod (append [backslash, CHR ''u'', a, b, c, d]) id) (scan_string t)"
proof -
  have "x \<noteq> quotation \<and> x \<noteq> backslash \<and> 32 \<le> (of_char x :: nat)" if "is_hex x" for x
    using that by (auto simp: is_hex_def in_rng_def)
  from this[OF assms(1)] this[OF assms(2)] this[OF assms(3)] this[OF assms(4)] show ?thesis
    using assms scan_plain[of a] scan_plain[of b] scan_plain[of c] scan_plain[of d] by (cases "scan_string t") auto
qed

lemma unquote_u:
  assumes "\<not> IsSurrogate (hex4 [a, b, c, d])"
  shows "unquote (backslash # CHR ''u'' # a # b # c # d # t) = encode_rune (hex4 [a, b, c, d]) @ unquote t"
  using assms by (simp add: unquote.simps(2) hex4_def Let_def)

lemma unquote_escape: "e \<noteq> CHR ''u'' \<Longrightarrow> unquote (backslash # e # t) = unescape_char e # unquote t"
  by (simp add: unquote.simps(2))

lemma unquote_ascii: "c \<noteq> backslash \<Longrightarrow> of_char c < (128 :: nat) \<Longrightarrow> unquote (c # t) = c # unquote t"
  by (simp add: unquote.simps(2))

lemma escape_ascii_cases:
  assumes "r < 128"
  obtains (short) e where "escape_ascii r = [backslash, e]" "e \<in> set ''bfnrt/'' \<or> e = backslash \<or> e = quotation" "unescape_char e = char_of r"
    | (long) "escape_ascii r = [backslash, CHR ''u'', CHR ''0'', CHR ''0'', hex_digit (r div 16), hex_digit (r mod 16)]"
    | (plain) "escape_ascii r = [char_of r]" "r \<noteq> 34" "r \<noteq> 92" "32 \<le> r"
proof -
  consider "r = 92" | "r = 34" | "r = 8" | "r = 12" | "r = 10" | "r = 13" | "r = 9"
    | "r \<notin> {92, 34, 8, 12, 10, 13, 9}" "r < 32 \<or> r = 60 \<or> r = 62 \<or> r = 38"
    | "r \<notin> {92, 34, 8, 12, 10, 13, 9}" "\<not> (r < 32 \<or> r = 60 \<or> r = 62 \<or> r = 38)" by fastforce
  then show ?thesis
    by cases (use short long plain in \<open>auto simp: escape_ascii_def unescape_char_def char_of_ascii_table\<close>)
qed

lemma hex4_digits: "r < 128 \<Longrightarrow> hex4 [CHR ''0'', CHR ''0'', hex_digit (r div 16), hex_digit (r mod 16)] = r"
  using hex_digit_hex[of "r div 16"] hex_digit_hex[of "r mod 16"] by (simp add: hex4_def unhex_def in_rng_def)

text \<open>A chunk that is written is scanned as it stands, and decoded to its rune.\<close>

lemma escape_ascii_read:
  assumes ascii: "r < 128"
  shows "scan_string (escape_chunk (r, bytes) @ t) = map_option (map_prod (append (escape_chunk (r, bytes))) id) (scan_string t)
    \<and> unquote (escape_chunk (r, bytes) @ t) = encode_rune r @ unquote t"
proof -
  have enc: "encode_rune r = [char_of r]" by (rule encode_rune_ascii[OF ascii])
  from ascii show ?thesis
  proof (cases rule: escape_ascii_cases)
    case (short e)
    then show ?thesis using ascii enc scan_escape[of e t] unquote_escape[of e t]
      by (auto simp: escape_chunk_def)
  next
    case long
    have "is_hex (CHR ''0'')" "is_hex (hex_digit (r div 16))" "is_hex (hex_digit (r mod 16))"
      using hex_digit_hex[of "r div 16"] hex_digit_hex[of "r mod 16"] ascii by (auto simp: is_hex_def in_rng_def)
    moreover have "\<not> IsSurrogate r" using ascii by (simp add: IsSurrogate_def)
    ultimately show ?thesis
      using long ascii enc scan_u[of "CHR ''0''" "CHR ''0''" "hex_digit (r div 16)" "hex_digit (r mod 16)" t]
        unquote_u[of "CHR ''0''" "CHR ''0''" "hex_digit (r div 16)" "hex_digit (r mod 16)" t] hex4_digits[OF ascii]
      by (simp add: escape_chunk_def)
  next
    case plain
    have c: "(of_char (char_of r :: char) :: nat) = r" using ascii by simp
    have "(char_of r :: char) \<noteq> x" if "of_char x \<noteq> r" for x :: char using c that by auto
    from this[of quotation] this[of backslash] have "(char_of r :: char) \<noteq> quotation" "(char_of r :: char) \<noteq> backslash"
      using plain(2,3) by simp_all
    then show ?thesis
      using plain c ascii enc scan_plain[of "char_of r" t] unquote_ascii[of "char_of r" t] by (cases "scan_string t") (auto simp: escape_chunk_def)
  qed
qed

lemma escape_bad_read:
  assumes bad: "r = RuneError" "length bytes = 1"
  shows "scan_string (escape_chunk (r, bytes) @ t) = map_option (map_prod (append (escape_chunk (r, bytes))) id) (scan_string t)
    \<and> unquote (escape_chunk (r, bytes) @ t) = encode_rune r @ unquote t"
proof -
  have h: "hex4 ''fffd'' = RuneError" "is_hex (CHR ''f'')" "is_hex (CHR ''d'')"
    by (simp_all add: hex4_def unhex_def in_rng_def RuneError_def is_hex_def)
  then show ?thesis
    using bad scan_u[of "CHR ''f''" "CHR ''f''" "CHR ''f''" "CHR ''d''" t] unquote_u[of "CHR ''f''" "CHR ''f''" "CHR ''f''" "CHR ''d''" t]
    by (simp add: escape_chunk_def RuneError_def IsSurrogate_def)
qed

lemma escape_wide_read:
  assumes wide: "128 \<le> r" "bytes = c # cs" "cs \<noteq> []" "list_all (\<lambda>x. 128 \<le> (of_char x :: nat)) bytes"
    "\<And>t. decode_rune (bytes @ t) = (r, length bytes)"
  shows "scan_string (escape_chunk (r, bytes) @ t) = map_option (map_prod (append (escape_chunk (r, bytes))) id) (scan_string t)
    \<and> unquote (escape_chunk (r, bytes) @ t) = encode_rune r @ unquote t"
proof -
  have two: "length bytes \<noteq> 1" using wide(2,3) by simp
  have h: "hex4 ''2028'' = 0x2028" "hex4 ''2029'' = 0x2029" "\<And>x. x \<in> set ''2089'' \<Longrightarrow> is_hex x"
    by (auto simp: hex4_def unhex_def in_rng_def is_hex_def)
  have "scan_string (bytes @ t) = map_option (map_prod (append bytes) id) (scan_string t)"
    using scan_wide[OF wide(4)] .
  moreover have "unquote (bytes @ t) = encode_rune r @ unquote t"
  proof -
    have "c \<noteq> backslash" "\<not> of_char c < (128 :: nat)" using wide(2,4) by auto
    moreover have "decode_rune (c # cs @ t) = (r, Suc (length cs))" using wide(5)[of t] wide(2) by simp
    ultimately show ?thesis by (simp add: wide(2) unquote.simps(2))
  qed
  ultimately show ?thesis
    using wide(1) two h scan_u[of "CHR ''2''" "CHR ''0''" "CHR ''2''" "CHR ''8''" t] scan_u[of "CHR ''2''" "CHR ''0''" "CHR ''2''" "CHR ''9''" t]
      unquote_u[of "CHR ''2''" "CHR ''0''" "CHR ''2''" "CHR ''8''" t] unquote_u[of "CHR ''2''" "CHR ''0''" "CHR ''2''" "CHR ''9''" t]
    by (simp add: escape_chunk_def IsSurrogate_def)
qed

lemma escape_chunk_read:
  assumes "(r, bytes) \<in> set (chunks s)"
  shows "scan_string (escape_chunk (r, bytes) @ t) = map_option (map_prod (append (escape_chunk (r, bytes))) id) (scan_string t)"
    "unquote (escape_chunk (r, bytes) @ t) = encode_rune r @ unquote t"
  using chunk_cases[OF assms] escape_ascii_read[of r bytes t] escape_bad_read[of r bytes t] escape_wide_read[of r bytes _ _ t]
  by metis+

text \<open>What a reader gets of a string that was written: every byte that is not UTF-8 is replaced.\<close>

definition utf8_text :: "string \<Rightarrow> string" where
  "utf8_text s = utf8_encode (utf8_decode s)"

lemma escaped_read:
  "set cks \<subseteq> set (chunks s) \<Longrightarrow>
    scan_string (concat (map escape_chunk cks) @ quotation # t) = Some (concat (map escape_chunk cks), t)
    \<and> unquote (concat (map escape_chunk cks)) = utf8_encode (map fst cks)"
proof (induction cks)
  case (Cons p cks)
  obtain r bytes where p: "p = (r, bytes)" by fastforce
  then have mem: "(r, bytes) \<in> set (chunks s)" using Cons.prems by simp
  show ?case
    using Cons escape_chunk_read(1)[OF mem, of "concat (map escape_chunk cks) @ quotation # t"]
      escape_chunk_read(2)[OF mem, of "concat (map escape_chunk cks)"]
    by (simp add: p utf8_encode_def)
next
  case Nil
  show ?case by (cases t) simp_all
qed

lemma marshal_string_read:
  "\<exists>b. marshal_string s @ t = quotation # b @ quotation # t \<and> scan_string (b @ quotation # t) = Some (b, t)
    \<and> unquote b = utf8_text s"
  using escaped_read[of "chunks s" s t]
  by (intro exI[of _ "concat (map escape_chunk (chunks s))"]) (simp add: marshal_string_def utf8_text_def utf8_decode_def)

text \<open>
  Documents that can be written: the numbers are numbers, and the containers are not nested too
  deep. \<open>clean\<close> is what a reader makes of one.
\<close>

definition number_text :: "string \<Rightarrow> bool" where
  "number_text s \<longleftrightarrow> s \<noteq> [] \<and> (\<forall>t. t = [] \<or> hd t \<in> set '',]}'' \<longrightarrow> scan_number (s @ t) = Some (s, t))"

fun writable :: "nat \<Rightarrow> json \<Rightarrow> bool" where
  "writable d (JNum s) = number_text s"
| "writable d (JArr xs) = (0 < d \<and> list_all (writable (d - 1)) xs)"
| "writable d (JObj ms) = (0 < d \<and> list_all (\<lambda>(k, v). writable (d - 1) v) ms)"
| "writable d _ = True"

fun clean :: "json \<Rightarrow> json" where
  "clean (JStr s) = JStr (utf8_text s)"
| "clean (JArr xs) = JArr (map clean xs)"
| "clean (JObj ms) = JObj (map (\<lambda>(k, v). (utf8_text k, clean v)) ms)"
| "clean v = v"

definition stops :: "string \<Rightarrow> bool" where
  "stops t \<longleftrightarrow> t = [] \<or> hd t \<in> set '',]}''"

lemma number_start:
  assumes "scan_number s = Some (n, r)"
  shows "\<exists>c cs. s = c # cs \<and> (c = CHR ''-'' \<or> is_digit_char c)"
proof -
  obtain i s2 where "scan_integer (snd (scan_sign s)) = Some (i, s2)"
    using assms by (auto simp: scan_number_def Let_def split_beta bind_eq_Some_conv)
  then show ?thesis
    by (cases s) (auto simp: scan_sign_def scan_integer_def scan_digits_def Let_def is_digit_char_def in_rng_def split: if_splits)
qed

lemma skip_space_solid: "\<not> json_space c \<Longrightarrow> skip_space (c # s) = c # s"
  by (simp add: skip_space_def)

lemma json_value_scalar:
  assumes "\<not> json_space c" "c \<notin> set ''[{'' \<and> c \<noteq> quotation" "scan_scalar (c # r) = Some (v, t)"
  shows "json_value d (c # r) = Some (v, t)"
  using assms by (simp add: json_value.simps skip_space_solid)

lemma literal_read:
  "json_value d (''true'' @ t) = Some (JBool True, t)" "json_value d (''false'' @ t) = Some (JBool False, t)"
  "json_value d (''null'' @ t) = Some (JNull, t)"
  by (simp_all add: json_value_scalar json_space_def scan_scalar_def)

lemma number_read:
  assumes "number_text s" "stops t"
  shows "json_value d (s @ t) = Some (JNum s, t)"
proof -
  have n: "scan_number (s @ t) = Some (s, t)" "s \<noteq> []" using assms by (auto simp: number_text_def stops_def)
  then obtain c cs where c: "s = c # cs" "c = CHR ''-'' \<or> is_digit_char c"
    using number_start[OF n(1)] by (cases s) auto
  have "\<not> json_space c" "c \<notin> set ''[{'' \<and> c \<noteq> quotation" "c \<notin> set ''tfn''"
    using c(2) by (auto simp: json_space_def is_digit_char_def in_rng_def)
  then show ?thesis
    using n(1) c(1) by (auto simp: scan_scalar_def intro!: json_value_scalar)
qed

lemma string_read: "json_value d (marshal_string s @ t) = Some (JStr (utf8_text s), t)"
  using marshal_string_read[of s t] by (auto simp: json_value.simps skip_space_def json_space_def)

lemma elements_read:
  assumes "xs \<noteq> []"
    and "\<And>x t. x \<in> set xs \<Longrightarrow> stops t \<Longrightarrow> json_value d (marshal x @ t) = Some (clean x, t)"
  shows "json_elements d (Join (map marshal xs) '','' @ '']'' @ t) = Some (map clean xs, t)"
  using assms
proof (induction xs)
  case (Cons x xs)
  have one: "json_value d (marshal x @ u) = Some (clean x, u)" if "stops u" for u using Cons.prems(2) that by simp
  have sp: "skip_space (c # u) = c # u" if "c \<in> set '',]''" for c u
    using that by (auto simp: skip_space_def json_space_def)
  show ?case
  proof (cases "xs = []")
    case True
    then show ?thesis using one[of "'']'' @ t"] sp by (simp add: json_elements_step stops_def)
  next
    case False
    then have "Join (map marshal (x # xs)) '','' = marshal x @ '','' @ Join (map marshal xs) '',''"
      by (cases xs) simp_all
    then show ?thesis
      using one[of "'','' @ Join (map marshal xs) '','' @ '']'' @ t"] Cons.IH[OF False] Cons.prems(2) sp
      by (subst json_elements_step) (simp add: stops_def)
  qed
qed simp

definition marshal_member :: "string \<times> json \<Rightarrow> string" where
  "marshal_member m = marshal_string (fst m) @ CHR '':'' # marshal (snd m)"

lemma members_read:
  assumes "ms \<noteq> []"
    and "\<And>m t. m \<in> set ms \<Longrightarrow> stops t \<Longrightarrow> json_value d (marshal (snd m) @ t) = Some (clean (snd m), t)"
  shows "json_members d (Join (map marshal_member ms) '','' @ ''}'' @ t) = Some (map (\<lambda>(k, v). (utf8_text k, clean v)) ms, t)"
  using assms
proof (induction ms)
  case (Cons m ms)
  have one: "json_value d (marshal (snd m) @ u) = Some (clean (snd m), u)" if "stops u" for u using Cons.prems(2) that by simp
  have sp: "skip_space (c # u) = c # u" if "c \<in> set '',}:'' \<or> c = quotation" for c u
    using that by (auto simp: skip_space_def json_space_def)
  have key: "json_members d (marshal_member m @ u) =
      (if prefix ''}'' (skip_space u) then Some ([(utf8_text (fst m), clean (snd m))], tl (skip_space u))
       else if prefix '','' (skip_space u)
       then map_option (map_prod (Cons (utf8_text (fst m), clean (snd m))) id) (json_members d (tl (skip_space u)))
       else None)" if u: "stops u" for u
  proof -
    obtain b where "marshal_string (fst m) @ CHR '':'' # marshal (snd m) @ u = quotation # b @ quotation # CHR '':'' # marshal (snd m) @ u"
      "scan_string (b @ quotation # CHR '':'' # marshal (snd m) @ u) = Some (b, CHR '':'' # marshal (snd m) @ u)"
      "unquote b = utf8_text (fst m)"
      using marshal_string_read[of "fst m" "CHR '':'' # marshal (snd m) @ u"] by blast
    then show ?thesis
      using one[OF u] by (subst json_members_step) (simp add: marshal_member_def sp)
  qed
  show ?case
  proof (cases "ms = []")
    case True
    then show ?thesis using key[of "''}'' @ t"] sp by (simp add: stops_def split_beta)
  next
    case False
    then have "Join (map marshal_member (m # ms)) '','' = marshal_member m @ '','' @ Join (map marshal_member ms) '',''"
      by (cases ms) simp_all
    then show ?thesis
      using key[of "'','' @ Join (map marshal_member ms) '','' @ ''}'' @ t"] Cons.IH[OF False] Cons.prems(2) sp
      by (simp add: stops_def split_beta)
  qed
qed simp

lemma value_not_closing:
  assumes "json_value d s = Some p"
  shows "\<not> prefix '']'' (skip_space s)"
proof
  assume "prefix '']'' (skip_space s)"
  then obtain r where s: "skip_space s = CHR '']'' # r" by (auto simp: prefix_def)
  have "scan_number (CHR '']'' # r) \<noteq> Some q" for q
    using number_start[of "CHR '']'' # r" "fst q" "snd q"] by (auto simp: is_digit_char_def in_rng_def)
  then have "scan_number (CHR '']'' # r) = None" by (cases "scan_number (CHR '']'' # r)") blast+
  then have "scan_scalar (CHR '']'' # r) = None" by (simp add: scan_scalar_def)
  then show False using assms by (simp add: json_value.simps s)
qed

lemma marshal_read: "writable d j \<Longrightarrow> stops t \<Longrightarrow> json_value d (marshal j @ t) = Some (clean j, t)"
proof (induction j arbitrary: d t)
  case (JArr xs)
  have el: "json_value (d - 1) (marshal x @ u) = Some (clean x, u)" if "x \<in> set xs" "stops u" for x u
    using JArr.IH[OF that(1), of "d - 1" u] JArr.prems(1) that by (simp add: list_all_iff)
  have d: "d \<noteq> 0" using JArr.prems(1) by simp
  show ?case
  proof (cases xs)
    case Nil
    then show ?thesis using d by (simp add: json_value.simps skip_space_def json_space_def)
  next
    case (Cons x ys)
    let ?r = "Join (map marshal xs) '','' @ '']'' @ t"
    have "json_elements (d - 1) ?r = Some (map clean xs, t)" using Cons el by (intro elements_read) simp_all
    moreover from this obtain p where "json_value (d - 1) ?r = Some p"
      by (cases "json_value (d - 1) ?r") (simp_all add: json_elements.simps[of "d - 1" ?r] del: append.simps One_nat_def)
    then have "\<not> prefix '']'' (skip_space ?r)" by (rule value_not_closing)
    ultimately show ?thesis using d by (simp add: json_value.simps skip_space_solid json_space_def)
  qed
next
  case (JObj ms)
  have el: "json_value (d - 1) (marshal (snd m) @ u) = Some (clean (snd m), u)" if "m \<in> set ms" "stops u" for m u
    using JObj.IH[OF that(1), of "snd m" "d - 1" u] JObj.prems(1) that
    by (fastforce simp: list_all_iff snds.simps)
  have d: "d \<noteq> 0" using JObj.prems(1) by simp
  have m: "marshal (JObj ms) = CHR ''{'' # Join (map marshal_member ms) '','' @ ''}''"
    by (simp add: marshal_member_def split_beta fun_eq_iff cong: map_cong) 
  show ?case
  proof (cases ms)
    case Nil
    then show ?thesis using d by (simp add: json_value.simps skip_space_def json_space_def)
  next
    case (Cons m ys)
    let ?r = "Join (map marshal_member ms) '','' @ ''}'' @ t"
    have "json_members (d - 1) ?r = Some (map (\<lambda>(k, v). (utf8_text k, clean v)) ms, t)"
      using Cons el by (intro members_read) simp_all
    moreover have "skip_space ?r = quotation # tl ?r"
      using Cons by (cases ys) (simp_all add: marshal_member_def marshal_string_def skip_space_def json_space_def)
    ultimately show ?thesis using d m by (simp add: json_value.simps skip_space_solid json_space_def)
  qed
qed (auto simp: literal_read[simplified] number_read string_read)

lemma json_syntax_marshal: "writable maxNestingDepth j \<Longrightarrow> json_syntax (marshal j) = Some (clean j)"
  using marshal_read[of maxNestingDepth j "[]"] by (simp add: json_syntax_def stops_def skip_space_def)

lemma first_value_marshal:
  assumes "writable maxNestingDepth j" "bd_data b = marshal j" "bd_err b = None"
  shows "first_value b = Some (clean j)"
  using marshal_read[OF assms(1), of "[]"] assms(2,3) by (simp add: first_value_def stops_def)

lemma utf8_text_ascii: "is_ascii s \<Longrightarrow> utf8_text s = s"
  by (simp add: utf8_text_def utf8_decode_ascii utf8_encode_ascii is_ascii_def list.pred_map comp_def)

lemma utf8_text_idem [simp]: "utf8_text (utf8_text s) = utf8_text s"
  by (simp add: utf8_text_def utf8_decode_encode)

lemma scan_digits_stop:
  assumes "ds \<noteq> []" "list_all is_digit_char ds" "t = [] \<or> \<not> is_digit_char (hd t)"
  shows "scan_digits (ds @ t) = Some (ds, t)"
proof -
  have "takeWhile is_digit_char t = []" "dropWhile is_digit_char t = t" using assms(3) by (cases t; auto)+
  then show ?thesis using assms(1,2) by (simp add: scan_digits_def Let_def list_all_iff takeWhile_append dropWhile_append)
qed

lemma number_text_int: "number_text (show_int n)"
proof -
  define m where "m = nat (if n < 0 then - n else n)"
  have digits: "Itoa m \<noteq> []" "list_all is_digit_char (Itoa m)" using Itoa_digits by blast+
  have "scan_number (show_int n @ t) = Some (show_int n, t)" if t: "t = [] \<or> hd t \<in> set '',]}''" for t
  proof -
    have stop: "t = [] \<or> \<not> is_digit_char (hd t)" using t by (auto simp: is_digit_char_def in_rng_def)
    have int: "scan_integer (Itoa m @ t) = Some (Itoa m, t)"
    proof (cases "m = 0")
      case True
      then show ?thesis by (simp add: scan_integer_def Itoa.simps char_of_ascii_table)
    next
      case False
      then have "\<not> prefix ''0'' (Itoa m @ t)" using Itoa_lead[of m] digits(1) by (cases "Itoa m") auto
      then show ?thesis using scan_digits_stop[OF digits stop] by (simp add: scan_integer_def)
    qed
    have rest: "scan_fraction t = Some ([], t)" "scan_exponent t = Some ([], t)"
      using t by (cases t; auto simp: scan_fraction_def scan_exponent_def)+
    have "\<not> prefix ''-'' (Itoa m @ t)" using digits by (cases "Itoa m") (auto simp: is_digit_char_def in_rng_def)
    then have "scan_sign (show_int n @ t) = (if n < 0 then ''-'' else [], Itoa m @ t)"
      by (cases "n < 0") (simp_all add: scan_sign_def show_int_def m_def)
    then show ?thesis using int rest by (simp add: scan_number_def show_int_def m_def)
  qed
  moreover have "show_int n \<noteq> []" using Itoa_digits by (simp add: show_int_def)
  ultimately show ?thesis by (simp add: number_text_def)
qed

end
