(* ===== verification/Sources.thy ===== *)
theory Sources
  imports Consensus_City Go_Url Go_Json
begin

text \<open>
  \<open>geolocate/sources.go\<close> and the fetch of \<open>geolocate/geolocate.go\<close>: the table of sources,
  the three parsers, one request, and \<open>Locate\<close>. Parameters: the HTTP client
  and the record \<open>stdlib\<close>. The sources are fetched concurrently, each into its own slot of the result
  slice, so the result is the slice of the single outcomes.
\<close>

subsection \<open>Network numbers\<close>

definition parseASNValue :: "json option \<Rightarrow> int" where
  "parseASNValue raw =
    (case raw of
       None \<Rightarrow> 0
     | Some (JNum lit) \<Rightarrow> (case Atoi lit of Some n \<Rightarrow> n | None \<Rightarrow> 0)
     | Some (JStr s) \<Rightarrow> (case Atoi (TrimPrefix (TrimSpace s) ''AS'') of Some n \<Rightarrow> n | None \<Rightarrow> 0)
     | Some _ \<Rightarrow> 0)"

definition parseASNOrg :: "string \<Rightarrow> int \<times> string" where
  "parseASNOrg org0 =
    (let org = TrimSpace org0 in
     if org = [] then (0, [])
     else (let (f0, f1) = cut_at (CHR '' '') org;
               name = (case f1 of Some n \<Rightarrow> n | None \<Rightarrow> [])
           in if prefix ''AS'' f0
              then (case Atoi (drop 2 f0) of Some n \<Rightarrow> (n, name) | None \<Rightarrow> (0, org))
              else (0, org)))"

subsection \<open>The three parsers\<close>

definition result0 :: SourceResult where
  "result0 = \<lparr> sr_Name = [], sr_OK = False, sr_Err = [], sr_CountryCode = [], sr_Country = [],
     sr_City = [], sr_Region = [], sr_ASN = 0, sr_Org = [], sr_Hosting = False,
     sr_Proxy = False, sr_Mobile = False \<rparr>"

definition parseIpPn :: "stdlib \<Rightarrow> string \<Rightarrow> string + SourceResult" where
  "parseIpPn L b =
    and_then (unmarshal L [''status'', ''country'', ''countryCode'', ''city'', ''regionName'']
                [''mobile'', ''proxy'', ''hosting''] b)
      (\<lambda>v. if str_member ''status'' v \<noteq> [] \<and> str_member ''status'' v \<noteq> ''success''
           then Inl (''ip.pn status '' @ Quote (print_table L) (str_member ''status'' v))
           else Inr (result0\<lparr> sr_CountryCode := str_member ''countryCode'' v,
             sr_Country := str_member ''country'' v, sr_City := str_member ''city'' v,
             sr_Region := str_member ''regionName'' v,
             sr_ASN := parseASNValue (raw_member ''asn'' v),
             sr_Mobile := bool_member ''mobile'' v, sr_Proxy := bool_member ''proxy'' v,
             sr_Hosting := bool_member ''hosting'' v \<rparr>))"

definition parseFreeIpApi :: "stdlib \<Rightarrow> string \<Rightarrow> string + SourceResult" where
  "parseFreeIpApi L b =
    and_then (unmarshal L [''countryName'', ''countryCode'', ''cityName'', ''regionName''] [''isProxy''] b)
      (\<lambda>v. Inr (result0\<lparr> sr_CountryCode := str_member ''countryCode'' v,
             sr_Country := str_member ''countryName'' v, sr_City := str_member ''cityName'' v,
             sr_Region := str_member ''regionName'' v,
             sr_ASN := parseASNValue (raw_member ''asn'' v),
             sr_Proxy := bool_member ''isProxy'' v \<rparr>))"

definition parseIpInfo :: "stdlib \<Rightarrow> string \<Rightarrow> string + SourceResult" where
  "parseIpInfo L b =
    and_then (unmarshal L [''city'', ''region'', ''country'', ''org''] [] b)
      (\<lambda>v. let (asn, org) = parseASNOrg (str_member ''org'' v) in
           Inr (result0\<lparr> sr_CountryCode := str_member ''country'' v,
             sr_City := str_member ''city'' v, sr_Region := str_member ''region'' v,
             sr_ASN := asn, sr_Org := org \<rparr>))"

subsection \<open>The table\<close>

record source =
  src_Name :: string
  src_URL :: string
  src_Parse :: "stdlib \<Rightarrow> string \<Rightarrow> string + SourceResult"

definition sources :: "source list" where
  "sources = [
    \<lparr> src_Name = ''ip.pn'', src_URL = ''https://api.i.pn/json'', src_Parse = parseIpPn \<rparr>,
    \<lparr> src_Name = ''freeipapi'', src_URL = ''https://free.freeipapi.com/api/json'',
      src_Parse = parseFreeIpApi \<rparr>,
    \<lparr> src_Name = ''ipinfo'', src_URL = ''https://ipinfo.io/json'', src_Parse = parseIpInfo \<rparr>]"

definition SourceHosts :: "string list" where
  "SourceHosts = hosts_of (map src_URL sources)"

lemma source_urls: "list_all (plain_https \<circ> src_URL) sources"
  by (simp add: sources_def url_eval)

lemma source_requests:
  "NewRequest urlText ''https://api.i.pn/json'' = None"
  "NewRequest urlText ''https://free.freeipapi.com/api/json'' = None"
  "NewRequest urlText ''https://ipinfo.io/json'' = None"
  using source_urls plain_https_parsed by (simp_all add: sources_def NewRequest_None)

lemma source_names: "map (https_name \<circ> src_URL) sources = [''api.i.pn'', ''free.freeipapi.com'', ''ipinfo.io'']"
  by (simp add: sources_def https_name_def)

lemma SourceHosts_value: "SourceHosts = [''api.i.pn'', ''free.freeipapi.com'', ''ipinfo.io'']"
proof -
  have "hostname (src_URL s) = Some (https_name (src_URL s))" if "s \<in> set sources" for s
    using plain_https_hostname(1) that source_urls by (auto simp: list_all_iff)
  then have "List.map_filter hostname (map src_URL sources) = map (https_name \<circ> src_URL) sources"
    by (simp add: List.map_filter_def comp_def cong: map_cong)
  then show ?thesis by (simp add: SourceHosts_def hosts_of_def source_names)
qed

subsection \<open>One request\<close>

definition MaxResponseBytes :: nat where
  "MaxResponseBytes = 64 * 1024"

definition default_PerSourceTimeout :: duration where
  "default_PerSourceTimeout = 5 * Second"

record LocateOptions =
  lo_PerSourceTimeout :: duration

abbreviation per_source :: "duration \<Rightarrow> LocateOptions" where
  "per_source t \<equiv> \<lparr> lo_PerSourceTimeout = t \<rparr>"

definition perSourceTimeout :: "LocateOptions \<Rightarrow> duration" where
  "perSourceTimeout opt = (if 0 < lo_PerSourceTimeout opt then lo_PerSourceTimeout opt else default_PerSourceTimeout)"

definition failed :: "string \<Rightarrow> string \<Rightarrow> SourceResult" where
  "failed name err = result0\<lparr> sr_Name := name, sr_Err := err \<rparr>"

definition fetchSource :: "stdlib \<Rightarrow> http_client \<Rightarrow> source \<Rightarrow> duration \<Rightarrow> SourceResult" where
  "fetchSource L client s timeout =
    (case NewRequest (url_text L) (src_URL s) of
       Some err \<Rightarrow> failed (src_Name s) err
     | None \<Rightarrow>
       (case do_request client timeout (GET (src_URL s) []) of
          Inl err \<Rightarrow> failed (src_Name s) err
        | Inr resp \<Rightarrow>
          if hr_StatusCode resp \<noteq> 200
          then failed (src_Name s) (''status '' @ Itoa (nat (hr_StatusCode resp)))
          else (case read_limited (MaxResponseBytes + 1) (hr_Body resp) of
              Inl err \<Rightarrow> failed (src_Name s) err
            | Inr body \<Rightarrow>
              if MaxResponseBytes < length body then failed (src_Name s) ''response too large''
              else (case src_Parse s L body of
                  Inl err \<Rightarrow> failed (src_Name s) err
                | Inr parsed \<Rightarrow> parsed\<lparr> sr_Name := src_Name s, sr_OK := True \<rparr>))))"

subsection \<open>Locate\<close>

datatype locate_error = ErrNilClient | ErrNoConsensus

definition locate :: "unicode \<Rightarrow> stdlib \<Rightarrow> gotime \<Rightarrow> http_client option \<Rightarrow> source list \<Rightarrow> LocateOptions
    \<Rightarrow> locate_error + ConsensusLocation" where
  "locate U L now client srcs opt =
    (case client of
       None \<Rightarrow> Inl ErrNilClient
     | Some c \<Rightarrow>
       (let results = map (\<lambda>s. fetchSource L c s (perSourceTimeout opt)) srcs;
            ok = filter sr_OK results
        in if length ok < MinSources then Inl ErrNoConsensus
           else Inr ((consensus U ok)\<lparr> cl_Sources := results, cl_ProbedAt := now \<rparr>)))"

definition LocateWithOptions :: "unicode \<Rightarrow> stdlib \<Rightarrow> gotime \<Rightarrow> http_client option \<Rightarrow> LocateOptions
    \<Rightarrow> locate_error + ConsensusLocation" where
  "LocateWithOptions U L now client opt = locate U L now client sources opt"

definition Locate :: "unicode \<Rightarrow> stdlib \<Rightarrow> gotime \<Rightarrow> http_client option \<Rightarrow> locate_error + ConsensusLocation" where
  "Locate U L now client = locate U L now client sources (per_source 0)"

subsection \<open>Numbers as text\<close>

lemma digit_not_sign: "is_digit_char c \<Longrightarrow> c \<noteq> CHR ''-'' \<and> c \<noteq> CHR ''+'' \<and> c \<noteq> CHR '' ''"
  by (auto simp: is_digit_char_def in_rng_def)

lemma Atoi_Itoa: "n < 2 ^ 63 \<Longrightarrow> Atoi (Itoa n) = Some (int n)"
proof -
  assume n: "n < 2 ^ 63"
  obtain c cs where I: "Itoa n = c # cs" using Itoa_digits[of n] by (cases "Itoa n") auto
  then have "c \<noteq> CHR ''-''" "c \<noteq> CHR ''+''" using Itoa_digits[of n] digit_not_sign by auto
  then show ?thesis using Itoa_digits[of n] n
    by (simp add: Atoi_def I Let_def int64_ok_def)
qed

lemma digits_ascii: "list_all is_digit_char s \<Longrightarrow> is_ascii s"
  by (auto simp: is_ascii_def list_all_iff is_digit_char_def in_rng_def)

text \<open>A string whose first and last bytes are ASCII and not white space is left alone.\<close>

definition solid :: "char \<Rightarrow> bool" where
  "solid c \<longleftrightarrow> of_char c < (128::nat) \<and> \<not> IsSpace (of_char c)"

lemma TrimSpace_solid:
  assumes "s \<noteq> []" "solid (hd s)" "solid (last s)"
  shows "TrimSpace s = s"
proof -
  obtain x xs where s: "s = x # xs" using assms(1) by (cases s) auto
  have c1: "chunks s = (of_char x, [x]) # chunks xs"
    using assms(2) by (simp add: s solid_def chunks_ascii)
  have "s = butlast s @ last s # []" using assms(1) by simp
  then have c2: "chunks s = chunks (butlast s) @ [(of_char (last s), [last s])]"
    using chunks_boundary[of "last s" "butlast s" "[]"] assms(3) by (simp add: solid_def)
  have "dropWhile chunk_space (chunks s) = chunks s"
    using c1 assms(2) by (simp add: s chunk_space_def solid_def)
  moreover have "dropWhile chunk_space (rev (chunks s)) = rev (chunks s)"
    using c2 assms(3) by (simp add: chunk_space_def solid_def)
  ultimately show ?thesis by (simp add: TrimSpace_def)
qed

lemma digit_solid: "is_digit_char c \<Longrightarrow> solid c"
  by (auto simp: is_digit_char_def in_rng_def solid_def IsSpace_def)

lemma Itoa_ends: "solid (hd (Itoa n))" "solid (last (Itoa n))"
  using Itoa_digits[of n] digit_solid by (auto simp: list_all_iff)

lemma Itoa_no_space: "CHR '' '' \<notin> set (Itoa n)"
  using Itoa_digits[of n] digit_not_sign by (auto simp: list_all_iff)

text \<open>
  The representations of a network number that the sources use are read alike: a JSON
  number, a quoted number and a quoted number with the \<open>AS\<close> prefix all give the number, and
  the \<open>org\<close> field "AS<n> <name>" gives the number and the name, for every 63-bit number.
\<close>

theorem asn_representations:
  assumes "n < 2 ^ 63" and "name \<noteq> []" and "solid (last name)"
  shows "parseASNValue (Some (JNum (Itoa n))) = int n
    \<and> parseASNValue (Some (JStr (Itoa n))) = int n
    \<and> parseASNValue (Some (JStr (''AS'' @ Itoa n))) = int n
    \<and> parseASNOrg (''AS'' @ Itoa n @ '' '' @ name) = (int n, name)"
proof -
  have ne: "Itoa n \<noteq> []" using Itoa_digits by blast
  have A: "solid (CHR ''A'')" by (simp add: solid_def IsSpace_def)
  have "TrimSpace (Itoa n) = Itoa n" using ne Itoa_ends by (intro TrimSpace_solid)
  moreover have "\<not> prefix ''AS'' (Itoa n)"
    using Itoa_digits[of n] by (auto simp: prefix_def is_digit_char_def in_rng_def)
  moreover have "TrimSpace (''AS'' @ Itoa n) = ''AS'' @ Itoa n"
    using ne A Itoa_ends by (intro TrimSpace_solid) auto
  moreover have "TrimSpace (''AS'' @ Itoa n @ '' '' @ name) = ''AS'' @ Itoa n @ '' '' @ name"
    using assms(2,3) A by (intro TrimSpace_solid) auto
  moreover have "cut_at (CHR '' '') (''AS'' @ Itoa n @ '' '' @ name) = (''AS'' @ Itoa n, Some name)"
    using cut_at_append[of "CHR '' ''" "''AS'' @ Itoa n" name] Itoa_no_space[of n] by simp
  ultimately show ?thesis using Atoi_Itoa[OF assms(1)]
    by (simp add: parseASNValue_def parseASNOrg_def TrimPrefix_def)
qed

theorem asn_representations_witness:
  "parseASNOrg (''AS'' @ Itoa 401486 @ '' '' @ ''RAVNIX LLC'') = (401486, ''RAVNIX LLC'')"
  using asn_representations[of 401486 "''RAVNIX LLC''"] by (simp add: solid_def IsSpace_def)

subsection \<open>What a fetch reports\<close>

lemma failed_fields [simp]:
  "sr_Name (failed n e) = n" "sr_OK (failed n e) = False" "sr_Err (failed n e) = e" "sr_City (failed n e) = []"
  by (simp_all add: failed_def result0_def)

lemma fetchSource_name: "sr_Name (fetchSource L client s t) = src_Name s"
  by (simp add: fetchSource_def split: option.split sum.split)

definition answered :: "http_client \<Rightarrow> duration \<Rightarrow> source \<Rightarrow> http_response \<Rightarrow> bool" where
  "answered client t s resp \<longleftrightarrow>
    Parse (src_URL s) \<noteq> None \<and> do_request client t (GET (src_URL s) []) = Inr resp
    \<and> hr_StatusCode resp = 200 \<and> bd_err (hr_Body resp) = None
    \<and> length (bd_data (hr_Body resp)) \<le> MaxResponseBytes"

lemma read_all_limited:
  "length (bd_data b) \<le> MaxResponseBytes \<Longrightarrow> bd_err b = None \<Longrightarrow>
    read_limited (Suc MaxResponseBytes) b = Inr (bd_data b)"
  by (simp add: read_limited_def)

lemma fetchSource_answered:
  "answered client t s resp \<Longrightarrow>
    fetchSource L client s t = (case src_Parse s L (bd_data (hr_Body resp)) of
        Inl err \<Rightarrow> failed (src_Name s) err
      | Inr parsed \<Rightarrow> parsed\<lparr> sr_Name := src_Name s, sr_OK := True \<rparr>)"
  by (auto simp: answered_def fetchSource_def read_all_limited)

lemma fetchSource_unanswered:
  assumes "\<not> (\<exists>resp. answered client t s resp)"
  shows "fetchSource L client s t = failed (src_Name s) (sr_Err (fetchSource L client s t))"
proof (cases "NewRequest (url_text L) (src_URL s)")
  case None
  show ?thesis
  proof (cases "do_request client t (GET (src_URL s) [])")
    case (Inr resp)
    have "hr_StatusCode resp \<noteq> 200 \<or> bd_err (hr_Body resp) \<noteq> None
        \<or> MaxResponseBytes < length (bd_data (hr_Body resp))"
      using assms None Inr by (auto simp: answered_def not_le NewRequest_None)
    then show ?thesis using None Inr
      by (auto simp: fetchSource_def read_limited_def split: option.split)
  qed (simp add: None fetchSource_def)
qed (simp add: fetchSource_def)

text \<open>
  A source counts as responding exactly when the request was built and answered with
  status 200 and a complete body of at most 64 KiB that its parser accepts; then its record is
  the parsed one. Otherwise the record holds nothing but the name and the error, so a failed
  source can contribute no observation.
\<close>

theorem fetchSource_spec:
  "(sr_OK (fetchSource L client s t) \<longleftrightarrow>
      (\<exists>resp parsed. answered client t s resp \<and> src_Parse s L (bd_data (hr_Body resp)) = Inr parsed
        \<and> fetchSource L client s t = parsed\<lparr> sr_Name := src_Name s, sr_OK := True \<rparr>))
   \<and> (\<not> sr_OK (fetchSource L client s t) \<longrightarrow>
      fetchSource L client s t = failed (src_Name s) (sr_Err (fetchSource L client s t)))"
proof (cases "\<exists>resp. answered client t s resp")
  case False
  then have "fetchSource L client s t = failed (src_Name s) (sr_Err (fetchSource L client s t))"
    by (rule fetchSource_unanswered)
  then show ?thesis using False by (metis failed_fields(2))
next
  case True
  then obtain resp where r: "answered client t s resp" by blast
  then have uniq: "answered client t s q \<Longrightarrow> q = resp" for q by (simp add: answered_def)
  show ?thesis
  proof (cases "src_Parse s L (bd_data (hr_Body resp))")
    case (Inl err)
    then have f: "fetchSource L client s t = failed (src_Name s) err"
      using fetchSource_answered[OF r] by simp
    show ?thesis unfolding f using uniq Inl by auto
  next
    case (Inr parsed)
    then have f: "fetchSource L client s t = parsed\<lparr> sr_Name := src_Name s, sr_OK := True \<rparr>"
      using fetchSource_answered[OF r] by simp
    show ?thesis unfolding f using r Inr by auto
  qed
qed

lemma sr_OK_votes:
  "country_votes U (filter sr_OK rs) c
    = count_if (\<lambda>r. sr_OK r \<and> normalizeCountry U (sr_CountryCode r) = c) rs"
  by (simp add: country_votes_def conj_commute)

subsection \<open>What Locate returns\<close>

lemma confident_record:
  assumes "unicode_ok U" "cl_CountryConfident (consensus U ok)"
  shows "length (cl_CountryCode (consensus U ok)) = 2 \<and> cl_Country (consensus U ok) \<noteq> []
    \<and> MinSources \<le> country_votes U ok (cl_CountryCode (consensus U ok))"
  using country_confident[OF assms] by auto

text \<open>The records of the sources, and how the quorum decides.\<close>

definition source_results :: "stdlib \<Rightarrow> http_client \<Rightarrow> source list \<Rightarrow> LocateOptions \<Rightarrow> SourceResult list" where
  "source_results L c srcs opt = map (\<lambda>s. fetchSource L c s (perSourceTimeout opt)) srcs"

lemma locate_decides:
  "locate U L now (Some c) srcs opt =
    (if count_if sr_OK (source_results L c srcs opt) < MinSources then Inl ErrNoConsensus
     else Inr ((consensus U (filter sr_OK (source_results L c srcs opt)))
       \<lparr> cl_Sources := source_results L c srcs opt, cl_ProbedAt := now \<rparr>))"
  by (simp add: locate_def Let_def source_results_def)

lemma source_results_OK:
  "count_if sr_OK (source_results L c srcs opt) = count_if (\<lambda>s. sr_OK (fetchSource L c s (perSourceTimeout opt))) srcs"
  by (simp add: source_results_def filter_map comp_def)

lemma source_results_names: "map sr_Name (source_results L c srcs opt) = map src_Name srcs"
  by (simp add: source_results_def fetchSource_name)

text \<open>
  C39. \<open>Locate\<close> returns \<open>ErrNilClient\<close> exactly without a client and \<open>ErrNoConsensus\<close> exactly
  when fewer than two sources responded. Otherwise it returns one record per source, in table
  order, failures included, and a confident country is one that at least two responding
  sources reported.
\<close>

theorem locate_outcome:
  assumes "unicode_ok U"
  shows "(locate U L now client srcs opt = Inl ErrNilClient \<longleftrightarrow> client = None)
    \<and> (locate U L now client srcs opt = Inl ErrNoConsensus \<longleftrightarrow>
        (\<exists>c. client = Some c \<and>
          count_if (\<lambda>s. sr_OK (fetchSource L c s (perSourceTimeout opt))) srcs < MinSources))
    \<and> (\<forall>loc. locate U L now client srcs opt = Inr loc \<longrightarrow>
        map sr_Name (cl_Sources loc) = map src_Name srcs
        \<and> MinSources \<le> count_if sr_OK (cl_Sources loc) \<and> cl_ProbedAt loc = now
        \<and> (cl_CountryConfident loc \<longrightarrow> length (cl_CountryCode loc) = 2 \<and> cl_Country loc \<noteq> []
            \<and> MinSources \<le> count_if (\<lambda>r. sr_OK r
                \<and> normalizeCountry U (sr_CountryCode r) = cl_CountryCode loc) (cl_Sources loc)))"
proof (cases client)
  case (Some c)
  show ?thesis
  proof (cases "count_if sr_OK (source_results L c srcs opt) < MinSources")
    case True
    then show ?thesis using locate_decides[of U L now c srcs opt] by (simp add: Some source_results_OK)
  next
    case False
    then have eq: "locate U L now client srcs opt = Inr ((consensus U (filter sr_OK (source_results L c srcs opt)))
        \<lparr> cl_Sources := source_results L c srcs opt, cl_ProbedAt := now \<rparr>)"
      using locate_decides[of U L now c srcs opt] by (simp add: Some)
    show ?thesis
      using False confident_record[OF assms, of "filter sr_OK (source_results L c srcs opt)", unfolded sr_OK_votes]
      unfolding eq by (simp add: Some source_results_OK source_results_names)
  qed
qed (simp add: locate_def)

subsection \<open>A concrete client\<close>

text \<open>A client that answers every request with the same document.\<close>

definition sample_lib :: stdlib where
  "sample_lib = \<lparr> json_text = (\<lambda>_. ''invalid''), url_text = id, print_table = (\<lambda>_. False) \<rparr>"

definition sample_doc :: json where
  "sample_doc = JObj [(''country'', JStr ''DE''), (''Country'', JNull)]"

definition sample_client :: http_client where
  "sample_client = \<lparr> do_request = (\<lambda>t req. Inr \<lparr> hr_StatusCode = (if rq_URL req = ''https://api.i.pn/json'' then 503 else 200),
        hr_Header = Map.empty, hr_Body = \<lparr> bd_data = marshal sample_doc, bd_err = None \<rparr> \<rparr>) \<rparr>"

lemma sample_country_key: "key_is ''country'' ''Country''" "\<not> key_is ''countryName'' ''Country''"
  "\<not> key_is ''countryCode'' ''Country''" "\<not> key_is ''countryName'' ''country''"
  "\<not> key_is ''countryCode'' ''country''"
  by (simp_all add: key_is_def fold_key_def plain_eval)

lemma sample_keys:
  "k \<in> {''cityName'', ''regionName'', ''isProxy'', ''city'', ''region'', ''org''} \<Longrightarrow>
    \<not> key_is k ''Country'' \<and> \<not> key_is k ''country''"
  by (auto simp: key_is_def fold_key_def plain_eval)

lemma sample_read: "json_syntax (marshal sample_doc) = Some sample_doc"
proof -
  have "writable maxNestingDepth sample_doc" by (simp add: sample_doc_def maxNestingDepth_def)
  moreover have "clean sample_doc = sample_doc" by (simp add: sample_doc_def utf8_text_ascii is_ascii_def)
  ultimately show ?thesis using json_syntax_marshal by simp
qed

lemma sample_short: "length (marshal sample_doc) \<le> MaxResponseBytes"
  by (simp add: sample_doc_def marshal_string_def chunks_is_ascii is_ascii_def escape_chunk_def escape_ascii_def MaxResponseBytes_def)

lemma sample_parse:
  "\<exists>r. parseFreeIpApi sample_lib (marshal sample_doc) = Inr r" "\<exists>r. parseIpInfo sample_lib (marshal sample_doc) = Inr r"
  unfolding parseFreeIpApi_def parseIpInfo_def unmarshal_def sample_read using sample_keys sample_country_key
  by (simp_all add: sample_doc_def struct_members_def well_typed_def members_def str_type_def Let_def split_beta)

lemma sample_fetch:
  "map (\<lambda>s. sr_OK (fetchSource sample_lib sample_client s t)) sources = [False, True, True]"
  using sample_parse source_requests sample_short
  by (auto simp: sources_def fetchSource_def sample_client_def GET_def read_limited_def)

theorem fetchSource_spec_witness:
  "list_all (\<lambda>s. \<not> sr_OK (fetchSource sample_lib sample_client s 1) \<longrightarrow>
      sr_City (fetchSource sample_lib sample_client s 1) = []) sources"
proof -
  have "sr_City (fetchSource sample_lib sample_client s 1) = []"
    if "\<not> sr_OK (fetchSource sample_lib sample_client s 1)" for s
    using arg_cong[OF conjunct2[OF fetchSource_spec, rule_format, OF that], of sr_City]
    by (simp only: failed_fields)
  then show ?thesis by (simp add: list_all_iff)
qed

theorem locate_outcome_witness:
  "\<exists>loc. locate latin_unicode sample_lib 7 (Some sample_client) sources (per_source 0) = Inr loc
     \<and> cl_ProbedAt loc = 7 \<and> map sr_Name (cl_Sources loc) = [''ip.pn'', ''freeipapi'', ''ipinfo'']"
proof -
  have two: "count_if (\<lambda>s. sr_OK (fetchSource sample_lib sample_client s (perSourceTimeout (per_source 0)))) sources = 2"
    using sample_fetch[of "perSourceTimeout (per_source 0)"] by (simp add: sources_def)
  show ?thesis
    using locate_outcome[OF latin_unicode_ok, of sample_lib 7 "Some sample_client" sources "per_source 0"] two
    by (cases "locate latin_unicode sample_lib 7 (Some sample_client) sources (per_source 0)")
      (auto simp: MinSources_def sources_def locate_def Let_def split: if_splits)
qed

end
