(* ===== verification/Health_Table.thy ===== *)
theory Health_Table
  imports Go_Url Go_Json_Read
begin

text \<open>
  The data of \<open>egresshealth/egresshealth.go\<close>: classes, expectations, the destination record
  and the table of destinations, in table order, split at class boundaries and at most 150
  source lines each. A destination's \<open>Verify\<close> function is named by a value of \<open>verifier\<close>; what
  each of them computes is defined with the check. The lemmas establish the facts about the
  table that the check relies on.
\<close>

subsection \<open>Types\<close>

type_synonym Class = string

definition ClassDNS :: Class where "ClassDNS = ''dns''"
definition ClassConnectivity :: Class where "ClassConnectivity = ''connectivity''"
definition ClassCDN :: Class where "ClassCDN = ''cdn''"
definition ClassSite :: Class where "ClassSite = ''site''"
definition ClassReputation :: Class where "ClassReputation = ''reputation''"

lemmas class_names = ClassDNS_def ClassConnectivity_def ClassCDN_def ClassSite_def ClassReputation_def

lemma class_distinct [simp]:
  "ClassDNS \<noteq> ClassConnectivity" "ClassDNS \<noteq> ClassCDN" "ClassDNS \<noteq> ClassSite" "ClassDNS \<noteq> ClassReputation"
  "ClassConnectivity \<noteq> ClassDNS" "ClassConnectivity \<noteq> ClassCDN" "ClassConnectivity \<noteq> ClassSite" "ClassConnectivity \<noteq> ClassReputation"
  "ClassCDN \<noteq> ClassDNS" "ClassCDN \<noteq> ClassConnectivity" "ClassCDN \<noteq> ClassSite" "ClassCDN \<noteq> ClassReputation"
  "ClassSite \<noteq> ClassDNS" "ClassSite \<noteq> ClassConnectivity" "ClassSite \<noteq> ClassCDN" "ClassSite \<noteq> ClassReputation"
  "ClassReputation \<noteq> ClassDNS" "ClassReputation \<noteq> ClassConnectivity" "ClassReputation \<noteq> ClassCDN" "ClassReputation \<noteq> ClassSite"
  by (simp_all add: class_names)

definition Classes :: "Class list" where
  "Classes = [ClassDNS, ClassConnectivity, ClassCDN, ClassSite]"

definition unscoredClasses :: "Class list" where
  "unscoredClasses = [ClassReputation]"

definition scored :: "Class \<Rightarrow> bool" where
  "scored c \<longleftrightarrow> c \<notin> set unscoredClasses"

definition sampleSizes :: "(Class \<times> int) list" where
  "sampleSizes = [(ClassDNS, 4), (ClassConnectivity, 5), (ClassCDN, 5), (ClassSite, 12),
     (ClassReputation, 4)]"

datatype Expect = ExpectBody | ExpectStatus | ExpectReachable

datatype verifier = VerifyNone | VerifyDNSJSON | VerifyIPText | VerifyContains string

record Destination =
  d_Name :: string
  d_Class :: Class
  d_URL :: string
  d_Headers :: "(string \<times> string) list"
  d_Expect :: Expect
  d_Status :: int
  d_MaxBytes :: int
  d_Verify :: verifier

definition MaxBodyBytes :: int where "MaxBodyBytes = 1024"
definition rangeFirst1KiB :: string where "rangeFirst1KiB = ''bytes=0-1023''"
definition acceptDNSJSON :: string where "acceptDNSJSON = ''application/dns-json''"
definition dnsQuery :: string where "dnsQuery = ''?name=example.com&type=A''"
definition maxDNSBytes :: int where "maxDNSBytes = 768"
definition maxConnectivityBytes :: int where "maxConnectivityBytes = 256"
definition maxAssetBytes :: int where "maxAssetBytes = 1024"

lemmas table_bytes = MaxBodyBytes_def maxDNSBytes_def maxConnectivityBytes_def maxAssetBytes_def

definition UserAgent :: string where
  "UserAgent = ''urnetwork-egress-prober/0.1 (+https://github.com/urnetwork/urnetwork-operator-proxy; operator egress health probe)''"

text \<open>\<open>maxBytes\<close>: how much of the body is read, never more than \<open>MaxBodyBytes\<close>.\<close>

definition maxBytes :: "Destination \<Rightarrow> int" where
  "maxBytes d = (if 0 < d_MaxBytes d \<and> d_MaxBytes d < MaxBodyBytes then d_MaxBytes d else MaxBodyBytes)"

subsection \<open>The table\<close>

definition dns_destinations :: "Destination list" where
  "dns_destinations = [
    Destination.make ''cloudflare-doh'' ClassDNS
      (''https://cloudflare-dns.com/dns-query'' @ dnsQuery) [(''Accept'', acceptDNSJSON)] ExpectBody 0 maxDNSBytes VerifyDNSJSON,
    Destination.make ''google-doh'' ClassDNS
      (''https://dns.google/resolve'' @ dnsQuery) [(''Accept'', acceptDNSJSON)] ExpectBody 0 maxDNSBytes VerifyDNSJSON,
    Destination.make ''adguard-doh'' ClassDNS
      (''https://dns.adguard-dns.com/resolve'' @ dnsQuery) [(''Accept'', acceptDNSJSON)] ExpectBody 0 maxDNSBytes VerifyDNSJSON,
    Destination.make ''dnssb-doh'' ClassDNS
      (''https://doh.dns.sb/dns-query'' @ dnsQuery) [(''Accept'', acceptDNSJSON)] ExpectBody 0 maxDNSBytes VerifyDNSJSON,
    Destination.make ''nextdns-doh'' ClassDNS
      (''https://dns.nextdns.io/dns-query'' @ dnsQuery) [(''Accept'', acceptDNSJSON)] ExpectBody 0 maxDNSBytes VerifyDNSJSON,
    Destination.make ''alidns-doh'' ClassDNS
      (''https://dns.alidns.com/resolve'' @ dnsQuery) [(''Accept'', acceptDNSJSON)] ExpectBody 0 maxDNSBytes VerifyDNSJSON,
    Destination.make ''dnspod-doh'' ClassDNS
      (''https://doh.pub/dns-query'' @ dnsQuery) [(''Accept'', acceptDNSJSON)] ExpectBody 0 maxDNSBytes VerifyDNSJSON]"

definition connectivity_destinations :: "Destination list" where
  "connectivity_destinations = [
    Destination.make ''google-generate-204'' ClassConnectivity
      ''https://www.google.com/generate_204'' [] ExpectStatus 204 maxConnectivityBytes VerifyNone,
    Destination.make ''google-connectivitycheck'' ClassConnectivity
      ''https://connectivitycheck.gstatic.com/generate_204'' [] ExpectStatus 204 maxConnectivityBytes VerifyNone,
    Destination.make ''gstatic-204'' ClassConnectivity
      ''https://www.gstatic.com/generate_204'' [] ExpectStatus 204 maxConnectivityBytes VerifyNone,
    Destination.make ''apple-captive-portal'' ClassConnectivity
      ''https://captive.apple.com/hotspot-detect.html'' [] ExpectBody 0 maxConnectivityBytes (VerifyContains ''Success''),
    Destination.make ''ubuntu-connectivity-check'' ClassConnectivity
      ''https://connectivity-check.ubuntu.com'' [] ExpectStatus 204 maxConnectivityBytes VerifyNone,
    Destination.make ''firefox-detectportal'' ClassConnectivity
      ''https://detectportal.firefox.com/success.txt'' [] ExpectBody 0 maxConnectivityBytes (VerifyContains ''success''),
    Destination.make ''gnome-nm-check'' ClassConnectivity
      ''https://nmcheck.gnome.org/check_network_status.txt'' [] ExpectBody 0 maxConnectivityBytes (VerifyContains ''online''),
    Destination.make ''cloudflare-cp-204'' ClassConnectivity
      ''https://cp.cloudflare.com/generate_204'' [] ExpectStatus 204 maxConnectivityBytes VerifyNone,
    Destination.make ''cloudflare-trace'' ClassConnectivity
      ''https://1.1.1.1/cdn-cgi/trace'' [] ExpectBody 0 maxConnectivityBytes (VerifyContains ''ip=''),
    Destination.make ''aws-checkip'' ClassConnectivity
      ''https://checkip.amazonaws.com'' [] ExpectBody 0 maxConnectivityBytes VerifyIPText,
    Destination.make ''ifconfig-me'' ClassConnectivity
      ''https://ifconfig.me/ip'' [] ExpectBody 0 maxConnectivityBytes VerifyIPText,
    Destination.make ''icanhazip'' ClassConnectivity
      ''https://icanhazip.com'' [] ExpectBody 0 maxConnectivityBytes VerifyIPText,
    Destination.make ''ipify'' ClassConnectivity
      ''https://api.ipify.org'' [] ExpectBody 0 maxConnectivityBytes VerifyIPText,
    Destination.make ''example-com-https'' ClassConnectivity
      ''https://example.com'' [] ExpectBody 0 maxConnectivityBytes (VerifyContains ''Example Domain'')]"

definition cdn_destinations :: "Destination list" where
  "cdn_destinations = [
    Destination.make ''cloudflare-cdn'' ClassCDN
      ''https://cdnjs.cloudflare.com/ajax/libs/normalize/8.0.1/normalize.min.css'' [(''Range'', rangeFirst1KiB)] ExpectBody 0 maxAssetBytes VerifyNone,
    Destination.make ''cloudflare-sized-1kb'' ClassCDN
      ''https://speed.cloudflare.com/__down?bytes=1024'' [(''Range'', rangeFirst1KiB)] ExpectBody 0 maxAssetBytes VerifyNone,
    Destination.make ''fastly'' ClassCDN
      ''https://www.fastly.net'' [] ExpectStatus 301 maxAssetBytes VerifyNone,
    Destination.make ''jsdelivr-fastly-mirror'' ClassCDN
      ''https://fastly.jsdelivr.net/npm/normalize.css@8.0.1/normalize.min.css'' [(''Range'', rangeFirst1KiB)] ExpectBody 0 maxAssetBytes VerifyNone,
    Destination.make ''unpkg'' ClassCDN
      ''https://unpkg.com'' [(''Range'', rangeFirst1KiB)] ExpectBody 0 maxAssetBytes VerifyNone,
    Destination.make ''google-hosted-libraries'' ClassCDN
      ''https://ajax.googleapis.com/ajax/libs/jquery/3.7.1/jquery.min.js'' [(''Range'', rangeFirst1KiB)] ExpectBody 0 maxAssetBytes VerifyNone,
    Destination.make ''microsoft-azure-cdn'' ClassCDN
      ''https://ajax.aspnetcdn.com'' [] ExpectStatus 301 maxAssetBytes VerifyNone,
    Destination.make ''amazon-cloudfront'' ClassCDN
      ''https://sdk.amazonaws.com/js/aws-sdk-2.1691.0.min.js'' [(''Range'', rangeFirst1KiB)] ExpectBody 0 maxAssetBytes VerifyNone,
    Destination.make ''keycdn'' ClassCDN
      ''https://www.keycdn.com'' [(''Range'', rangeFirst1KiB)] ExpectBody 0 maxAssetBytes VerifyNone,
    Destination.make ''cdn77'' ClassCDN
      ''https://www.cdn77.com'' [(''Range'', rangeFirst1KiB)] ExpectBody 0 maxAssetBytes VerifyNone,
    Destination.make ''sucuri-cdn'' ClassCDN
      ''https://www.sucuri.net/robots.txt'' [(''Range'', rangeFirst1KiB)] ExpectBody 0 maxAssetBytes VerifyNone,
    Destination.make ''cachefly'' ClassCDN
      ''https://cachefly.cachefly.net/10mb.test'' [(''Range'', rangeFirst1KiB)] ExpectBody 0 maxAssetBytes VerifyNone,
    Destination.make ''ovh-proof-eu'' ClassCDN
      ''https://proof.ovh.net'' [(''Range'', rangeFirst1KiB)] ExpectBody 0 maxAssetBytes VerifyNone,
    Destination.make ''kernel-org-mirrors'' ClassCDN
      ''https://mirrors.kernel.org'' [(''Range'', rangeFirst1KiB)] ExpectBody 0 maxAssetBytes VerifyNone,
    Destination.make ''debian-cdn'' ClassCDN
      ''https://deb.debian.org'' [(''Range'', rangeFirst1KiB)] ExpectBody 0 maxAssetBytes VerifyNone,
    Destination.make ''ubuntu-archive-plain-http'' ClassCDN
      ''https://archive.ubuntu.com'' [(''Range'', rangeFirst1KiB)] ExpectBody 0 maxAssetBytes VerifyNone,
    Destination.make ''alpine-cdn'' ClassCDN
      ''https://dl-cdn.alpinelinux.org'' [(''Range'', rangeFirst1KiB)] ExpectBody 0 maxAssetBytes VerifyNone,
    Destination.make ''fedora-downloads'' ClassCDN
      ''https://dl.fedoraproject.org'' [] ExpectStatus 302 maxAssetBytes VerifyNone]"

definition site_destinations_1 :: "Destination list" where
  "site_destinations_1 = [
    Destination.make ''cloudflare-one-one-one-one'' ClassSite
      ''https://one.one.one.one'' [(''Range'', rangeFirst1KiB)] ExpectBody 0 maxAssetBytes VerifyNone,
    Destination.make ''cloudflare-speed-test'' ClassSite
      ''https://speed.cloudflare.com'' [(''Range'', rangeFirst1KiB)] ExpectBody 0 maxAssetBytes VerifyNone,
    Destination.make ''google'' ClassSite
      ''https://www.google.com'' [(''Range'', rangeFirst1KiB)] ExpectBody 0 maxAssetBytes VerifyNone,
    Destination.make ''bing'' ClassSite
      ''https://www.bing.com'' [(''Range'', rangeFirst1KiB)] ExpectBody 0 maxAssetBytes VerifyNone,
    Destination.make ''yahoo'' ClassSite
      ''https://www.yahoo.com'' [(''Range'', rangeFirst1KiB)] ExpectBody 0 maxAssetBytes VerifyNone,
    Destination.make ''duckduckgo'' ClassSite
      ''https://duckduckgo.com'' [(''Range'', rangeFirst1KiB)] ExpectBody 0 maxAssetBytes VerifyNone,
    Destination.make ''baidu'' ClassSite
      ''https://www.baidu.com'' [(''Range'', rangeFirst1KiB)] ExpectBody 0 maxAssetBytes VerifyNone,
    Destination.make ''yandex'' ClassSite
      ''https://yandex.com'' [(''Range'', rangeFirst1KiB)] ExpectBody 0 maxAssetBytes VerifyNone,
    Destination.make ''facebook'' ClassSite
      ''https://www.facebook.com'' [(''Range'', rangeFirst1KiB)] ExpectBody 0 maxAssetBytes VerifyNone,
    Destination.make ''instagram'' ClassSite
      ''https://www.instagram.com'' [(''Range'', rangeFirst1KiB)] ExpectBody 0 maxAssetBytes VerifyNone,
    Destination.make ''twitter-x'' ClassSite
      ''https://x.com'' [(''Range'', rangeFirst1KiB)] ExpectBody 0 maxAssetBytes VerifyNone,
    Destination.make ''linkedin'' ClassSite
      ''https://www.linkedin.com'' [(''Range'', rangeFirst1KiB)] ExpectBody 0 maxAssetBytes VerifyNone,
    Destination.make ''tiktok'' ClassSite
      ''https://www.tiktok.com'' [(''Range'', rangeFirst1KiB)] ExpectBody 0 maxAssetBytes VerifyNone,
    Destination.make ''pinterest'' ClassSite
      ''https://www.pinterest.com'' [(''Range'', rangeFirst1KiB)] ExpectBody 0 maxAssetBytes VerifyNone,
    Destination.make ''snapchat'' ClassSite
      ''https://www.snapchat.com'' [(''Range'', rangeFirst1KiB)] ExpectBody 0 maxAssetBytes VerifyNone,
    Destination.make ''discord'' ClassSite
      ''https://discord.com'' [(''Range'', rangeFirst1KiB)] ExpectBody 0 maxAssetBytes VerifyNone,
    Destination.make ''telegram'' ClassSite
      ''https://telegram.org'' [(''Range'', rangeFirst1KiB)] ExpectBody 0 maxAssetBytes VerifyNone,
    Destination.make ''whatsapp'' ClassSite
      ''https://www.whatsapp.com'' [(''Range'', rangeFirst1KiB)] ExpectBody 0 maxAssetBytes VerifyNone,
    Destination.make ''mastodon'' ClassSite
      ''https://mastodon.social'' [(''Range'', rangeFirst1KiB)] ExpectBody 0 maxAssetBytes VerifyNone,
    Destination.make ''bluesky'' ClassSite
      ''https://bsky.app'' [(''Range'', rangeFirst1KiB)] ExpectBody 0 maxAssetBytes VerifyNone,
    Destination.make ''youtube'' ClassSite
      ''https://www.youtube.com'' [(''Range'', rangeFirst1KiB)] ExpectBody 0 maxAssetBytes VerifyNone]"

definition site_destinations_2 :: "Destination list" where
  "site_destinations_2 = [
    Destination.make ''netflix'' ClassSite
      ''https://www.netflix.com/robots.txt'' [(''Range'', rangeFirst1KiB)] ExpectBody 0 maxAssetBytes VerifyNone,
    Destination.make ''twitch'' ClassSite
      ''https://www.twitch.tv'' [(''Range'', rangeFirst1KiB)] ExpectBody 0 maxAssetBytes VerifyNone,
    Destination.make ''vimeo'' ClassSite
      ''https://vimeo.com'' [(''Range'', rangeFirst1KiB)] ExpectBody 0 maxAssetBytes VerifyNone,
    Destination.make ''hulu'' ClassSite
      ''https://www.hulu.com'' [(''Range'', rangeFirst1KiB)] ExpectReachable 0 maxAssetBytes VerifyNone,
    Destination.make ''disney'' ClassSite
      ''https://www.disneyplus.com'' [(''Range'', rangeFirst1KiB)] ExpectBody 0 maxAssetBytes VerifyNone,
    Destination.make ''spotify'' ClassSite
      ''https://open.spotify.com'' [(''Range'', rangeFirst1KiB)] ExpectBody 0 maxAssetBytes VerifyNone,
    Destination.make ''soundcloud'' ClassSite
      ''https://soundcloud.com'' [(''Range'', rangeFirst1KiB)] ExpectBody 0 maxAssetBytes VerifyNone,
    Destination.make ''dailymotion'' ClassSite
      ''https://www.dailymotion.com'' [(''Range'', rangeFirst1KiB)] ExpectBody 0 maxAssetBytes VerifyNone,
    Destination.make ''amazon'' ClassSite
      ''https://www.amazon.com'' [(''Range'', rangeFirst1KiB)] ExpectBody 0 maxAssetBytes VerifyNone,
    Destination.make ''ebay'' ClassSite
      ''https://www.ebay.com'' [(''Range'', rangeFirst1KiB)] ExpectBody 0 maxAssetBytes VerifyNone,
    Destination.make ''walmart'' ClassSite
      ''https://www.walmart.com'' [(''Range'', rangeFirst1KiB)] ExpectBody 0 maxAssetBytes VerifyNone,
    Destination.make ''alibaba'' ClassSite
      ''https://www.alibaba.com'' [(''Range'', rangeFirst1KiB)] ExpectBody 0 maxAssetBytes VerifyNone,
    Destination.make ''aliexpress'' ClassSite
      ''https://www.aliexpress.com'' [(''Range'', rangeFirst1KiB)] ExpectBody 0 maxAssetBytes VerifyNone,
    Destination.make ''target'' ClassSite
      ''https://www.target.com'' [(''Range'', rangeFirst1KiB)] ExpectBody 0 maxAssetBytes VerifyNone,
    Destination.make ''shopify'' ClassSite
      ''https://www.shopify.com'' [(''Range'', rangeFirst1KiB)] ExpectBody 0 maxAssetBytes VerifyNone,
    Destination.make ''microsoft'' ClassSite
      ''https://www.microsoft.com'' [(''Range'', rangeFirst1KiB)] ExpectReachable 0 maxAssetBytes VerifyNone,
    Destination.make ''apple'' ClassSite
      ''https://www.apple.com/robots.txt'' [(''Range'', rangeFirst1KiB)] ExpectBody 0 maxAssetBytes VerifyNone,
    Destination.make ''github'' ClassSite
      ''https://github.com/robots.txt'' [(''Range'', rangeFirst1KiB)] ExpectBody 0 maxAssetBytes VerifyNone]"

definition site_destinations_3 :: "Destination list" where
  "site_destinations_3 = [
    Destination.make ''github-api'' ClassSite
      ''https://api.github.com'' [(''Range'', rangeFirst1KiB)] ExpectBody 0 maxAssetBytes VerifyNone,
    Destination.make ''gitlab'' ClassSite
      ''https://gitlab.com'' [] ExpectStatus 301 maxAssetBytes VerifyNone,
    Destination.make ''cloudflare'' ClassSite
      ''https://www.cloudflare.com/robots.txt'' [(''Range'', rangeFirst1KiB)] ExpectBody 0 maxAssetBytes VerifyNone,
    Destination.make ''aws'' ClassSite
      ''https://aws.amazon.com'' [(''Range'', rangeFirst1KiB)] ExpectBody 0 maxAssetBytes VerifyNone,
    Destination.make ''google-cloud'' ClassSite
      ''https://cloud.google.com'' [(''Range'', rangeFirst1KiB)] ExpectBody 0 maxAssetBytes VerifyNone,
    Destination.make ''digitalocean'' ClassSite
      ''https://www.digitalocean.com'' [(''Range'', rangeFirst1KiB)] ExpectBody 0 maxAssetBytes VerifyNone,
    Destination.make ''docker-hub'' ClassSite
      ''https://hub.docker.com'' [(''Range'', rangeFirst1KiB)] ExpectBody 0 maxAssetBytes VerifyNone,
    Destination.make ''npm-registry'' ClassSite
      ''https://registry.npmjs.org'' [(''Range'', rangeFirst1KiB)] ExpectBody 0 maxAssetBytes VerifyNone,
    Destination.make ''pypi'' ClassSite
      ''https://pypi.org'' [(''Range'', rangeFirst1KiB)] ExpectBody 0 maxAssetBytes VerifyNone,
    Destination.make ''rubygems'' ClassSite
      ''https://rubygems.org'' [(''Range'', rangeFirst1KiB)] ExpectBody 0 maxAssetBytes VerifyNone,
    Destination.make ''python-org'' ClassSite
      ''https://www.python.org'' [(''Range'', rangeFirst1KiB)] ExpectBody 0 maxAssetBytes VerifyNone,
    Destination.make ''go-dev'' ClassSite
      ''https://go.dev'' [(''Range'', rangeFirst1KiB)] ExpectBody 0 maxAssetBytes VerifyNone,
    Destination.make ''kernel-org'' ClassSite
      ''https://www.kernel.org'' [(''Range'', rangeFirst1KiB)] ExpectBody 0 maxAssetBytes VerifyNone,
    Destination.make ''mdn'' ClassSite
      ''https://developer.mozilla.org'' [] ExpectStatus 302 maxAssetBytes VerifyNone,
    Destination.make ''cnn'' ClassSite
      ''https://www.cnn.com/robots.txt'' [(''Range'', rangeFirst1KiB)] ExpectBody 0 maxAssetBytes VerifyNone,
    Destination.make ''bbc'' ClassSite
      ''https://www.bbc.com'' [(''Range'', rangeFirst1KiB)] ExpectBody 0 maxAssetBytes VerifyNone,
    Destination.make ''new-york-times'' ClassSite
      ''https://www.nytimes.com'' [(''Range'', rangeFirst1KiB)] ExpectBody 0 maxAssetBytes VerifyNone,
    Destination.make ''the-guardian'' ClassSite
      ''https://www.theguardian.com'' [] ExpectStatus 302 maxAssetBytes VerifyNone,
    Destination.make ''ap-news'' ClassSite
      ''https://apnews.com'' [(''Range'', rangeFirst1KiB)] ExpectBody 0 maxAssetBytes VerifyNone,
    Destination.make ''al-jazeera'' ClassSite
      ''https://www.aljazeera.com'' [(''Range'', rangeFirst1KiB)] ExpectBody 0 maxAssetBytes VerifyNone]"

definition site_destinations_4 :: "Destination list" where
  "site_destinations_4 = [
    Destination.make ''deutsche-welle'' ClassSite
      ''https://www.dw.com'' [(''Range'', rangeFirst1KiB)] ExpectBody 0 maxAssetBytes VerifyNone,
    Destination.make ''france-24'' ClassSite
      ''https://www.france24.com'' [] ExpectStatus 302 maxAssetBytes VerifyNone,
    Destination.make ''wikipedia'' ClassSite
      ''https://www.wikipedia.org/static/favicon/wikipedia.ico'' [(''Range'', rangeFirst1KiB)] ExpectBody 0 maxAssetBytes VerifyNone,
    Destination.make ''wordpress'' ClassSite
      ''https://wordpress.com'' [(''Range'', rangeFirst1KiB)] ExpectBody 0 maxAssetBytes VerifyNone,
    Destination.make ''imdb'' ClassSite
      ''https://www.imdb.com'' [] ExpectStatus 202 maxAssetBytes VerifyNone,
    Destination.make ''internet-archive'' ClassSite
      ''https://archive.org'' [(''Range'', rangeFirst1KiB)] ExpectBody 0 maxAssetBytes VerifyNone,
    Destination.make ''noaa-weather'' ClassSite
      ''https://www.weather.gov'' [(''Range'', rangeFirst1KiB)] ExpectBody 0 maxAssetBytes VerifyNone,
    Destination.make ''qq'' ClassSite
      ''https://www.qq.com'' [(''Range'', rangeFirst1KiB)] ExpectBody 0 maxAssetBytes VerifyNone,
    Destination.make ''sina'' ClassSite
      ''https://www.sina.com.cn'' [(''Range'', rangeFirst1KiB)] ExpectBody 0 maxAssetBytes VerifyNone,
    Destination.make ''taobao'' ClassSite
      ''https://www.taobao.com'' [(''Range'', rangeFirst1KiB)] ExpectBody 0 maxAssetBytes VerifyNone,
    Destination.make ''jd-com'' ClassSite
      ''https://www.jd.com'' [] ExpectStatus 301 maxAssetBytes VerifyNone,
    Destination.make ''mail-ru'' ClassSite
      ''https://mail.ru'' [(''Range'', rangeFirst1KiB)] ExpectBody 0 maxAssetBytes VerifyNone,
    Destination.make ''vk'' ClassSite
      ''https://vk.com'' [] ExpectStatus 302 maxAssetBytes VerifyNone,
    Destination.make ''naver'' ClassSite
      ''https://www.naver.com'' [(''Range'', rangeFirst1KiB)] ExpectBody 0 maxAssetBytes VerifyNone,
    Destination.make ''line'' ClassSite
      ''https://line.me'' [] ExpectStatus 302 maxAssetBytes VerifyNone,
    Destination.make ''times-of-india'' ClassSite
      ''https://timesofindia.indiatimes.com/robots.txt'' [(''Range'', rangeFirst1KiB)] ExpectBody 0 maxAssetBytes VerifyNone,
    Destination.make ''globo'' ClassSite
      ''https://www.globo.com'' [(''Range'', rangeFirst1KiB)] ExpectBody 0 maxAssetBytes VerifyNone,
    Destination.make ''mercadolibre'' ClassSite
      ''https://www.mercadolibre.com'' [(''Range'', rangeFirst1KiB)] ExpectBody 0 maxAssetBytes VerifyNone,
    Destination.make ''abc-australia'' ClassSite
      ''https://www.abc.net.au'' [(''Range'', rangeFirst1KiB)] ExpectBody 0 maxAssetBytes VerifyNone]"

definition site_destinations_5 :: "Destination list" where
  "site_destinations_5 = [
    Destination.make ''news24'' ClassSite
      ''https://www.news24.com'' [(''Range'', rangeFirst1KiB)] ExpectBody 0 maxAssetBytes VerifyNone,
    Destination.make ''zoom'' ClassSite
      ''https://zoom.us'' [] ExpectStatus 301 maxAssetBytes VerifyNone,
    Destination.make ''slack'' ClassSite
      ''https://slack.com'' [(''Range'', rangeFirst1KiB)] ExpectBody 0 maxAssetBytes VerifyNone,
    Destination.make ''dropbox'' ClassSite
      ''https://www.dropbox.com'' [(''Range'', rangeFirst1KiB)] ExpectBody 0 maxAssetBytes VerifyNone,
    Destination.make ''notion'' ClassSite
      ''https://www.notion.so'' [] ExpectStatus 307 maxAssetBytes VerifyNone,
    Destination.make ''trello'' ClassSite
      ''https://trello.com'' [(''Range'', rangeFirst1KiB)] ExpectBody 0 maxAssetBytes VerifyNone,
    Destination.make ''atlassian'' ClassSite
      ''https://www.atlassian.com'' [(''Range'', rangeFirst1KiB)] ExpectBody 0 maxAssetBytes VerifyNone,
    Destination.make ''figma'' ClassSite
      ''https://www.figma.com'' [(''Range'', rangeFirst1KiB)] ExpectBody 0 maxAssetBytes VerifyNone,
    Destination.make ''steam'' ClassSite
      ''https://store.steampowered.com'' [(''Range'', rangeFirst1KiB)] ExpectBody 0 maxAssetBytes VerifyNone,
    Destination.make ''playstation'' ClassSite
      ''https://www.playstation.com'' [] ExpectStatus 301 maxAssetBytes VerifyNone,
    Destination.make ''xbox'' ClassSite
      ''https://www.xbox.com'' [] ExpectStatus 307 maxAssetBytes VerifyNone,
    Destination.make ''nintendo'' ClassSite
      ''https://www.nintendo.com'' [] ExpectStatus 301 maxAssetBytes VerifyNone,
    Destination.make ''roblox'' ClassSite
      ''https://www.roblox.com'' [(''Range'', rangeFirst1KiB)] ExpectBody 0 maxAssetBytes VerifyNone,
    Destination.make ''riot-games'' ClassSite
      ''https://www.riotgames.com'' [] ExpectStatus 302 maxAssetBytes VerifyNone]"

definition reputation_destinations :: "Destination list" where
  "reputation_destinations = [
    Destination.make ''akamai'' ClassReputation
      ''https://www.akamai.com'' [(''Range'', rangeFirst1KiB)] ExpectBody 0 maxAssetBytes VerifyNone,
    Destination.make ''ecosia'' ClassReputation
      ''https://www.ecosia.org'' [(''Range'', rangeFirst1KiB)] ExpectBody 0 maxAssetBytes VerifyNone,
    Destination.make ''reddit'' ClassReputation
      ''https://www.reddit.com'' [(''Range'', rangeFirst1KiB)] ExpectBody 0 maxAssetBytes VerifyNone,
    Destination.make ''etsy'' ClassReputation
      ''https://www.etsy.com'' [(''Range'', rangeFirst1KiB)] ExpectBody 0 maxAssetBytes VerifyNone,
    Destination.make ''stack-overflow'' ClassReputation
      ''https://stackoverflow.com'' [] ExpectStatus 302 maxAssetBytes VerifyNone,
    Destination.make ''reuters'' ClassReputation
      ''https://www.reuters.com'' [(''Range'', rangeFirst1KiB)] ExpectBody 0 maxAssetBytes VerifyNone,
    Destination.make ''canva'' ClassReputation
      ''https://www.canva.com'' [(''Range'', rangeFirst1KiB)] ExpectBody 0 maxAssetBytes VerifyNone,
    Destination.make ''epic-games'' ClassReputation
      ''https://www.epicgames.com'' [(''Range'', rangeFirst1KiB)] ExpectBody 0 maxAssetBytes VerifyNone]"

definition site_destinations :: "Destination list" where
  "site_destinations = site_destinations_1 @ site_destinations_2 @ site_destinations_3
     @ site_destinations_4 @ site_destinations_5"

definition destinations :: "Destination list" where
  "destinations = dns_destinations @ connectivity_destinations @ cdn_destinations
     @ site_destinations @ reputation_destinations"

lemmas destination_rows = dns_destinations_def connectivity_destinations_def cdn_destinations_def
  site_destinations_1_def site_destinations_2_def site_destinations_3_def site_destinations_4_def
  site_destinations_5_def reputation_destinations_def

subsection \<open>Facts about the table\<close>

definition row_ok :: "Class \<Rightarrow> Destination \<Rightarrow> bool" where
  "row_ok c d \<longleftrightarrow> d_Class d = c \<and> d_Name d \<noteq> [] \<and> prefix ''https://'' (d_URL d)
    \<and> 0 < d_MaxBytes d \<and> d_MaxBytes d \<le> MaxBodyBytes
    \<and> (if d_Expect d = ExpectStatus then 200 \<le> d_Status d \<and> d_Status d < 400 else d_Status d = 0)"

lemma table_rows:
  "list_all (row_ok ClassDNS) dns_destinations"
  "list_all (row_ok ClassConnectivity) connectivity_destinations"
  "list_all (row_ok ClassCDN) cdn_destinations"
  "list_all (row_ok ClassSite) site_destinations_1"
  "list_all (row_ok ClassSite) site_destinations_2"
  "list_all (row_ok ClassSite) site_destinations_3"
  "list_all (row_ok ClassSite) site_destinations_4"
  "list_all (row_ok ClassSite) site_destinations_5"
  "list_all (row_ok ClassReputation) reputation_destinations"
  unfolding destination_rows
  by (simp_all add: Destination.make_def row_ok_def table_bytes)

lemma table_lengths:
  "length dns_destinations = 7" "length connectivity_destinations = 14"
  "length cdn_destinations = 18" "length site_destinations_1 = 21" "length site_destinations_2 = 18"
  "length site_destinations_3 = 20" "length site_destinations_4 = 19"
  "length site_destinations_5 = 14" "length reputation_destinations = 8"
  unfolding destination_rows by simp_all

lemmas destination_parts = destinations_def site_destinations_def

lemma destination_count: "length destinations = 139"
  by (simp add: destination_parts table_lengths)

lemma site_rows: "list_all (row_ok ClassSite) site_destinations"
  by (simp add: site_destinations_def table_rows)

lemma row_ok_class: "list_all (row_ok c) ds \<Longrightarrow>
    filter (\<lambda>d. d_Class d = k) ds = (if k = c then ds else [])"
  by (induction ds) (auto simp: row_ok_def)

lemma all_rows:
  assumes "d \<in> set destinations"
  shows "row_ok (d_Class d) d"
proof -
  have "\<exists>c. row_ok c d"
    using assms table_rows(1-3,9) site_rows by (auto simp: destinations_def list_all_iff)
  then show ?thesis by (auto simp: row_ok_def)
qed

lemmas row_filters = table_rows(1-3,9)[THEN row_ok_class] site_rows[THEN row_ok_class]

lemma class_filter:
  "filter (\<lambda>d. d_Class d = ClassDNS) destinations = dns_destinations"
  "filter (\<lambda>d. d_Class d = ClassConnectivity) destinations = connectivity_destinations"
  "filter (\<lambda>d. d_Class d = ClassCDN) destinations = cdn_destinations"
  "filter (\<lambda>d. d_Class d = ClassSite) destinations = site_destinations"
  "filter (\<lambda>d. d_Class d = ClassReputation) destinations = reputation_destinations"
  by (simp_all add: destinations_def row_filters class_names)

lemma destination_names: "distinct (map d_Name destinations)"
  unfolding destination_parts destination_rows by (simp add: Destination.make_def)

subsection \<open>The URLs of the table\<close>

lemma table_urls:
  "list_all (plain_https \<circ> d_URL) dns_destinations"
  "list_all (plain_https \<circ> d_URL) connectivity_destinations"
  "list_all (plain_https \<circ> d_URL) cdn_destinations"
  "list_all (plain_https \<circ> d_URL) site_destinations_1"
  "list_all (plain_https \<circ> d_URL) site_destinations_2"
  "list_all (plain_https \<circ> d_URL) site_destinations_3"
  "list_all (plain_https \<circ> d_URL) site_destinations_4"
  "list_all (plain_https \<circ> d_URL) site_destinations_5"
  "list_all (plain_https \<circ> d_URL) reputation_destinations"
  unfolding destination_rows by (simp_all add: Destination.make_def url_eval dnsQuery_def)

text \<open>Every destination is a plain https URL, so its host is the name between the slashes.\<close>

lemma destination_urls: "d \<in> set destinations \<Longrightarrow> plain_https (d_URL d)"
  using table_urls by (auto simp: destination_parts list_all_iff)

end
