(* ===== verification/Health_Sample.thy ===== *)
theory Health_Sample
  imports Health_Table
begin

text \<open>
  The sampling of \<open>egresshealth/egresshealth.go\<close>: for every class of the table a partial
  Fisher-Yates shuffle of the class's indices, the union put back into table order. The random
  generator is a parameter: \<open>intn g n\<close> is \<open>rand.Intn(n)\<close> and the next state, and the only
  documented fact used is that the draw is below \<open>n\<close>. The theorems give the exact size and
  composition of a sample and the bound on the bytes it can cost.
\<close>

subsection \<open>The code\<close>

definition tableClasses :: "Destination list \<Rightarrow> Class list" where
  "tableClasses dests = dedup_from {} (map d_Class dests)"

definition sampleCount :: "Destination list \<Rightarrow> Class \<Rightarrow> (Class \<times> int) list \<Rightarrow> nat" where
  "sampleCount dests c sizes =
    (let total = count_if (\<lambda>d. d_Class d = c) dests in
     case map_of sizes c of
       None \<Rightarrow> total
     | Some n \<Rightarrow> if n \<le> 0 \<or> int total < n then total else nat n)"

definition class_indices :: "Destination list \<Rightarrow> Class \<Rightarrow> nat list" where
  "class_indices dests c = filter (\<lambda>i. d_Class (dests ! i) = c) [0..<length dests]"

type_synonym 'g intn = "'g \<Rightarrow> nat \<Rightarrow> nat \<times> 'g"

text \<open>The rounds \<open>i, i+1, ..., i+k-1\<close> of the shuffle.\<close>

fun shuffle_from :: "'g intn \<Rightarrow> nat \<Rightarrow> nat \<Rightarrow> nat list \<Rightarrow> 'g \<Rightarrow> nat list \<times> 'g" where
  "shuffle_from intn i 0 xs g = (xs, g)"
| "shuffle_from intn i (Suc k) xs g =
    (let (r, g') = intn g (length xs - i); j = i + r
     in shuffle_from intn (i + 1) k (xs[i := xs ! j, j := xs ! i]) g')"

definition pick_class :: "'g intn \<Rightarrow> Destination list \<Rightarrow> (Class \<times> int) list \<Rightarrow> Class \<Rightarrow> 'g \<Rightarrow> nat list \<times> 'g" where
  "pick_class intn dests sizes c g =
    (let idx = class_indices dests c; n = sampleCount dests c sizes in
     if length idx \<le> n then (idx, g)
     else (let (shuffled, g') = shuffle_from intn 0 n idx g in (take n shuffled, g')))"

fun pick_classes :: "'g intn \<Rightarrow> Destination list \<Rightarrow> (Class \<times> int) list \<Rightarrow> Class list \<Rightarrow> 'g \<Rightarrow> nat list \<times> 'g" where
  "pick_classes intn dests sizes [] g = ([], g)"
| "pick_classes intn dests sizes (c # cs) g =
    (let (js, g1) = pick_class intn dests sizes c g;
         (rest, g2) = pick_classes intn dests sizes cs g1
     in (js @ rest, g2))"

definition sampleDestinations :: "'g intn \<Rightarrow> Destination list \<Rightarrow> (Class \<times> int) list \<Rightarrow> 'g \<Rightarrow> Destination list \<times> 'g" where
  "sampleDestinations intn dests sizes g =
    (let (picked, g') = pick_classes intn dests sizes (tableClasses dests) g
     in (map (\<lambda>i. dests ! i) (sort picked), g'))"

definition SamplePerRun :: nat where
  "SamplePerRun = sum_list (map (\<lambda>c. sampleCount destinations c sampleSizes) (tableClasses destinations))"

subsection \<open>The shuffle\<close>

definition intn_ok :: "'g intn \<Rightarrow> bool" where
  "intn_ok intn \<longleftrightarrow> (\<forall>g n. 0 < n \<longrightarrow> fst (intn g n) < n)"

lemma swap_mset: "i < length xs \<Longrightarrow> j < length xs \<Longrightarrow> mset (xs[i := xs ! j, j := xs ! i]) = mset xs"
  by (rule mset_swap)

lemma shuffle_mset:
  assumes "intn_ok intn"
  shows "i + k \<le> length xs \<Longrightarrow> mset (fst (shuffle_from intn i k xs g)) = mset xs"
proof (induction k arbitrary: i xs g)
  case (Suc k)
  define r where "r = fst (intn g (length xs - i))"
  have "r < length xs - i" using assms Suc.prems by (simp add: intn_ok_def r_def)
  then have "i + r < length xs" "i < length xs" by simp_all
  then show ?case
    using Suc.IH[of "i + 1" "xs[i := xs ! (i + r), i + r := xs ! i]"] Suc.prems
    by (simp add: split_beta Let_def r_def[symmetric] swap_mset)
qed simp

lemma class_indices_facts:
  "distinct (class_indices dests c)" "sorted (class_indices dests c)"
  "set (class_indices dests c) = {i. i < length dests \<and> d_Class (dests ! i) = c}"
  by (auto simp: class_indices_def sorted_wrt_filter)

lemma class_indices_length: "length (class_indices dests c) = count_if (\<lambda>d. d_Class d = c) dests"
proof -
  have "filter (\<lambda>d. d_Class d = c) (map (\<lambda>i. dests ! i) [0..<length dests])
      = map (\<lambda>i. dests ! i) (class_indices dests c)"
    by (simp add: filter_map comp_def class_indices_def)
  then show ?thesis by (metis length_map map_nth)
qed

lemma sampleCount_le: "sampleCount dests c sizes \<le> length (class_indices dests c)"
  by (auto simp: sampleCount_def class_indices_length Let_def split: option.split)

lemma pick_class_facts:
  assumes "intn_ok intn"
  shows "distinct (fst (pick_class intn dests sizes c g))
    \<and> set (fst (pick_class intn dests sizes c g)) \<subseteq> set (class_indices dests c)
    \<and> length (fst (pick_class intn dests sizes c g)) = sampleCount dests c sizes"
proof (cases "length (class_indices dests c) \<le> sampleCount dests c sizes")
  case True
  then show ?thesis using sampleCount_le[of dests c sizes] class_indices_facts
    by (simp add: pick_class_def Let_def)
next
  case False
  define ys where "ys = fst (shuffle_from intn 0 (sampleCount dests c sizes) (class_indices dests c) g)"
  have "mset ys = mset (class_indices dests c)"
    unfolding ys_def using False by (intro shuffle_mset[OF assms]) simp
  then have "distinct ys" "set ys = set (class_indices dests c)" "length ys = length (class_indices dests c)"
    using class_indices_facts(1) by (metis mset_eq_imp_distinct_iff, metis set_mset_mset, metis size_mset)
  moreover have "fst (pick_class intn dests sizes c g) = take (sampleCount dests c sizes) ys"
    using False by (simp add: pick_class_def Let_def split_beta ys_def)
  ultimately show ?thesis using False by (auto dest: in_set_takeD)
qed

lemma pick_classes_facts:
  assumes "intn_ok intn" "distinct cs"
  shows "distinct (fst (pick_classes intn dests sizes cs g))
    \<and> (\<forall>i\<in>set (fst (pick_classes intn dests sizes cs g)). i < length dests \<and> d_Class (dests ! i) \<in> set cs)
    \<and> (\<forall>c. count_if (\<lambda>i. d_Class (dests ! i) = c) (fst (pick_classes intn dests sizes cs g))
          = (if c \<in> set cs then sampleCount dests c sizes else 0))"
  using assms(2)
proof (induction cs arbitrary: g)
  case (Cons c cs)
  define js where "js = fst (pick_class intn dests sizes c g)"
  define g1 where "g1 = snd (pick_class intn dests sizes c g)"
  define rest where "rest = fst (pick_classes intn dests sizes cs g1)"
  have eq: "fst (pick_classes intn dests sizes (c # cs) g) = js @ rest"
    by (simp add: split_beta Let_def js_def g1_def rest_def)
  have js: "distinct js" "set js \<subseteq> {i. i < length dests \<and> d_Class (dests ! i) = c}"
    "length js = sampleCount dests c sizes"
    using pick_class_facts[OF assms(1), of dests sizes c g] class_indices_facts(3)[of dests c]
    by (simp_all add: js_def)
  have rest: "distinct rest" "\<forall>i\<in>set rest. i < length dests \<and> d_Class (dests ! i) \<in> set cs"
    "\<And>k. count_if (\<lambda>i. d_Class (dests ! i) = k) rest = (if k \<in> set cs then sampleCount dests k sizes else 0)"
    using Cons.IH[of g1] Cons.prems by (simp_all add: rest_def)
  have "filter (\<lambda>i. d_Class (dests ! i) = k) js = (if k = c then js else [])" for k
    using js(2) by (auto simp: filter_empty_conv intro!: filter_True)
  moreover have "set js \<inter> set rest = {}" using js(2) rest(2) Cons.prems by auto
  ultimately show ?case unfolding eq using js rest Cons.prems by auto
qed simp

lemma tableClasses_facts:
  "distinct (tableClasses dests)" "set (tableClasses dests) = d_Class ` set dests"
  by (simp_all add: tableClasses_def)

lemma sorted_indices_subseq:
  assumes "sorted js" "distinct js" "\<forall>i\<in>set js. i < length xs"
  shows "subseq (map (\<lambda>i. xs ! i) js) xs"
proof -
  have "js = filter (\<lambda>i. i \<in> set js) [0..<length xs]"
    using assms by (intro sorted_distinct_set_unique) (auto simp: sorted_wrt_filter)
  then have "subseq js [0..<length xs]" by (metis subseq_filter_left)
  then have "subseq (map (\<lambda>i. xs ! i) js) (map (\<lambda>i. xs ! i) [0..<length xs])" by (rule subseq_map)
  then show ?thesis by (simp add: map_nth)
qed

lemma sample_selection:
  assumes "intn_ok intn"
  shows "subseq (fst (sampleDestinations intn dests sizes g)) dests
    \<and> (\<forall>c. count_if (\<lambda>d. d_Class d = c) (fst (sampleDestinations intn dests sizes g))
        = (if c \<in> d_Class ` set dests then sampleCount dests c sizes else 0))"
proof -
  define picked where "picked = fst (pick_classes intn dests sizes (tableClasses dests) g)"
  have sample: "fst (sampleDestinations intn dests sizes g) = map (\<lambda>i. dests ! i) (sort picked)"
    by (simp add: sampleDestinations_def split_beta Let_def picked_def)
  have facts: "distinct picked" "\<forall>i\<in>set picked. i < length dests"
    "\<And>c. count_if (\<lambda>i. d_Class (dests ! i) = c) picked
      = (if c \<in> d_Class ` set dests then sampleCount dests c sizes else 0)"
    using pick_classes_facts[OF assms tableClasses_facts(1), of dests sizes dests g] tableClasses_facts(2)[of dests]
    by (simp_all add: picked_def)
  have "count_if (\<lambda>d. d_Class d = c) (map (\<lambda>i. dests ! i) (sort picked))
      = count_if (\<lambda>i. d_Class (dests ! i) = c) picked" for c
  proof -
    have "mset (filter (\<lambda>i. d_Class (dests ! i) = c) (sort picked))
        = mset (filter (\<lambda>i. d_Class (dests ! i) = c) picked)" by simp
    then show ?thesis by (metis (no_types, lifting) filter_map comp_def length_map size_mset filter_cong)
  qed
  moreover have "subseq (map (\<lambda>i. dests ! i) (sort picked)) dests"
    using facts by (intro sorted_indices_subseq) auto
  ultimately show ?thesis unfolding sample using facts(3) by simp
qed

text \<open>
  C40. A sample is a selection of the table's destinations without repetition, in table order,
  and takes from every class exactly the number \<open>sampleCount\<close> says, whatever the generator
  draws.
\<close>

theorem sampleDestinations_exact:
  assumes "intn_ok intn"
  shows "subseq (fst (sampleDestinations intn dests sizes g)) dests
    \<and> (\<forall>c. count_if (\<lambda>d. d_Class d = c) (fst (sampleDestinations intn dests sizes g))
        = (if c \<in> d_Class ` set dests then sampleCount dests c sizes else 0))"
  by (rule sample_selection[OF assms])

subsection \<open>The production sample\<close>

definition table_class_set :: "Class set" where
  "table_class_set = {ClassDNS, ClassConnectivity, ClassCDN, ClassSite, ClassReputation}"

lemma class_sizes:
  "count_if (\<lambda>d. d_Class d = ClassDNS) destinations = 7"
  "count_if (\<lambda>d. d_Class d = ClassConnectivity) destinations = 14"
  "count_if (\<lambda>d. d_Class d = ClassCDN) destinations = 18"
  "count_if (\<lambda>d. d_Class d = ClassSite) destinations = 92"
  "count_if (\<lambda>d. d_Class d = ClassReputation) destinations = 8"
  by (simp_all only: class_filter, simp_all add: site_destinations_def table_lengths)

lemma production_counts:
  "sampleCount destinations ClassDNS sampleSizes = 4"
  "sampleCount destinations ClassConnectivity sampleSizes = 5"
  "sampleCount destinations ClassCDN sampleSizes = 5"
  "sampleCount destinations ClassSite sampleSizes = 12"
  "sampleCount destinations ClassReputation sampleSizes = 4"
  by (simp_all only: sampleCount_def class_sizes, simp_all add: sampleSizes_def)

lemma class_occurs: "0 < count_if (\<lambda>d. d_Class d = c) ds \<Longrightarrow> c \<in> d_Class ` set ds"
  by (force simp: filter_empty_conv)

lemma table_class_image: "d_Class ` set destinations = table_class_set"
proof
  show "d_Class ` set destinations \<subseteq> table_class_set"
    using table_rows(1-3,9) site_rows
    by (auto simp: destinations_def table_class_set_def list_all_iff row_ok_def)
  show "table_class_set \<subseteq> d_Class ` set destinations"
    unfolding table_class_set_def
    by (intro insert_subsetI empty_subsetI class_occurs) (simp_all only: class_sizes zero_less_numeral)
qed

definition class_cap :: "Class \<Rightarrow> int" where
  "class_cap c = (if c = ClassDNS then 768 else if c = ClassConnectivity then 256 else 1024)"

lemma table_caps_rows:
  "list_all (\<lambda>d. maxBytes d = 768) dns_destinations"
  "list_all (\<lambda>d. maxBytes d = 256) connectivity_destinations"
  by (simp_all add: dns_destinations_def connectivity_destinations_def Destination.make_def
      maxBytes_def table_bytes)

lemma maxBytes_range: "0 < maxBytes d \<and> maxBytes d \<le> 1024"
  by (simp add: maxBytes_def MaxBodyBytes_def)

lemma table_caps: "d \<in> set destinations \<Longrightarrow> maxBytes d \<le> class_cap (d_Class d)"
proof -
  assume d: "d \<in> set destinations"
  consider "d_Class d = ClassDNS" | "d_Class d = ClassConnectivity"
    | "d_Class d \<noteq> ClassDNS" "d_Class d \<noteq> ClassConnectivity" by blast
  then show ?thesis
  proof cases
    case 1
    then have "d \<in> set (filter (\<lambda>d. d_Class d = ClassDNS) destinations)" using d by simp
    then show ?thesis using 1 table_caps_rows(1) by (auto simp: class_filter list_all_iff class_cap_def)
  next
    case 2
    then have "d \<in> set (filter (\<lambda>d. d_Class d = ClassConnectivity) destinations)" using d by simp
    then show ?thesis using 2 table_caps_rows(2)
      by (auto simp: class_filter list_all_iff class_cap_def)
  next
    case 3
    then show ?thesis using maxBytes_range by (simp add: class_cap_def)
  qed
qed

lemma sum_by_class:
  assumes "finite K" "d_Class ` set xs \<subseteq> K"
  shows "(\<Sum>d\<leftarrow>xs. f (d_Class d)) = (\<Sum>c\<in>K. int (count_if (\<lambda>d. d_Class d = c) xs) * f c)"
  using assms(2)
proof (induction xs)
  case (Cons x xs)
  have "(\<Sum>c\<in>K. int (count_if (\<lambda>d. d_Class d = c) (x # xs)) * f c)
      = (\<Sum>c\<in>K. (if d_Class x = c then f c else 0) + int (count_if (\<lambda>d. d_Class d = c) xs) * f c)"
    by (intro sum.cong) (auto simp: algebra_simps)
  also have "\<dots> = f (d_Class x) + (\<Sum>c\<in>K. int (count_if (\<lambda>d. d_Class d = c) xs) * f c)"
    using Cons.prems assms(1) by (simp add: sum.distrib sum.delta)
  finally show ?case using Cons by simp
qed simp

lemma subseq_set: "subseq xs ys \<Longrightarrow> set xs \<subseteq> set ys"
  by (auto simp: subseq_conv_nths dest: in_set_nthsD)

lemma production_counts_sample:
  assumes "intn_ok intn"
  shows "count_if (\<lambda>d. d_Class d = c) (fst (sampleDestinations intn destinations sampleSizes g))
    = (if c \<in> table_class_set then sampleCount destinations c sampleSizes else 0)"
  using sample_selection[OF assms, of destinations sampleSizes g] by (simp add: table_class_image)

lemma production_subset:
  assumes "intn_ok intn"
  shows "set (fst (sampleDestinations intn destinations sampleSizes g)) \<subseteq> set destinations"
  using sample_selection[OF assms, of destinations sampleSizes g] subseq_set by blast

lemma production_sum:
  fixes f :: "Class \<Rightarrow> int"
  assumes "intn_ok intn"
  shows "(\<Sum>d\<leftarrow>fst (sampleDestinations intn destinations sampleSizes g). f (d_Class d))
    = 4 * f ClassDNS + 5 * f ClassConnectivity + 5 * f ClassCDN + 12 * f ClassSite + 4 * f ClassReputation"
proof -
  have cls: "d_Class ` set (fst (sampleDestinations intn destinations sampleSizes g)) \<subseteq> table_class_set"
    using production_subset[OF assms] table_class_image by blast
  have fin: "finite table_class_set" by (simp add: table_class_set_def)
  show ?thesis unfolding sum_by_class[OF fin cls]
    by (simp add: production_counts_sample[OF assms] table_class_set_def production_counts)
qed

lemma production_sample_length:
  assumes "intn_ok intn"
  shows "length (fst (sampleDestinations intn destinations sampleSizes g)) = 30"
  using production_sum[OF assms, of "\<lambda>_. 1" g] by (simp add: sum_list_triv)

lemma SamplePerRun_value: "SamplePerRun = 30"
proof -
  have "SamplePerRun = (\<Sum>c\<in>table_class_set. sampleCount destinations c sampleSizes)"
    unfolding SamplePerRun_def using tableClasses_facts[of destinations]
    by (simp add: sum_list_distinct_conv_sum_set table_class_image)
  then show ?thesis by (simp add: table_class_set_def production_counts)
qed

text \<open>
  A production sample draws 30 of the 139 destinations: 4 dns, 5 connectivity, 5 cdn, 12
  site and 4 reputation, all different; the bodies it may read add up to at most 25,856 bytes.
\<close>

theorem production_sample:
  fixes intn :: "'g intn" and g :: 'g
  assumes "intn_ok intn"
  defines "sample \<equiv> fst (sampleDestinations intn destinations sampleSizes g)"
  shows "length sample = SamplePerRun \<and> SamplePerRun = 30 \<and> length destinations = 139
    \<and> distinct (map d_Name sample)
    \<and> map (\<lambda>c. count_if (\<lambda>d. d_Class d = c) sample)
        [ClassDNS, ClassConnectivity, ClassCDN, ClassSite, ClassReputation] = [4, 5, 5, 12, 4]
    \<and> sum_list (map maxBytes sample) \<le> 25856"
proof -
  have "subseq (map d_Name sample) (map d_Name destinations)"
    using sample_selection[OF assms(1), of destinations sampleSizes g] by (simp add: sample_def subseq_map)
  then have names: "distinct (map d_Name sample)"
    using destination_names by (metis subseq_conv_nths distinct_nthsI)
  have "sum_list (map maxBytes sample) \<le> (\<Sum>d\<leftarrow>sample. class_cap (d_Class d))"
    using production_subset[OF assms(1), of g] table_caps by (intro sum_list_mono) (auto simp: sample_def)
  also have "\<dots> = 25856"
    unfolding sample_def production_sum[OF assms(1)] by (simp add: class_cap_def)
  finally show ?thesis
    using names SamplePerRun_value destination_count
    by (simp add: sample_def production_sample_length[OF assms(1)] production_counts_sample[OF assms(1)]
        table_class_set_def production_counts)
qed

subsection \<open>A concrete generator\<close>

text \<open>A scripted source of draws: each is taken modulo the bound.\<close>

fun scripted :: "nat list intn" where
  "scripted [] n = (0, [])"
| "scripted (d # ds) n = (d mod n, ds)"

lemma scripted_ok: "intn_ok scripted"
proof -
  have "fst (scripted g n) < n" if "0 < n" for g n
    using that by (cases g) auto
  then show ?thesis by (simp add: intn_ok_def)
qed

theorem production_sample_witness:
  "length (fst (sampleDestinations scripted destinations sampleSizes [3, 1, 4, 1, 5])) = 30"
  using production_sample[OF scripted_ok, of "[3, 1, 4, 1, 5]"] by simp

theorem sampleDestinations_exact_witness:
  "count_if (\<lambda>d. d_Class d = ClassReputation)
     (fst (sampleDestinations scripted reputation_destinations [(ClassReputation, 3)] [6, 2, 9])) = 3"
proof -
  have "filter (\<lambda>d. d_Class d = ClassReputation) reputation_destinations = reputation_destinations"
    using row_ok_class[OF table_rows(9)] by simp
  then have "count_if (\<lambda>d. d_Class d = ClassReputation) reputation_destinations = 8"
    by (simp add: table_lengths)
  moreover from this have "ClassReputation \<in> d_Class ` set reputation_destinations"
    by (intro class_occurs) simp
  ultimately show ?thesis
    using sampleDestinations_exact[OF scripted_ok, of reputation_destinations "[(ClassReputation, 3)]" "[6, 2, 9]"]
    by (simp add: sampleCount_def)
qed

end
