(* ===== verification/Health_Check.thy ===== *)
theory Health_Check
  imports Health_Sample "HOL-Library.AList"
begin

text \<open>
  One run of the egress-health check of \<open>egresshealth/egresshealth.go\<close>: the judgement of one
  response, one fetch, the run over the chosen destinations with its tallies, and the
  renderings of a result. Parameters: the HTTP client, the time each request takes, and the
  record \<open>stdlib\<close>. The fetches run concurrently, each into its own slot, so the result slice is
  the list of the single outcomes; \<open>ByClass\<close> is an association list in insertion order.
\<close>

subsection \<open>Verifiers\<close>

definition truncate :: "string \<Rightarrow> nat \<Rightarrow> string" where
  "truncate s n = (if length s \<le> n then s else take n s @ ''...'')"

text \<open>The records of the field \<open>Answer\<close>, of which only \<open>data\<close> is decoded.\<close>

definition answers_ok :: "json \<Rightarrow> bool" where
  "answers_ok v = elements_type ''data'' v"

definition answer_list :: "(string \<times> json) list \<Rightarrow> string list" where
  "answer_list ms = fold (decode_elements ''data'') (members ''Answer'' ms) []"

definition decode_answers :: "stdlib \<Rightarrow> string \<Rightarrow> string list option" where
  "decode_answers L b =
    (case json_syntax b of
       None \<Rightarrow> None
     | Some j \<Rightarrow> (case struct_members j of
           None \<Rightarrow> None
         | Some ms \<Rightarrow> if list_all answers_ok (members ''Answer'' ms) then Some (answer_list ms) else None))"

definition verifyDNSJSON :: "stdlib \<Rightarrow> string \<Rightarrow> string option" where
  "verifyDNSJSON L b =
    (case decode_answers L b of
       None \<Rightarrow> Some (''the response is not dns json ('' @ json_text L b
          @ ''); a 200 with a body is not proof a name was resolved'')
     | Some as \<Rightarrow>
         if as = [] then Some ''the dns response carries no answer section; the request was answered by something that did not resolve the name''
         else if list_ex (\<lambda>a. TrimSpace a \<noteq> []) as then None
         else Some ''every record in the dns answer section is empty'')"

definition verifyIPText :: "stdlib \<Rightarrow> string \<Rightarrow> string option" where
  "verifyIPText L b =
    (if \<not> ParseIP (TrimSpace b)
     then Some (Quote (print_table L) (truncate (TrimSpace b) 64)
       @ '' is not an ip address; this endpoint returns one, so something else answered'')
     else None)"

definition verifyContains :: "stdlib \<Rightarrow> string \<Rightarrow> string \<Rightarrow> string option" where
  "verifyContains L want b =
    (if \<not> Contains (TrimSpace b) want
     then Some (''the body does not contain '' @ Quote (print_table L) want @ '' (got '' @ Quote (print_table L) (truncate (TrimSpace b) 64)
       @ ''); a captive portal answers 200 with a page'')
     else None)"

definition run_verifier :: "stdlib \<Rightarrow> verifier \<Rightarrow> string \<Rightarrow> string option" where
  "run_verifier L v b =
    (case v of VerifyNone \<Rightarrow> None | VerifyDNSJSON \<Rightarrow> verifyDNSJSON L b
     | VerifyIPText \<Rightarrow> verifyIPText L b | VerifyContains want \<Rightarrow> verifyContains L want b)"

subsection \<open>Judging a response\<close>

definition show_status :: "int \<Rightarrow> string" where
  "show_status n = (if n < 0 then CHR ''-'' # Itoa (nat (- n)) else Itoa (nat n))"

text \<open>The \<open>switch d.Expect\<close>: the error it returns, if any.\<close>

definition judge_status :: "Destination \<Rightarrow> int \<Rightarrow> string \<Rightarrow> string option" where
  "judge_status d status b =
    (case d_Expect d of
       ExpectStatus \<Rightarrow>
         if d_Status d \<le> 0 then Some ''destination declares ExpectStatus with no Status; it cannot be judged''
         else if status \<noteq> d_Status d
         then Some (''status '' @ show_status status @ '', want exactly '' @ show_status (d_Status d))
         else None
     | ExpectReachable \<Rightarrow>
         if status < 200 \<or> 400 \<le> status
         then Some (''status '' @ show_status status @ '', want any 2xx or 3xx'') else None
     | ExpectBody \<Rightarrow>
         if status < 200 \<or> 300 \<le> status then Some (''status '' @ show_status status)
         else if b = [] then Some (''status '' @ show_status status @ '' with an empty body'')
         else None)"

definition judge :: "stdlib \<Rightarrow> Destination \<Rightarrow> int \<Rightarrow> string \<Rightarrow> string option" where
  "judge L d status b =
    (case judge_status d status b of
       Some err \<Rightarrow> Some err
     | None \<Rightarrow> (case run_verifier L (d_Verify d) b of
           None \<Rightarrow> None
         | Some err \<Rightarrow> Some (''status '' @ show_status status @ '' but the body did not verify: '' @ err)))"

subsection \<open>One fetch\<close>

record CheckResult =
  ck_Name :: string
  ck_Class :: Class
  ck_OK :: bool
  ck_StatusCode :: int
  ck_ByteCount :: nat
  ck_Latency :: duration
  ck_Err :: string

definition check_request :: "Destination \<Rightarrow> http_request" where
  "check_request d = GET (d_URL d) ((''User-Agent'', UserAgent) # d_Headers d)"

text \<open>\<open>took\<close> is the time from the start of a fetch to the reading of its clock.\<close>

definition fetch :: "stdlib \<Rightarrow> http_client \<Rightarrow> (Destination \<Rightarrow> duration) \<Rightarrow> Destination \<Rightarrow> duration \<Rightarrow> CheckResult" where
  "fetch L client took d timeout =
    (let r = \<lparr> ck_Name = d_Name d, ck_Class = d_Class d, ck_OK = False, ck_StatusCode = 0,
               ck_ByteCount = 0, ck_Latency = took d, ck_Err = [] \<rparr>
     in case NewRequest (url_text L) (d_URL d) of
          Some err \<Rightarrow> r\<lparr> ck_Err := err \<rparr>
        | None \<Rightarrow>
          (case do_request client timeout (check_request d) of
             Inl err \<Rightarrow> r\<lparr> ck_Err := err \<rparr>
           | Inr resp \<Rightarrow>
             (let b = hr_Body resp; limit = nat (maxBytes d);
                  r1 = r\<lparr> ck_StatusCode := hr_StatusCode resp,
                          ck_ByteCount := min limit (length (bd_data b)) \<rparr>
              in case read_limited limit b of
                   Inl err \<Rightarrow> r1\<lparr> ck_Err := err \<rparr>
                 | Inr body \<Rightarrow>
                   (case judge L d (hr_StatusCode resp) body of
                      Some err \<Rightarrow> r1\<lparr> ck_Err := err \<rparr>
                    | None \<Rightarrow> r1\<lparr> ck_OK := True \<rparr>))))"

subsection \<open>The run\<close>

record ClassSummary =
  cs_OK :: nat
  cs_Total :: nat

definition summary0 :: ClassSummary where
  "summary0 = \<lparr> cs_OK = 0, cs_Total = 0 \<rparr>"

record Result =
  rs_Checks :: "CheckResult list"
  rs_OKCount :: nat
  rs_Total :: nat
  rs_ByClass :: "(Class \<times> ClassSummary) list"
  rs_Reputation :: ClassSummary
  rs_TableTotal :: nat

record Options =
  op_PerRequestTimeout :: duration
  op_Budget :: duration
  op_Concurrency :: int
  op_AllDestinations :: bool

datatype check_error = CheckNilClient | ErrNoDestinations | ErrNoBudget string

definition DefaultPerRequestTimeout :: duration where "DefaultPerRequestTimeout = 10 * Second"
definition DefaultBudget :: duration where "DefaultBudget = 60 * Second"
definition DefaultConcurrency :: int where "DefaultConcurrency = 6"

definition perRequestTimeout :: "Options \<Rightarrow> duration" where
  "perRequestTimeout o1 = (if 0 < op_PerRequestTimeout o1 then op_PerRequestTimeout o1 else DefaultPerRequestTimeout)"

definition budget :: "Options \<Rightarrow> duration" where
  "budget o1 = (if 0 < op_Budget o1 then op_Budget o1 else DefaultBudget)"

definition concurrency :: "Options \<Rightarrow> int" where
  "concurrency o1 = (if 0 < op_Concurrency o1 then op_Concurrency o1 else DefaultConcurrency)"

text \<open>\<open>byClass[c]\<close> reads the zero summary for an absent class.\<close>

definition class_get :: "(Class \<times> ClassSummary) list \<Rightarrow> Class \<Rightarrow> ClassSummary" where
  "class_get m c = (case map_of m c of Some s \<Rightarrow> s | None \<Rightarrow> summary0)"

record tally =
  tl_byClass :: "(Class \<times> ClassSummary) list"
  tl_reputation :: ClassSummary
  tl_total :: nat
  tl_ok :: nat

definition tally0 :: tally where
  "tally0 = \<lparr> tl_byClass = [], tl_reputation = summary0, tl_total = 0, tl_ok = 0 \<rparr>"

definition count_dest :: "Destination \<Rightarrow> tally \<Rightarrow> tally" where
  "count_dest d t =
    (if \<not> scored (d_Class d)
     then t\<lparr> tl_reputation := (tl_reputation t)\<lparr> cs_Total := cs_Total (tl_reputation t) + 1 \<rparr> \<rparr>
     else (let s = class_get (tl_byClass t) (d_Class d)
           in t\<lparr> tl_total := tl_total t + 1,
                 tl_byClass := AList.update (d_Class d) (s\<lparr> cs_Total := cs_Total s + 1 \<rparr>) (tl_byClass t) \<rparr>))"

definition count_result :: "CheckResult \<Rightarrow> tally \<Rightarrow> tally" where
  "count_result r t =
    (if \<not> ck_OK r then t
     else if \<not> scored (ck_Class r)
     then t\<lparr> tl_reputation := (tl_reputation t)\<lparr> cs_OK := cs_OK (tl_reputation t) + 1 \<rparr> \<rparr>
     else (let s = class_get (tl_byClass t) (ck_Class r)
           in t\<lparr> tl_ok := tl_ok t + 1,
                 tl_byClass := AList.update (ck_Class r) (s\<lparr> cs_OK := cs_OK s + 1 \<rparr>) (tl_byClass t) \<rparr>))"

text \<open>\<open>ctx_err\<close> is \<open>ctx.Err()\<close> when the run starts.\<close>

definition check :: "stdlib \<Rightarrow> string option \<Rightarrow> http_client option \<Rightarrow> (Destination \<Rightarrow> duration)
    \<Rightarrow> Destination list \<Rightarrow> Options \<Rightarrow> check_error + Result" where
  "check L ctx_err client took dests opts =
    (case client of
       None \<Rightarrow> Inl CheckNilClient
     | Some c \<Rightarrow>
       if dests = [] then Inl ErrNoDestinations
       else (case ctx_err of
           Some err \<Rightarrow> Inl (ErrNoBudget err)
         | None \<Rightarrow>
           (let results = map (\<lambda>d. fetch L c took d (perRequestTimeout opts)) dests;
                t = fold count_result results (fold count_dest dests tally0)
            in Inr \<lparr> rs_Checks = results, rs_OKCount = tl_ok t, rs_Total = tl_total t,
                     rs_ByClass = tl_byClass t, rs_Reputation = tl_reputation t,
                     rs_TableTotal = 0 \<rparr>)))"

definition Check :: "stdlib \<Rightarrow> 'g intn \<Rightarrow> 'g \<Rightarrow> string option \<Rightarrow> http_client option
    \<Rightarrow> (Destination \<Rightarrow> duration) \<Rightarrow> Options \<Rightarrow> check_error + Result" where
  "Check L intn g ctx_err client took opts =
    (let sampled = fst (sampleDestinations intn destinations sampleSizes g);
         chosen = (if op_AllDestinations opts then destinations else sampled)
     in map_sum id (\<lambda>res. res\<lparr> rs_TableTotal := length destinations \<rparr>)
          (check L ctx_err client took chosen opts))"

definition DestinationHosts :: "string list" where
  "DestinationHosts = hosts_of (map d_URL destinations)"

text \<open>The exported copy of the table; the copied header maps are equal to the originals.\<close>

definition Destinations :: "Destination list" where
  "Destinations = map (\<lambda>d. d\<lparr> d_Headers := map (\<lambda>(k, v). (k, v)) (d_Headers d) \<rparr>) destinations"

subsection \<open>Renderings\<close>

definition orderedClasses :: "Result \<Rightarrow> Class list" where
  "orderedClasses r =
    filter (\<lambda>c. map_of (rs_ByClass r) c \<noteq> None) Classes
    @ sort (filter (\<lambda>c. c \<notin> set Classes) (map fst (rs_ByClass r)))"

definition ratio :: "nat \<Rightarrow> nat \<Rightarrow> string" where
  "ratio ok whole = Itoa ok @ ''/'' @ Itoa whole"

definition Summary :: "Result option \<Rightarrow> string" where
  "Summary r0 =
    (case r0 of
       None \<Rightarrow> ''ok=0/0''
     | Some r \<Rightarrow>
       ''ok='' @ ratio (rs_OKCount r) (rs_Total r)
       @ concat (map (\<lambda>c. '' '' @ c @ ''='' @ ratio (cs_OK (class_get (rs_ByClass r) c))
            (cs_Total (class_get (rs_ByClass r) c))) (orderedClasses r))
       @ (if 0 < cs_Total (rs_Reputation r)
          then '' '' @ ClassReputation @ ''='' @ ratio (cs_OK (rs_Reputation r)) (cs_Total (rs_Reputation r))
          else [])
       @ (if 0 < rs_TableTotal r then '' table='' @ Itoa (rs_TableTotal r) else []))"

definition FailedNames :: "Result option \<Rightarrow> string list" where
  "FailedNames r0 = (case r0 of None \<Rightarrow> []
     | Some r \<Rightarrow> map ck_Name (filter (\<lambda>c. \<not> ck_OK c \<and> scored (ck_Class c)) (rs_Checks r)))"

definition ReputationFailedNames :: "Result option \<Rightarrow> string list" where
  "ReputationFailedNames r0 = (case r0 of None \<Rightarrow> []
     | Some r \<Rightarrow> map ck_Name (filter (\<lambda>c. \<not> ck_OK c \<and> \<not> scored (ck_Class c)) (rs_Checks r)))"

subsection \<open>The tallies\<close>

lemma class_get_update [simp]:
  "class_get (AList.update k s m) c = (if c = k then s else class_get m c)"
  by (simp add: class_get_def update_conv')

lemma update_keys [simp]: "fst ` set (AList.update k s m) = insert k (fst ` set m)"
  by (simp add: dom_update)

lemma count_dest_fold:
  "tl_total (fold count_dest ds t) = tl_total t + count_if (\<lambda>d. scored (d_Class d)) ds"
  "cs_Total (tl_reputation (fold count_dest ds t))
     = cs_Total (tl_reputation t) + count_if (\<lambda>d. \<not> scored (d_Class d)) ds"
  "cs_OK (tl_reputation (fold count_dest ds t)) = cs_OK (tl_reputation t)"
  "tl_ok (fold count_dest ds t) = tl_ok t"
  "cs_Total (class_get (tl_byClass (fold count_dest ds t)) c)
     = cs_Total (class_get (tl_byClass t) c) + (if scored c then count_if (\<lambda>d. d_Class d = c) ds else 0)"
  "cs_OK (class_get (tl_byClass (fold count_dest ds t)) c) = cs_OK (class_get (tl_byClass t) c)"
  "fst ` set (tl_byClass (fold count_dest ds t))
     = fst ` set (tl_byClass t) \<union> {c \<in> d_Class ` set ds. scored c}"
  "distinct (map fst (tl_byClass t)) \<Longrightarrow> distinct (map fst (tl_byClass (fold count_dest ds t)))"
  by (induction ds arbitrary: t) (auto simp: count_dest_def Let_def distinct_update)

lemma count_result_fold:
  "tl_total (fold count_result rs t) = tl_total t"
  "cs_Total (tl_reputation (fold count_result rs t)) = cs_Total (tl_reputation t)"
  "cs_OK (tl_reputation (fold count_result rs t))
     = cs_OK (tl_reputation t) + count_if (\<lambda>r. ck_OK r \<and> \<not> scored (ck_Class r)) rs"
  "tl_ok (fold count_result rs t) = tl_ok t + count_if (\<lambda>r. ck_OK r \<and> scored (ck_Class r)) rs"
  "cs_Total (class_get (tl_byClass (fold count_result rs t)) c) = cs_Total (class_get (tl_byClass t) c)"
  "cs_OK (class_get (tl_byClass (fold count_result rs t)) c)
     = cs_OK (class_get (tl_byClass t) c) + (if scored c then count_if (\<lambda>r. ck_OK r \<and> ck_Class r = c) rs else 0)"
  "fst ` set (tl_byClass (fold count_result rs t))
     = fst ` set (tl_byClass t) \<union> {c. scored c \<and> (\<exists>r\<in>set rs. ck_OK r \<and> ck_Class r = c)}"
  "distinct (map fst (tl_byClass t)) \<Longrightarrow> distinct (map fst (tl_byClass (fold count_result rs t)))"
  by (induction rs arbitrary: t) (auto simp: count_result_def Let_def distinct_update)

lemma fetch_id [simp]:
  "ck_Name (fetch L c took d t) = d_Name d" "ck_Class (fetch L c took d t) = d_Class d"
  by (simp_all add: fetch_def Let_def split: option.split sum.split)

lemma count_if_map: "count_if P (map f xs) = count_if (P \<circ> f) xs"
  by (simp add: filter_map)

lemma check_Inr:
  assumes "check L ctx_err client took dests opts = Inr r"
  obtains c where "client = Some c" "ctx_err = None" "dests \<noteq> []"
    "rs_Checks r = map (\<lambda>d. fetch L c took d (perRequestTimeout opts)) dests"
    "rs_TableTotal r = 0"
    "\<exists>t. t = fold count_result (rs_Checks r) (fold count_dest dests tally0)
        \<and> rs_OKCount r = tl_ok t \<and> rs_Total r = tl_total t \<and> rs_ByClass r = tl_byClass t
        \<and> rs_Reputation r = tl_reputation t"
  using assms by (auto simp: check_def Let_def split: option.splits if_splits)

lemma check_facts:
  assumes "check L ctx_err client took dests opts = Inr r"
  shows "map ck_Name (rs_Checks r) = map d_Name dests" "map ck_Class (rs_Checks r) = map d_Class dests"
    "rs_Total r = count_if (\<lambda>d. scored (d_Class d)) dests"
    "rs_OKCount r = count_if (\<lambda>k. ck_OK k \<and> scored (ck_Class k)) (rs_Checks r)"
    "cs_Total (rs_Reputation r) = count_if (\<lambda>d. \<not> scored (d_Class d)) dests"
    "cs_OK (rs_Reputation r) = count_if (\<lambda>k. ck_OK k \<and> \<not> scored (ck_Class k)) (rs_Checks r)"
    "scored c \<Longrightarrow> cs_Total (class_get (rs_ByClass r) c) = count_if (\<lambda>d. d_Class d = c) dests"
    "scored c \<Longrightarrow> cs_OK (class_get (rs_ByClass r) c)
        = count_if (\<lambda>k. ck_OK k \<and> ck_Class k = c) (rs_Checks r)"
    "fst ` set (rs_ByClass r) = {c \<in> d_Class ` set dests. scored c}"
    "distinct (map fst (rs_ByClass r))"
proof -
  obtain cl t where ch: "rs_Checks r = map (\<lambda>d. fetch L cl took d (perRequestTimeout opts)) dests"
    and t: "t = fold count_result (rs_Checks r) (fold count_dest dests tally0)"
      "rs_OKCount r = tl_ok t" "rs_Total r = tl_total t" "rs_ByClass r = tl_byClass t"
      "rs_Reputation r = tl_reputation t"
    using assms by (elim check_Inr) blast
  show "map ck_Name (rs_Checks r) = map d_Name dests" "map ck_Class (rs_Checks r) = map d_Class dests"
    by (simp_all add: ch)
  have "ck_Class ` set (rs_Checks r) = d_Class ` set dests" by (simp add: ch image_image)
  then show "fst ` set (rs_ByClass r) = {c \<in> d_Class ` set dests. scored c}"
    unfolding t(4) t(1) count_result_fold count_dest_fold by (auto simp: tally0_def)
  show "rs_Total r = count_if (\<lambda>d. scored (d_Class d)) dests"
    "rs_OKCount r = count_if (\<lambda>k. ck_OK k \<and> scored (ck_Class k)) (rs_Checks r)"
    "cs_Total (rs_Reputation r) = count_if (\<lambda>d. \<not> scored (d_Class d)) dests"
    "cs_OK (rs_Reputation r) = count_if (\<lambda>k. ck_OK k \<and> \<not> scored (ck_Class k)) (rs_Checks r)"
    "scored c \<Longrightarrow> cs_Total (class_get (rs_ByClass r) c) = count_if (\<lambda>d. d_Class d = c) dests"
    "scored c \<Longrightarrow> cs_OK (class_get (rs_ByClass r) c)
        = count_if (\<lambda>k. ck_OK k \<and> ck_Class k = c) (rs_Checks r)"
    unfolding t(2-5) t(1) count_result_fold count_dest_fold
    by (simp_all add: tally0_def summary0_def class_get_def)
  show "distinct (map fst (rs_ByClass r))"
    unfolding t(4) t(1) by (intro count_result_fold(8) count_dest_fold(8)) (simp add: tally0_def)
qed

lemma ok_le_total:
  assumes "map ck_Class ks = map d_Class ds"
  shows "count_if (\<lambda>k. ck_OK k \<and> P (ck_Class k)) ks \<le> count_if (\<lambda>d. P (d_Class d)) ds"
proof -
  have "count_if (\<lambda>k. ck_OK k \<and> P (ck_Class k)) ks \<le> count_if (\<lambda>k. P (ck_Class k)) ks"
    by (rule count_if_mono) simp
  also have "\<dots> = count_if P (map ck_Class ks)" by (simp add: count_if_map comp_def)
  also have "\<dots> = count_if (\<lambda>d. P (d_Class d)) ds" by (simp add: assms count_if_map comp_def)
  finally show ?thesis .
qed

lemma check_class_sums:
  assumes "check L ctx_err client took dests opts = Inr r"
  shows "rs_Total r = (\<Sum>c \<in> fst ` set (rs_ByClass r). cs_Total (class_get (rs_ByClass r) c))"
    and "rs_OKCount r = (\<Sum>c \<in> fst ` set (rs_ByClass r). cs_OK (class_get (rs_ByClass r) c))"
    and "\<And>c. c \<in> fst ` set (rs_ByClass r) \<Longrightarrow>
        cs_Total (class_get (rs_ByClass r) c) = count_if (\<lambda>d. d_Class d = c) dests
        \<and> cs_OK (class_get (rs_ByClass r) c) = count_if (\<lambda>k. ck_OK k \<and> ck_Class k = c) (rs_Checks r)
        \<and> 0 < cs_Total (class_get (rs_ByClass r) c)
        \<and> cs_OK (class_get (rs_ByClass r) c) \<le> cs_Total (class_get (rs_ByClass r) c)"
proof -
  note f = check_facts[OF assms]
  define K where "K = fst ` set (rs_ByClass r)"
  have K: "finite K" "K = {c \<in> d_Class ` set dests. scored c}" using f(9) by (simp_all add: K_def)
  have cls: "ck_Class ` set (rs_Checks r) = d_Class ` set dests" using f(2) by (metis list.set_map)
  have tot: "cs_Total (class_get (rs_ByClass r) c) = count_if (\<lambda>d. scored (d_Class d) \<and> d_Class d = c) dests"
    and ok: "cs_OK (class_get (rs_ByClass r) c)
      = count_if (\<lambda>k. (ck_OK k \<and> scored (ck_Class k)) \<and> ck_Class k = c) (rs_Checks r)" if "c \<in> K" for c
    using that K(2) f(7,8) by (auto intro!: arg_cong[where f = length] filter_cong)
  have s1: "rs_Total r = (\<Sum>c\<in>K. cs_Total (class_get (rs_ByClass r) c))"
    using sum_count_if_key[OF K(1), of dests "\<lambda>d. scored (d_Class d)" d_Class] K(2)
    by (simp add: tot f(3))
  have s2: "rs_OKCount r = (\<Sum>c\<in>K. cs_OK (class_get (rs_ByClass r) c))"
    using sum_count_if_key[OF K(1), of "rs_Checks r" "\<lambda>k. ck_OK k \<and> scored (ck_Class k)" ck_Class] K(2) cls
    by (force simp: ok f(4))
  have per: "cs_Total (class_get (rs_ByClass r) c) = count_if (\<lambda>d. d_Class d = c) dests
        \<and> cs_OK (class_get (rs_ByClass r) c) = count_if (\<lambda>k. ck_OK k \<and> ck_Class k = c) (rs_Checks r)
        \<and> 0 < cs_Total (class_get (rs_ByClass r) c)
        \<and> cs_OK (class_get (rs_ByClass r) c) \<le> cs_Total (class_get (rs_ByClass r) c)" if "c \<in> K" for c
  proof -
    have c: "scored c" "c \<in> d_Class ` set dests" using that K(2) by auto
    then have "0 < count_if (\<lambda>d. d_Class d = c) dests" by (auto simp: count_if_pos filter_empty_conv)
    then show ?thesis using f(7,8)[OF c(1)] ok_le_total[OF f(2), of "\<lambda>k. k = c"] by simp
  qed
  show "rs_Total r = (\<Sum>c \<in> fst ` set (rs_ByClass r). cs_Total (class_get (rs_ByClass r) c))"
    "rs_OKCount r = (\<Sum>c \<in> fst ` set (rs_ByClass r). cs_OK (class_get (rs_ByClass r) c))"
    using s1 s2 by (simp_all add: K_def)
  fix c assume "c \<in> fst ` set (rs_ByClass r)"
  then show "cs_Total (class_get (rs_ByClass r) c) = count_if (\<lambda>d. d_Class d = c) dests
        \<and> cs_OK (class_get (rs_ByClass r) c) = count_if (\<lambda>k. ck_OK k \<and> ck_Class k = c) (rs_Checks r)
        \<and> 0 < cs_Total (class_get (rs_ByClass r) c)
        \<and> cs_OK (class_get (rs_ByClass r) c) \<le> cs_Total (class_get (rs_ByClass r) c)"
    using per unfolding K_def by blast
qed

text \<open>
  C34. The tallies of a run are exact. Every chosen destination has one check, in order; the
  score counts the scored classes only, the reputation classes are tallied apart and never
  appear in \<open>ByClass\<close>; every scored class that was chosen has its entry, even when all of it
  failed, with as many attempts as destinations and no more passes than attempts; the per-class
  numbers add up to the score.
\<close>

theorem check_tallies:
  assumes "check L ctx_err client took dests opts = Inr r"
  shows "map ck_Name (rs_Checks r) = map d_Name dests
    \<and> rs_Total r + cs_Total (rs_Reputation r) = length dests
    \<and> rs_OKCount r + cs_OK (rs_Reputation r) = count_if ck_OK (rs_Checks r)
    \<and> rs_OKCount r \<le> rs_Total r \<and> cs_OK (rs_Reputation r) \<le> cs_Total (rs_Reputation r)
    \<and> fst ` set (rs_ByClass r) = {c \<in> d_Class ` set dests. scored c}
    \<and> (\<forall>c \<in> fst ` set (rs_ByClass r).
          cs_Total (class_get (rs_ByClass r) c) = count_if (\<lambda>d. d_Class d = c) dests
        \<and> cs_OK (class_get (rs_ByClass r) c) = count_if (\<lambda>k. ck_OK k \<and> ck_Class k = c) (rs_Checks r)
        \<and> 0 < cs_Total (class_get (rs_ByClass r) c)
        \<and> cs_OK (class_get (rs_ByClass r) c) \<le> cs_Total (class_get (rs_ByClass r) c))
    \<and> rs_OKCount r = (\<Sum>c \<in> fst ` set (rs_ByClass r). cs_OK (class_get (rs_ByClass r) c))
    \<and> rs_Total r = (\<Sum>c \<in> fst ` set (rs_ByClass r). cs_Total (class_get (rs_ByClass r) c))"
proof -
  note f = check_facts[OF assms]
  have "rs_Total r + cs_Total (rs_Reputation r) = length dests"
    by (simp add: f(3,5) count_if_compl)
  moreover have "rs_OKCount r + cs_OK (rs_Reputation r) = count_if ck_OK (rs_Checks r)"
    using count_if_split[of ck_OK "rs_Checks r" "\<lambda>k. scored (ck_Class k)"] by (simp add: f(4,6))
  moreover have "rs_OKCount r \<le> rs_Total r" "cs_OK (rs_Reputation r) \<le> cs_Total (rs_Reputation r)"
    using ok_le_total[OF f(2), of scored] ok_le_total[OF f(2), of "\<lambda>c. \<not> scored c"]
    by (simp_all add: f(3-6))
  ultimately show ?thesis using f(1,9) check_class_sums[OF assms] by blast
qed

text \<open>
  The names a result reports as failed are exactly those of the failed checks, split by
  whether their class is scored: as many scored names as the score is short of its total, and
  a reputation failure is never among them.
\<close>

theorem failed_names_partition:
  assumes "check L ctx_err client took dests opts = Inr r"
  shows "length (FailedNames (Some r)) = rs_Total r - rs_OKCount r
    \<and> length (ReputationFailedNames (Some r)) = cs_Total (rs_Reputation r) - cs_OK (rs_Reputation r)
    \<and> mset (FailedNames (Some r) @ ReputationFailedNames (Some r))
        = mset (map ck_Name (filter (\<lambda>k. \<not> ck_OK k) (rs_Checks r)))"
proof -
  note f = check_facts[OF assms]
  have cnt: "count_if (\<lambda>k. P (ck_Class k)) (rs_Checks r) = count_if (\<lambda>d. P (d_Class d)) dests" for P
  proof -
    have "count_if (\<lambda>k. P (ck_Class k)) (rs_Checks r) = count_if P (map ck_Class (rs_Checks r))"
      by (simp add: count_if_map comp_def)
    then show ?thesis by (simp add: f(2) count_if_map comp_def)
  qed
  have split: "count_if (\<lambda>k. P (ck_Class k)) (rs_Checks r)
      = count_if (\<lambda>k. ck_OK k \<and> P (ck_Class k)) (rs_Checks r)
      + count_if (\<lambda>k. \<not> ck_OK k \<and> P (ck_Class k)) (rs_Checks r)" for P
    using count_if_split[of "\<lambda>k. P (ck_Class k)" "rs_Checks r" ck_OK] by (simp add: conj_commute)
  have parts: "mset (map ck_Name (filter (\<lambda>k. \<not> ck_OK k \<and> scored (ck_Class k)) xs)
      @ map ck_Name (filter (\<lambda>k. \<not> ck_OK k \<and> \<not> scored (ck_Class k)) xs))
    = mset (map ck_Name (filter (\<lambda>k. \<not> ck_OK k) xs))" for xs
    by (induction xs) auto
  have "length (FailedNames (Some r)) = rs_Total r - rs_OKCount r"
    using split[of scored] cnt[of scored] by (simp add: FailedNames_def f(3,4))
  moreover have "length (ReputationFailedNames (Some r)) = cs_Total (rs_Reputation r) - cs_OK (rs_Reputation r)"
    using split[of "\<lambda>c. \<not> scored c"] cnt[of "\<lambda>c. \<not> scored c"]
    by (simp add: ReputationFailedNames_def f(5,6))
  moreover have "mset (FailedNames (Some r) @ ReputationFailedNames (Some r))
        = mset (map ck_Name (filter (\<lambda>k. \<not> ck_OK k) (rs_Checks r)))"
    unfolding FailedNames_def ReputationFailedNames_def option.case by (rule parts)
  ultimately show ?thesis by blast
qed

subsection \<open>What a passed check proves\<close>

definition status_expected :: "Destination \<Rightarrow> int \<Rightarrow> string \<Rightarrow> bool" where
  "status_expected d status b =
    (case d_Expect d of
       ExpectStatus \<Rightarrow> 0 < d_Status d \<and> status = d_Status d
     | ExpectReachable \<Rightarrow> 200 \<le> status \<and> status < 400
     | ExpectBody \<Rightarrow> 200 \<le> status \<and> status < 300 \<and> b \<noteq> [])"

lemma judge_status_None: "judge_status d status b = None \<longleftrightarrow> status_expected d status b"
  by (auto simp: judge_status_def status_expected_def split: Expect.split)

lemma judge_None: "judge L d status b = None \<longleftrightarrow>
    status_expected d status b \<and> run_verifier L (d_Verify d) b = None"
  using judge_status_None[of d status b] by (auto simp: judge_def split: option.split)

lemma fetch_OK:
  "ck_OK (fetch L c took d t) \<longleftrightarrow>
    NewRequest (url_text L) (d_URL d) = None \<and> (\<exists>resp b. do_request c t (check_request d) = Inr resp
      \<and> read_limited (nat (maxBytes d)) (hr_Body resp) = Inr b
      \<and> judge L d (hr_StatusCode resp) b = None)"
  by (auto simp: fetch_def Let_def split: option.split sum.split)

lemma fetch_bytes: "int (ck_ByteCount (fetch L c took d t)) \<le> maxBytes d"
  using maxBytes_range[of d] by (auto simp: fetch_def Let_def split: option.split sum.split)

text \<open>
  C35. A passed check of a table destination is proof of carriage: a response arrived with a 2xx
  or 3xx status, exactly the declared one where the row declares one, a body destination
  delivered a non-empty 2xx body, and the row's verifier accepted what was read. No check,
  passed or failed, reads more than 1024 bytes, and a whole run reads at most 1 KiB per
  destination.
\<close>

theorem fetch_sound:
  assumes "d \<in> set destinations"
  shows "(ck_OK (fetch L c took d t) \<longrightarrow>
      (\<exists>resp b. do_request c t (check_request d) = Inr resp
        \<and> prefix b (bd_data (hr_Body resp)) \<and> int (length b) \<le> maxBytes d
        \<and> 200 \<le> hr_StatusCode resp \<and> hr_StatusCode resp < 400
        \<and> (d_Expect d = ExpectStatus \<longrightarrow> hr_StatusCode resp = d_Status d)
        \<and> (d_Expect d = ExpectBody \<longrightarrow> hr_StatusCode resp < 300 \<and> b \<noteq> [])
        \<and> run_verifier L (d_Verify d) b = None))
    \<and> ck_ByteCount (fetch L c took d t) \<le> 1024"
proof
  show "ck_ByteCount (fetch L c took d t) \<le> 1024"
    using fetch_bytes[of L c took d t] maxBytes_range[of d] by linarith
  show "ck_OK (fetch L c took d t) \<longrightarrow>
      (\<exists>resp b. do_request c t (check_request d) = Inr resp
        \<and> prefix b (bd_data (hr_Body resp)) \<and> int (length b) \<le> maxBytes d
        \<and> 200 \<le> hr_StatusCode resp \<and> hr_StatusCode resp < 400
        \<and> (d_Expect d = ExpectStatus \<longrightarrow> hr_StatusCode resp = d_Status d)
        \<and> (d_Expect d = ExpectBody \<longrightarrow> hr_StatusCode resp < 300 \<and> b \<noteq> [])
        \<and> run_verifier L (d_Verify d) b = None)"
  proof
    assume "ck_OK (fetch L c took d t)"
    then obtain resp b where r: "do_request c t (check_request d) = Inr resp"
      "read_limited (nat (maxBytes d)) (hr_Body resp) = Inr b"
      "status_expected d (hr_StatusCode resp) b" "run_verifier L (d_Verify d) b = None"
      by (auto simp: fetch_OK judge_None)
    have "prefix b (bd_data (hr_Body resp))" "int (length b) \<le> maxBytes d"
      using read_limited_bound[OF r(2)] maxBytes_range[of d] by auto
    moreover have "200 \<le> hr_StatusCode resp" "hr_StatusCode resp < 400"
      "d_Expect d = ExpectStatus \<longrightarrow> hr_StatusCode resp = d_Status d"
      "d_Expect d = ExpectBody \<longrightarrow> hr_StatusCode resp < 300 \<and> b \<noteq> []"
      using r(3) all_rows[OF assms] by (auto simp: status_expected_def row_ok_def split: Expect.splits)
    ultimately show "\<exists>resp b. do_request c t (check_request d) = Inr resp
        \<and> prefix b (bd_data (hr_Body resp)) \<and> int (length b) \<le> maxBytes d
        \<and> 200 \<le> hr_StatusCode resp \<and> hr_StatusCode resp < 400
        \<and> (d_Expect d = ExpectStatus \<longrightarrow> hr_StatusCode resp = d_Status d)
        \<and> (d_Expect d = ExpectBody \<longrightarrow> hr_StatusCode resp < 300 \<and> b \<noteq> [])
        \<and> run_verifier L (d_Verify d) b = None"
      using r(1,4) by blast
  qed
qed

text \<open>
  The errors of a run: without a client, without destinations, or with a context that is
  already done, it fails before any request; \<open>Check\<close> fails only in the first and the third
  case, because neither the table nor a sample is ever empty, and otherwise reports the
  table's size and one check per chosen destination: the whole table, or 30.
\<close>

theorem Check_outcome:
  assumes "intn_ok intn"
  shows "case Check L intn g ctx_err client took opts of
      Inl CheckNilClient \<Rightarrow> client = None
    | Inl ErrNoDestinations \<Rightarrow> False
    | Inl (ErrNoBudget e) \<Rightarrow> client \<noteq> None \<and> ctx_err = Some e
    | Inr r \<Rightarrow> client \<noteq> None \<and> ctx_err = None \<and> rs_TableTotal r = 139
        \<and> length (rs_Checks r) = (if op_AllDestinations opts then 139 else 30)"
proof -
  define chosen where "chosen = (if op_AllDestinations opts then destinations
    else fst (sampleDestinations intn destinations sampleSizes g))"
  have len: "length chosen = (if op_AllDestinations opts then 139 else 30)"
    using production_sample_length[OF assms] by (simp add: chosen_def destination_count)
  then have "chosen \<noteq> []" by (auto split: if_splits)
  moreover have "Check L intn g ctx_err client took opts
      = map_sum id (\<lambda>res. res\<lparr> rs_TableTotal := length destinations \<rparr>) (check L ctx_err client took chosen opts)"
    by (simp add: Check_def chosen_def Let_def)
  ultimately show ?thesis using len
    by (auto simp: check_def Let_def destination_count split: option.split)
qed

subsection \<open>Concrete runs\<close>

text \<open>
  A captive portal: every request is answered 200 with a sign-in page, except that requests to
  one host fail.
\<close>

definition portal_lib :: stdlib where
  "portal_lib = \<lparr> json_text = (\<lambda>_. ''invalid''), url_text = id, print_table = (\<lambda>_. False) \<rparr>"

definition portal_client :: http_client where
  "portal_client = \<lparr> do_request = (\<lambda>t req. if rq_URL req = ''https://www.gstatic.com/generate_204'' then Inl ''timeout''
       else Inr \<lparr> hr_StatusCode = 200, hr_Header = Map.empty,
              hr_Body = \<lparr> bd_data = ''sign in'', bd_err = None \<rparr> \<rparr>) \<rparr>"

definition portal_options :: Options where
  "portal_options = \<lparr> op_PerRequestTimeout = Second, op_Budget = 0, op_Concurrency = 0,
     op_AllDestinations = False \<rparr>"

lemma portal_run:
  "\<exists>r. check portal_lib None (Some portal_client) (\<lambda>_. 0) connectivity_destinations portal_options = Inr r"
  using table_lengths(2) by (auto simp: check_def Let_def)

theorem check_tallies_witness:
  "\<exists>r. check portal_lib None (Some portal_client) (\<lambda>_. 0) connectivity_destinations portal_options = Inr r
     \<and> length (rs_Checks r) = 14 \<and> rs_OKCount r \<le> rs_Total r"
proof -
  obtain r where r: "check portal_lib None (Some portal_client) (\<lambda>_. 0) connectivity_destinations portal_options = Inr r"
    using portal_run by blast
  have "length (rs_Checks r) = length connectivity_destinations"
    using check_tallies[OF r] by (metis length_map)
  then show ?thesis using r check_tallies[OF r] table_lengths(2) by auto
qed

theorem failed_names_partition_witness:
  "\<exists>r. check portal_lib None (Some portal_client) (\<lambda>_. 0) connectivity_destinations portal_options = Inr r
     \<and> length (FailedNames (Some r)) = rs_Total r - rs_OKCount r"
  using portal_run failed_names_partition by blast

theorem fetch_sound_witness:
  "\<exists>d \<in> set destinations. \<not> ck_OK (fetch portal_lib portal_client (\<lambda>_. 0) d 1)
     \<and> ck_ByteCount (fetch portal_lib portal_client (\<lambda>_. 0) d 1) \<le> 1024"
proof -
  have "Destination.make ''google-generate-204'' ClassConnectivity
      ''https://www.google.com/generate_204'' [] ExpectStatus 204 maxConnectivityBytes VerifyNone
      \<in> set destinations" (is "?d \<in> _")
    by (simp add: destinations_def connectivity_destinations_def)
  moreover have "\<not> ck_OK (fetch portal_lib portal_client (\<lambda>_. 0) ?d 1)"
    using fetch_sound[OF calculation, of portal_lib portal_client "\<lambda>_. 0" 1]
    by (auto simp: Destination.make_def portal_client_def check_request_def GET_def)
  ultimately show ?thesis using fetch_sound by blast
qed

theorem Check_outcome_witness:
  "\<exists>r. Check portal_lib scripted [1, 2, 3] None (Some portal_client) (\<lambda>_. 0) portal_options = Inr r
     \<and> length (rs_Checks r) = 30 \<and> rs_TableTotal r = 139"
  using Check_outcome[OF scripted_ok, where L = portal_lib and g = "[1, 2, 3]" and ctx_err = None
      and client = "Some portal_client" and took = "\<lambda>_. 0" and opts = portal_options]
  by (auto simp: portal_options_def split: sum.splits check_error.splits)

end
