(* ===== verification/Bandwidth_Measure.thy ===== *)
theory Bandwidth_Measure
  imports Go_Url Go_Errors Complex_Main
begin

text \<open>
  The measurement of \<open>bandwidth/bandwidth.go\<close>: the targets, one stream, and the aggregate over
  the eight streams. What a stream's body delivers is a script: the reads it answers, each with
  the number of bytes the network has and the time of its completion, and the read that ends
  it. Rates are exact rationals where the code has float64. The locale \<open>metered\<close> is the
  contract "a transfer costs at most its cap", which one stream, one measurement and one
  sampled target keep in turn.
\<close>

subsection \<open>Constants and types\<close>

definition StreamCount :: nat where "StreamCount = 8"
definition StreamBytes :: nat where "StreamBytes = 2 * 1024 * 1024"
definition MaxSampleBytes :: nat where "MaxSampleBytes = StreamCount * StreamBytes"
definition WarmupDuration :: duration where "WarmupDuration = 500 * Millisecond"
definition DefaultTimeout :: duration where "DefaultTimeout = 5 * Second"
definition MinTimeBudget :: duration where "MinTimeBudget = Second"

definition SourceOperator :: string where "SourceOperator = ''active-operator''"
definition SourceCDN :: string where "SourceCDN = ''active-cdn''"
definition CDNTestURL :: string where "CDNTestURL = ''https://speed.cloudflare.com/__down''"

lemmas sample_bytes = StreamCount_def StreamBytes_def MaxSampleBytes_def

record Target =
  tg_Name :: string
  tg_Source :: string
  tg_URL :: string
  tg_Header :: "(string \<times> string) list"

record Sample =
  sm_BytesPerSecond :: rat
  sm_SampleByteCount :: nat
  sm_Streams :: nat
  sm_WarmupExcluded :: bool
  sm_Elapsed :: duration

definition sample0 :: Sample where
  "sample0 = \<lparr> sm_BytesPerSecond = 0, sm_SampleByteCount = 0, sm_Streams = 0,
     sm_WarmupExcluded = False, sm_Elapsed = 0 \<rparr>"

definition OperatorTarget :: "string \<Rightarrow> string \<Rightarrow> Target" where
  "OperatorTarget publicServerURL operatorSecret =
    \<lparr> tg_Name = ''operator'', tg_Source = SourceOperator,
      tg_URL = TrimRight publicServerURL (CHR ''/'') @ ''/network/provider-bandwidth-test'',
      tg_Header = [(''X-Ur-Operator-Secret'', operatorSecret)] \<rparr>"

definition CDNTarget :: Target where
  "CDNTarget = \<lparr> tg_Name = ''cdn'', tg_Source = SourceCDN, tg_URL = CDNTestURL, tg_Header = [] \<rparr>"

definition DefaultTargets :: "string \<Rightarrow> string \<Rightarrow> Target list" where
  "DefaultTargets publicServerURL operatorSecret =
    (if TrimSpace publicServerURL = [] then [CDNTarget]
     else [OperatorTarget publicServerURL operatorSecret, CDNTarget])"

definition TargetHosts :: "Target list \<Rightarrow> string list" where
  "TargetHosts targets =
    filter (\<lambda>h. h \<noteq> []) (List.map_filter (\<lambda>t. hostname (tg_URL t)) targets)"

subsection \<open>One stream\<close>

text \<open>How a body ends: the deadline of the measurement (\<open>parent_done\<close> is \<open>parent.Err() != nil\<close>
  at that moment) or another error.\<close>

datatype read_end = EOF | DeadlineExceeded bool | ReadError string

datatype script =
    Chunk nat gotime script       \<comment> \<open>a read with this many bytes at hand, no error\<close>
  | Final nat gotime read_end     \<comment> \<open>the last read\<close>

record stream =
  st_total :: nat
  st_steadyBytes :: nat
  st_steadyStart :: gotime
  st_end :: gotime

definition stream0 :: stream where
  "stream0 = \<lparr> st_total = 0, st_steadyBytes = 0, st_steadyStart = 0, st_end = 0 \<rparr>"

definition bufferBytes :: nat where "bufferBytes = 32 * 1024"

text \<open>What one \<open>Read\<close> returns: no more than the buffer, cut to the remaining allowance.\<close>

definition read_size :: "nat \<Rightarrow> stream \<Rightarrow> nat" where
  "read_size avail s = min avail (min bufferBytes (StreamBytes - st_total s))"

definition after_read :: "gotime \<Rightarrow> gotime \<Rightarrow> nat \<Rightarrow> stream \<Rightarrow> stream" where
  "after_read steadyFrom now n s =
    (let s1 = s\<lparr> st_end := now, st_total := st_total s + n \<rparr> in
     if \<not> now < steadyFrom
     then s1\<lparr> st_steadyStart := (if st_steadyStart s1 = 0 then now else st_steadyStart s1),
              st_steadyBytes := st_steadyBytes s1 + n \<rparr>
     else s1)"

fun readStream :: "gotime \<Rightarrow> gotime \<Rightarrow> duration \<Rightarrow> script \<Rightarrow> stream \<Rightarrow> stream \<times> string option" where
  "readStream measureStart steadyFrom timeout (Chunk avail now rest) s =
    (let s1 = after_read steadyFrom now (read_size avail s) s in
     if StreamBytes \<le> st_total s1 then (s1, None)
     else if timeout \<le> now - measureStart then (s1, None)
     else readStream measureStart steadyFrom timeout rest s1)"
| "readStream measureStart steadyFrom timeout (Final avail now e) s =
    (let s1 = after_read steadyFrom now (read_size avail s) s in
     if StreamBytes \<le> st_total s1 then (s1, None)
     else (case e of
         EOF \<Rightarrow> (s1, None)
       | DeadlineExceeded parent_done \<Rightarrow>
           if \<not> parent_done then (s1, None) else (s1, Some ''context deadline exceeded'')
       | ReadError err \<Rightarrow> (s1, Some err)))"

subsection \<open>Opening\<close>

record stream_response =
  sp_StatusCode :: int
  sp_ErrBody :: body
  sp_Script :: script

text \<open>
  A client for streams: what the \<open>i\<close>-th of the concurrent requests gets. \<open>urlText\<close> renders the
  error of \<open>url.Parse\<close>.
\<close>

record stream_client =
  sc_do :: "nat \<Rightarrow> http_request \<Rightarrow> string + stream_response"

definition openStream :: "(string \<Rightarrow> string) \<Rightarrow> stream_client \<Rightarrow> string \<Rightarrow> (string \<times> string) list \<Rightarrow> nat \<Rightarrow> string + script" where
  "openStream urlText client url header i =
    (case NewRequest urlText url of
       Some err \<Rightarrow> Inl err
     | None \<Rightarrow> (case sc_do client i (GET url header) of
         Inl err \<Rightarrow> Inl err
       | Inr resp \<Rightarrow>
           if sp_StatusCode resp \<noteq> 200
           then Inl (''bandwidth: '' @ url @ '' answered '' @ Itoa (nat (sp_StatusCode resp)) @ '': ''
             @ TrimSpace (take 512 (bd_data (sp_ErrBody resp))))
           else Inr (sp_Script resp)))"

subsection \<open>The measurement\<close>

text \<open>The outcome of the goroutine of one stream once the gun has fired.\<close>

definition run_stream :: "bool \<Rightarrow> gotime \<Rightarrow> gotime \<Rightarrow> duration \<Rightarrow> string + script \<Rightarrow> stream \<times> string option" where
  "run_stream abort measureStart steadyFrom timeout opened =
    (case opened of
       Inl err \<Rightarrow> (stream0, Some err)
     | Inr sc \<Rightarrow> if abort then (stream0, None)
                else readStream measureStart steadyFrom timeout sc stream0)"

record window =
  wn_total :: nat
  wn_steady :: nat
  wn_start :: gotime
  wn_end :: gotime
  wn_err :: "string option"

definition window0 :: window where
  "window0 = \<lparr> wn_total = 0, wn_steady = 0, wn_start = 0, wn_end = 0, wn_err = None \<rparr>"

definition add_stream :: "stream \<times> string option \<Rightarrow> window \<Rightarrow> window" where
  "add_stream se w =
    (let (s, err) = se in
     \<lparr> wn_total = wn_total w + st_total s, wn_steady = wn_steady w + st_steadyBytes s,
       wn_start = (if st_steadyStart s \<noteq> 0 \<and> (wn_start w = 0 \<or> st_steadyStart s < wn_start w)
                   then st_steadyStart s else wn_start w),
       wn_end = (if wn_end w < st_end s then st_end s else wn_end w),
       wn_err = (if wn_err w = None then err else wn_err w) \<rparr>)"

definition per_second :: "nat \<Rightarrow> duration \<Rightarrow> rat" where
  "per_second bytes elapsed = of_nat bytes * of_int Second / of_int elapsed"

text \<open>What is reported for a window; \<open>start\<close> is the instant of the gun.\<close>

definition report :: "gotime \<Rightarrow> window \<Rightarrow> Sample \<times> err option" where
  "report start w =
    (case wn_err w of
       Some err \<Rightarrow> (sample0\<lparr> sm_SampleByteCount := wn_total w, sm_Streams := StreamCount \<rparr>,
                    Some (ErrorString err))
     | None \<Rightarrow>
       if wn_total w = 0 then (sample0, Some (Sentinel ErrNoSample))
       else if wn_start w \<noteq> 0 \<and> 0 < wn_end w - wn_start w \<and> 0 < wn_steady w then
         (\<lparr> sm_BytesPerSecond = per_second (wn_steady w) (wn_end w - wn_start w),
            sm_SampleByteCount = wn_total w, sm_Streams = StreamCount,
            sm_WarmupExcluded = True, sm_Elapsed = wn_end w - wn_start w \<rparr>, None)
       else if wn_end w - start \<le> 0 then
         (sample0\<lparr> sm_SampleByteCount := wn_total w, sm_Streams := StreamCount \<rparr>, Some (Sentinel ErrNoSample))
       else
         (\<lparr> sm_BytesPerSecond = per_second (wn_total w) (wn_end w - start),
            sm_SampleByteCount = wn_total w, sm_Streams = StreamCount,
            sm_WarmupExcluded = False, sm_Elapsed = wn_end w - start \<rparr>, None))"

text \<open>
  The instants the measurement reads from the clock: before the streams are opened, and when
  all of them are.
\<close>

record clock =
  ck_measureStart :: gotime
  ck_start :: gotime

definition measure_streams :: "clock \<Rightarrow> duration \<Rightarrow> (string + script) list \<Rightarrow> (stream \<times> string option) list" where
  "measure_streams ck timeout opened =
    map (run_stream (list_ex isl opened) (ck_measureStart ck) (ck_start ck + WarmupDuration) timeout) opened"

text \<open>The query parameter \<open>bytes\<close> of a target is set to the bytes one stream asks for.\<close>

definition sizedURL :: "(string \<Rightarrow> string) \<Rightarrow> string \<Rightarrow> nat \<Rightarrow> string + string" where
  "sizedURL urlText rawURL byteCount =
    (case with_param rawURL ''bytes'' (Itoa byteCount) of None \<Rightarrow> Inl (urlText rawURL) | Some u \<Rightarrow> Inr u)"

definition measure :: "(string \<Rightarrow> string) \<Rightarrow> clock \<Rightarrow> stream_client \<Rightarrow> string
    \<Rightarrow> (string \<times> string) list \<Rightarrow> duration \<Rightarrow> Sample \<times> err option" where
  "measure urlText ck client testURL header timeout0 =
    (let timeout = (if timeout0 \<le> 0 then DefaultTimeout else timeout0) in
     case sizedURL urlText testURL StreamBytes of
       Inl err \<Rightarrow> (sample0, Some (ErrorString err))
     | Inr url \<Rightarrow>
        (let opened = map (openStream urlText client url header) [0..<StreamCount]
         in report (ck_start ck) (fold add_stream (measure_streams ck timeout opened) window0)))"

definition MeasureTarget :: "(string \<Rightarrow> string) \<Rightarrow> clock \<Rightarrow> stream_client \<Rightarrow> Target
    \<Rightarrow> duration \<Rightarrow> Sample \<times> err option" where
  "MeasureTarget urlText ck client target timeout =
    measure urlText ck client (tg_URL target) (tg_Header target) timeout"

definition Measure :: "(string \<Rightarrow> string) \<Rightarrow> clock \<Rightarrow> stream_client \<Rightarrow> string
    \<Rightarrow> duration \<Rightarrow> rat \<times> nat \<times> err option" where
  "Measure urlText ck client testURL timeout =
    (let (sample, err) = measure urlText ck client testURL [] timeout
     in (sm_BytesPerSecond sample, sm_SampleByteCount sample, err))"

subsection \<open>Metered transfers\<close>

locale metered =
  fixes bytes :: "'x \<Rightarrow> nat" and cap :: nat
  assumes within_cap: "bytes x \<le> cap"
begin

lemma total_within: "sum_list (map bytes xs) \<le> length xs * cap"
  by (induction xs) (auto intro: add_mono within_cap)

end

lemma read_size_bound: "st_total s \<le> StreamBytes \<Longrightarrow> st_total s + read_size avail s \<le> StreamBytes"
  by (simp add: read_size_def)

lemma after_read_total [simp]: "st_total (after_read f now n s) = st_total s + n"
  by (simp add: after_read_def Let_def)

lemma readStream_total:
  "st_total s \<le> StreamBytes \<Longrightarrow> st_total (fst (readStream ms sf t sc s)) \<le> StreamBytes"
  by (induction ms sf t sc s rule: readStream.induct)
    (auto simp: Let_def read_size_bound split: read_end.split)

lemma run_stream_total: "st_total (fst (run_stream a ms sf t opened)) \<le> StreamBytes"
  by (auto simp: run_stream_def stream0_def readStream_total split: sum.split)

interpretation stream_meter: metered "\<lambda>(a, ms, sf, t, opened). st_total (fst (run_stream a ms sf t opened))" StreamBytes
  by unfold_locales (auto simp: run_stream_total)

lemma add_stream_sums:
  "wn_total (fold add_stream ss w) = wn_total w + sum_list (map (st_total \<circ> fst) ss)"
  "wn_steady (fold add_stream ss w) = wn_steady w + sum_list (map (st_steadyBytes \<circ> fst) ss)"
  by (induction ss arbitrary: w) (auto simp: add_stream_def split_beta)

lemma report_bytes: "sm_SampleByteCount (fst (report start w)) \<le> wn_total w"
  by (auto simp: report_def sample0_def split: option.split)

lemma measure_streams_total:
  "sum_list (map (st_total \<circ> fst) (measure_streams ck t opened)) \<le> length opened * StreamBytes"
  using stream_meter.total_within[of "map (\<lambda>x. (list_ex isl opened, ck_measureStart ck, ck_start ck + WarmupDuration, t, x)) opened"]
  by (simp add: measure_streams_def comp_def)

lemma measure_total: "sm_SampleByteCount (fst (measure urlText ck client url h t)) \<le> MaxSampleBytes"
proof (cases "sizedURL urlText url StreamBytes")
  case (Inr u)
  define ss where "ss = measure_streams ck (if t \<le> 0 then DefaultTimeout else t) (map (openStream urlText client u h) [0..<StreamCount])"
  have "sum_list (map (st_total \<circ> fst) ss) \<le> MaxSampleBytes"
    using measure_streams_total[of ck _ "map (openStream urlText client u h) [0..<StreamCount]"]
    by (simp add: ss_def MaxSampleBytes_def)
  then show ?thesis
    using report_bytes[of "ck_start ck" "fold add_stream ss window0"] Inr
    by (simp add: measure_def ss_def Let_def add_stream_sums window0_def)
qed (simp add: measure_def sample0_def)

subsection \<open>The window\<close>

lemma add_stream_err:
  "wn_err (fold add_stream ss w) = (case wn_err w of Some e \<Rightarrow> Some e
     | None \<Rightarrow> (case List.map_filter snd ss of e # _ \<Rightarrow> Some e | [] \<Rightarrow> None))"
  by (induction ss arbitrary: w) (auto simp: add_stream_def split_beta List.map_filter_def split: option.split)

text \<open>The window of a measurement whose URL is well formed.\<close>

definition window_of :: "clock \<Rightarrow> duration \<Rightarrow> (string + script) list \<Rightarrow> window" where
  "window_of ck timeout opened = fold add_stream (measure_streams ck timeout opened) window0"

lemma measure_eq:
  "measure urlText ck client url h t =
    (case sizedURL urlText url StreamBytes of
       Inl err \<Rightarrow> (sample0, Some (ErrorString err))
     | Inr u \<Rightarrow> report (ck_start ck) (window_of ck (if t \<le> 0 then DefaultTimeout else t)
         (map (openStream urlText client u h) [0..<StreamCount])))"
  by (simp add: measure_def window_of_def Let_def split: sum.split)

lemma per_second_pos: "0 < b \<Longrightarrow> 0 < e \<Longrightarrow> 0 < per_second b e"
  by (simp add: per_second_def Second_def)

lemma per_second_mult: "0 < e \<Longrightarrow> per_second b e * of_int e = of_nat b * of_int Second"
  by (simp add: per_second_def)

subsection \<open>What the streams delivered\<close>

text \<open>
  The specification of a figure: the reads a body is asked for, each with the time of its
  completion and its bytes, until the stream has its allowance, the timeout is over or the body
  ends. What \<open>readStream\<close> keeps of a stream is a function of them.
\<close>

fun deliveries :: "gotime \<Rightarrow> duration \<Rightarrow> nat \<Rightarrow> script \<Rightarrow> (gotime \<times> nat) list" where
  "deliveries began timeout had (Chunk avail now rest) =
    (let n = min avail (min bufferBytes (StreamBytes - had)) in
     (now, n) # (if StreamBytes \<le> had + n \<or> timeout \<le> now - began then [] else deliveries began timeout (had + n) rest))"
| "deliveries began timeout had (Final avail now e) = [(now, min avail (min bufferBytes (StreamBytes - had)))]"

abbreviation bytes_of :: "(gotime \<times> nat) list list \<Rightarrow> nat" where
  "bytes_of rs \<equiv> sum_list (map snd (concat rs))"

text \<open>The streams that were read after an instant, with only those reads.\<close>

definition reads_after :: "gotime \<Rightarrow> (gotime \<times> nat) list list \<Rightarrow> (gotime \<times> nat) list list" where
  "reads_after from rs = filter (\<lambda>r. r \<noteq> []) (map (filter (\<lambda>(now, n). from \<le> now)) rs)"

text \<open>The first read of the earliest stream, and the last read of the latest one.\<close>

definition opens :: "(gotime \<times> nat) list list \<Rightarrow> gotime" where
  "opens rs = Min ((fst \<circ> hd) ` set rs)"

definition closes :: "(gotime \<times> nat) list list \<Rightarrow> gotime" where
  "closes rs = Max ((fst \<circ> last) ` set rs)"

lemma deliveries_nonempty [simp]: "deliveries began t had sc \<noteq> []"
  by (cases sc) (simp_all add: Let_def)

lemma readStream_deliveries:
  "fst (readStream began sf t sc s) = fold (\<lambda>(now, n). after_read sf now n) (deliveries began t (st_total s) sc) s"
  by (induction began sf t sc s rule: readStream.induct)
    (auto simp: Let_def read_size_def split: read_end.split)

lemma after_reads:
  assumes "0 < sf"
  shows "st_total (fold (\<lambda>(now, n). after_read sf now n) ds s) = st_total s + sum_list (map snd ds)"
    "st_steadyBytes (fold (\<lambda>(now, n). after_read sf now n) ds s)
      = st_steadyBytes s + sum_list (map snd (filter (\<lambda>(now, n). sf \<le> now) ds))"
    "st_end (fold (\<lambda>(now, n). after_read sf now n) ds s) = (if ds = [] then st_end s else fst (last ds))"
    "st_steadyStart (fold (\<lambda>(now, n). after_read sf now n) ds s) = (if st_steadyStart s \<noteq> 0 then st_steadyStart s
      else case filter (\<lambda>(now, n). sf \<le> now) ds of [] \<Rightarrow> 0 | d # _ \<Rightarrow> fst d)"
  using assms by (induction ds arbitrary: s) (auto simp: after_read_def Let_def not_less)

lemma fold_end: "wn_end (fold add_stream ss w) = Max (insert (wn_end w) ((st_end \<circ> fst) ` set ss))"
proof (induction ss arbitrary: w)
  case (Cons x ss)
  have "wn_end (add_stream x w) = max (wn_end w) (st_end (fst x))"
    by (simp add: add_stream_def split_beta max_def)
  then show ?case using Cons.IH[of "add_stream x w"]
    by (cases "set ss = {}") (simp_all add: ac_simps max.left_commute)
qed simp

text \<open>The earliest instant that is set; \<open>0\<close> is none.\<close>

definition earliest :: "gotime set \<Rightarrow> gotime" where
  "earliest X = (if X - {0} = {} then 0 else Min (X - {0}))"

lemma earliest_insert:
  assumes "finite X"
  shows "earliest (insert (if a \<noteq> 0 \<and> (b = 0 \<or> a < b) then a else b) X) = earliest (insert a (insert b X))"
proof -
  define Y where "Y = X - {0}"
  have f: "finite Y" using assms by (simp add: Y_def)
  have d: "insert x X - {0} = (if x = 0 then Y else insert x Y)"
    "insert x (insert y X) - {0} = (if x = 0 then insert y X - {0} else insert x (insert y X - {0}))" for x y
    by (auto simp: Y_def)
  show ?thesis
  proof (cases "Y = {}")
    case True
    then show ?thesis by (auto simp: earliest_def d min_def)
  next
    case False
    then show ?thesis using f by (auto simp: earliest_def d min_def)
  qed
qed

lemma fold_start: "wn_start (fold add_stream ss w) = earliest (insert (wn_start w) ((st_steadyStart \<circ> fst) ` set ss))"
proof (induction ss arbitrary: w)
  case Nil
  show ?case by (simp add: earliest_def insert_Diff_if)
next
  case (Cons x ss)
  have "wn_start (add_stream x w)
      = (if st_steadyStart (fst x) \<noteq> 0 \<and> (wn_start w = 0 \<or> st_steadyStart (fst x) < wn_start w) then st_steadyStart (fst x) else wn_start w)"
    by (simp add: add_stream_def split_beta)
  then show ?case
    using Cons.IH[of "add_stream x w"] earliest_insert[of "(st_steadyStart \<circ> fst) ` set ss"]
    by (simp add: insert_commute)
qed

lemma bytes_of_streams:
  "bytes_of rs = sum_list (map (\<lambda>r. sum_list (map snd r)) rs)"
  "bytes_of (reads_after from rs) = sum_list (map (\<lambda>r. sum_list (map snd (filter (\<lambda>(now, n). from \<le> now) r))) rs)"
  by (induction rs) (simp_all add: reads_after_def)

text \<open>The window of eight streams that opened and read without an error.\<close>

lemma window_of_reads:
  assumes "0 < ck_start ck" "opened = map Inr scripts" "scripts \<noteq> []"
    and "reads = map (deliveries (ck_measureStart ck) t 0) scripts"
    and "steady = reads_after (ck_start ck + WarmupDuration) reads"
  shows "wn_total (window_of ck t opened) = bytes_of reads" "wn_steady (window_of ck t opened) = bytes_of steady"
    "wn_start (window_of ck t opened) = (if steady = [] then 0 else opens steady)"
    "wn_end (window_of ck t opened) = max 0 (closes reads)"
    "steady \<noteq> [] \<Longrightarrow> 0 < opens steady"
proof -
  let ?sf = "ck_start ck + WarmupDuration"
  have sf: "0 < ?sf" using assms(1) by (simp add: WarmupDuration_def duration_units)
  define ss where "ss = map (\<lambda>ds. fold (\<lambda>(now, n). after_read ?sf now n) ds stream0) reads"
  have ab: "\<not> list_ex isl opened" by (simp add: assms(2) list_ex_iff)
  have fsts: "map fst (measure_streams ck t opened) = ss"
    using ab readStream_deliveries[of "ck_measureStart ck" ?sf t _ stream0]
    by (simp add: measure_streams_def run_stream_def assms(2,4) ss_def stream0_def comp_def)
  have imgs: "(f \<circ> fst) ` set (measure_streams ck t opened) = f ` set ss" for f :: "stream \<Rightarrow> 'x"
    unfolding fsts[symmetric] by (simp add: image_comp)
  have sums: "sum_list (map (f \<circ> fst) (measure_streams ck t opened)) = sum_list (map f ss)" for f :: "stream \<Rightarrow> nat"
    unfolding fsts[symmetric] by (simp add: comp_def)
  show "wn_total (window_of ck t opened) = bytes_of reads"
    unfolding window_of_def add_stream_sums sums
    by (simp add: window0_def ss_def comp_def after_reads(1)[OF sf] stream0_def bytes_of_streams(1))
  show "wn_steady (window_of ck t opened) = bytes_of steady"
    unfolding window_of_def add_stream_sums sums assms(5)
    by (simp add: window0_def ss_def comp_def after_reads(2)[OF sf] stream0_def bytes_of_streams(2))
  have ends: "st_end ` set ss = (fst \<circ> last) ` set reads"
    by (simp add: ss_def image_image after_reads(3)[OF sf] assms(4))
  have "reads \<noteq> []" using assms(3,4) by simp
  then show "wn_end (window_of ck t opened) = max 0 (closes reads)"
    unfolding window_of_def fold_end imgs ends by (simp add: window0_def closes_def)
  let ?F = "filter (\<lambda>(now, n). ?sf \<le> now)"
  have after: "\<forall>d\<in>set (?F r). 0 < fst d" for r :: "(gotime \<times> nat) list"
    using sf by auto
  have one: "st_steadyStart (fold (\<lambda>(now, n). after_read ?sf now n) r stream0) = (if ?F r = [] then 0 else fst (hd (?F r)))" for r
    by (simp add: after_reads(4)[OF sf] stream0_def split: list.split)
  have set_steady: "set steady = ?F ` {r \<in> set reads. ?F r \<noteq> []}"
    by (auto simp: assms(5) reads_after_def)
  have hd_pos: "0 < fst (hd (?F r))" if "?F r \<noteq> []" for r :: "(gotime \<times> nat) list"
    using after[of r] that hd_in_set by blast
  then have "fst (hd (?F r)) \<noteq> 0" if "?F r \<noteq> []" for r :: "(gotime \<times> nat) list"
    using that by fastforce
  then have starts: "st_steadyStart ` set ss - {0} = (fst \<circ> hd) ` set steady"
    unfolding set_steady ss_def by (force simp: one image_image)
  have pos: "\<forall>x\<in>(fst \<circ> hd) ` set steady. 0 < x"
    unfolding set_steady using hd_pos by auto
  then show "steady \<noteq> [] \<Longrightarrow> 0 < opens steady" by (simp add: opens_def)
  show "wn_start (window_of ck t opened) = (if steady = [] then 0 else opens steady)"
    unfolding window_of_def fold_start imgs by (simp add: starts window0_def earliest_def opens_def insert_Diff_if)
qed

text \<open>A reported figure: no stream failed, and the figure is of the window.\<close>

lemma report_ok:
  assumes "report start w = (s, None)"
  shows "wn_err w = None \<and> sm_Streams s = StreamCount \<and> sm_SampleByteCount s = wn_total w \<and> 0 < wn_total w \<and> 0 < sm_Elapsed s
    \<and> (sm_WarmupExcluded s \<longleftrightarrow> wn_start w \<noteq> 0 \<and> wn_start w < wn_end w \<and> 0 < wn_steady w)
    \<and> sm_Elapsed s = wn_end w - (if sm_WarmupExcluded s then wn_start w else start)
    \<and> sm_BytesPerSecond s = per_second (if sm_WarmupExcluded s then wn_steady w else wn_total w) (sm_Elapsed s)"
  using assms by (auto simp: report_def split: option.splits if_splits)

lemma window_opened:
  assumes "wn_err (window_of ck t opened) = None"
  shows "\<exists>scripts. opened = map Inr scripts"
proof -
  have ok: "List.map_filter snd (measure_streams ck t opened) = []"
    using assms by (auto simp: window_of_def add_stream_err window0_def split: list.splits)
  have "\<not> isl x" if "x \<in> set opened" for x
  proof
    assume "isl x"
    then obtain e where "x = Inl e" by (cases x) auto
    then have "(stream0, Some e) \<in> set (measure_streams ck t opened)"
      using that by (force simp: measure_streams_def run_stream_def)
    then show False using ok by (auto simp: List.map_filter_def filter_empty_conv)
  qed
  then have "opened = map Inr (map projr opened)" by (induction opened) (auto simp: isl_def split: sum.splits)
  then show ?thesis by blast
qed

lemma report_accounts:
  assumes "0 < ck_start ck" "opened = map Inr scripts" "length scripts = StreamCount"
    and "reads = map (deliveries (ck_measureStart ck) t 0) scripts"
    and "steady = reads_after (ck_start ck + WarmupDuration) reads"
    and "report (ck_start ck) (window_of ck t opened) = (s, None)"
  shows "sm_Streams s = length reads \<and> sm_SampleByteCount s = bytes_of reads
             \<and> (sm_WarmupExcluded s \<longleftrightarrow> 0 < bytes_of steady \<and> opens steady < closes reads)
             \<and> sm_Elapsed s = closes reads - (if sm_WarmupExcluded s then opens steady else ck_start ck)
             \<and> 0 < sm_Elapsed s \<and> 0 < sm_BytesPerSecond s
             \<and> sm_BytesPerSecond s * of_int (sm_Elapsed s)
                 = of_nat (if sm_WarmupExcluded s then bytes_of steady else bytes_of reads) * of_int Second"
proof -
  define w where "w = window_of ck t opened"
  note r = report_ok[OF assms(6)[folded w_def]]
  have "scripts \<noteq> []" using assms(3) by (auto simp: StreamCount_def)
  note wf0 = window_of_reads[OF assms(1,2) this assms(4,5), folded w_def]
  obtain bs br where b: "bs = bytes_of steady" "br = bytes_of reads" by blast
  note wf = wf0[folded b]
  have none: "steady = [] \<Longrightarrow> bs = 0" by (simp add: b)
  have "sm_WarmupExcluded s \<longleftrightarrow> 0 < bs \<and> opens steady < closes reads"
    using r wf none by (auto simp: max_def split: if_splits)
  moreover have "sm_Elapsed s = closes reads - (if sm_WarmupExcluded s then opens steady else ck_start ck)"
    using r wf none assms(1) by (auto simp: max_def split: if_splits)
  moreover have "0 < sm_BytesPerSecond s \<and> sm_BytesPerSecond s * of_int (sm_Elapsed s)
       = of_nat (if sm_WarmupExcluded s then bs else br) * of_int Second"
    using r wf per_second_pos[of _ "sm_Elapsed s"] per_second_mult[of "sm_Elapsed s"] by (auto split: if_splits)
  moreover have "sm_Streams s = length reads" "sm_SampleByteCount s = br"
    using r wf(1) assms(3,4) by simp_all
  moreover have "0 < sm_Elapsed s" using r by blast
  ultimately show ?thesis unfolding b by blast
qed

text \<open>
  C32. A measurement accounts for its figure. It never transfers more than the 16 MiB that are
  reserved for it. When it reports one, all eight streams were opened and read without an error;
  the byte count is what they delivered; and the rate times the reported time is the bytes of the
  reported window. That window is the steady state, from the first read at least 500 ms after the
  start to the last read of all, with exactly the bytes read in it, whenever there are such bytes
  and such a time; otherwise it is marked as a lower bound, and is the whole transfer from the
  start with all the bytes.
\<close>

theorem measure_accounts:
  assumes "0 < ck_start ck"
  shows "sm_SampleByteCount (fst (measure urlText ck client url h t)) \<le> MaxSampleBytes
   \<and> (\<forall>s. measure urlText ck client url h t = (s, None) \<longrightarrow>
       (\<exists>u scripts. sizedURL urlText url StreamBytes = Inr u
         \<and> map (openStream urlText client u h) [0..<StreamCount] = map Inr scripts
         \<and> (let reads = map (deliveries (ck_measureStart ck) (if t \<le> 0 then DefaultTimeout else t) 0) scripts;
                steady = reads_after (ck_start ck + WarmupDuration) reads
            in sm_Streams s = length reads \<and> sm_SampleByteCount s = bytes_of reads
             \<and> (sm_WarmupExcluded s \<longleftrightarrow> 0 < bytes_of steady \<and> opens steady < closes reads)
             \<and> sm_Elapsed s = closes reads - (if sm_WarmupExcluded s then opens steady else ck_start ck)
             \<and> 0 < sm_Elapsed s \<and> 0 < sm_BytesPerSecond s
             \<and> sm_BytesPerSecond s * of_int (sm_Elapsed s)
                 = of_nat (if sm_WarmupExcluded s then bytes_of steady else bytes_of reads) * of_int Second)))"
proof (intro conjI allI impI)
  show "sm_SampleByteCount (fst (measure urlText ck client url h t)) \<le> MaxSampleBytes"
    by (rule measure_total)
next
  fix s assume "measure urlText ck client url h t = (s, None)"
  then obtain u where u: "sizedURL urlText url StreamBytes = Inr u"
    and rep: "report (ck_start ck) (window_of ck (if t \<le> 0 then DefaultTimeout else t)
         (map (openStream urlText client u h) [0..<StreamCount])) = (s, None)"
    by (auto simp: measure_eq split: sum.splits)
  obtain scripts where scripts: "map (openStream urlText client u h) [0..<StreamCount] = map Inr scripts"
    using report_ok[OF rep] window_opened by blast
  have len: "length scripts = StreamCount" using arg_cong[OF scripts, of length] by simp
  show "\<exists>u scripts. sizedURL urlText url StreamBytes = Inr u
         \<and> map (openStream urlText client u h) [0..<StreamCount] = map Inr scripts
         \<and> (let reads = map (deliveries (ck_measureStart ck) (if t \<le> 0 then DefaultTimeout else t) 0) scripts;
                steady = reads_after (ck_start ck + WarmupDuration) reads
            in sm_Streams s = length reads \<and> sm_SampleByteCount s = bytes_of reads
             \<and> (sm_WarmupExcluded s \<longleftrightarrow> 0 < bytes_of steady \<and> opens steady < closes reads)
             \<and> sm_Elapsed s = closes reads - (if sm_WarmupExcluded s then opens steady else ck_start ck)
             \<and> 0 < sm_Elapsed s \<and> 0 < sm_BytesPerSecond s
             \<and> sm_BytesPerSecond s * of_int (sm_Elapsed s)
                 = of_nat (if sm_WarmupExcluded s then bytes_of steady else bytes_of reads) * of_int Second)"
    unfolding Let_def using u scripts report_accounts[OF assms scripts len refl refl rep] by blast
qed

text \<open>
  A measurement is all or nothing: when one of its eight streams fails to open, none of
  them transfers a byte, and the error is that of the first stream that failed; a stream that
  fails while reading also leaves no rate, but its bytes stay counted.
\<close>

theorem measure_all_or_nothing:
  assumes "sizedURL urlText url StreamBytes = Inr u"
  shows "(\<forall>i err. i < StreamCount \<and> openStream urlText client u h i = Inl err
        \<and> (\<forall>j<i. \<not> isl (openStream urlText client u h j)) \<longrightarrow>
       measure urlText ck client url h t
         = (sample0\<lparr> sm_Streams := StreamCount \<rparr>, Some (ErrorString err)))
    \<and> (\<forall>err. snd (measure urlText ck client url h t) = Some (ErrorString err) \<longrightarrow>
        sm_BytesPerSecond (fst (measure urlText ck client url h t)) = 0)"
proof (intro conjI allI impI; (elim conjE)?)
  fix i err assume i: "i < StreamCount" "openStream urlText client u h i = Inl err" "\<forall>j<i. \<not> isl (openStream urlText client u h j)"
  define opened where "opened = map (openStream urlText client u h) [0..<StreamCount]"
  have ab: "list_ex isl opened" using i by (force simp: opened_def list_ex_iff)
  have ms: "measure_streams ck to opened = map (\<lambda>op. (stream0, case op of Inl e \<Rightarrow> Some e | Inr _ \<Rightarrow> None)) opened" for to
    using ab by (auto simp: measure_streams_def run_stream_def split: sum.split)
  have "StreamCount = i + Suc (StreamCount - Suc i)" using i(1) by simp
  then have "opened = map (openStream urlText client u h) [0..<i] @ Inl err # map (openStream urlText client u h) [Suc i..<StreamCount]"
    using i(1,2) unfolding opened_def
    by (metis upt_add_eq_append le0 less_imp_le_nat le_add_diff_inverse map_append list.simps(9) upt_conv_Cons)
  then obtain rest where split: "map (\<lambda>op. (stream0, case op of Inl e \<Rightarrow> Some e | Inr _ \<Rightarrow> None)) opened
      = map (\<lambda>j. (stream0, None)) [0..<i] @ (stream0, Some err) # rest"
    using i(3) by (force simp: isl_def split: sum.splits)
  have "List.map_filter snd (map (\<lambda>j. (stream0, None)) [0..<i] @ (stream0, Some err) # rest)
      = err # List.map_filter snd rest"
    by (simp add: List.map_filter_def comp_def)
  then have "wn_err (window_of ck to opened) = Some err" for to
    unfolding window_of_def ms split add_stream_err by (simp add: window0_def)
  moreover have "wn_total (window_of ck to opened) = 0" for to
    by (simp add: window_of_def ms add_stream_sums window0_def comp_def stream0_def)
  ultimately show "measure urlText ck client url h t = (sample0\<lparr> sm_Streams := StreamCount \<rparr>, Some (ErrorString err))"
    using assms by (simp add: measure_eq opened_def[symmetric] report_def sample0_def)
next
  fix err assume "snd (measure urlText ck client url h t) = Some (ErrorString err)"
  then show "sm_BytesPerSecond (fst (measure urlText ck client url h t)) = 0"
    using assms by (auto simp: measure_eq report_def sample0_def split: option.splits if_splits)
qed

subsection \<open>Sizing\<close>

text \<open>
  A sized URL asks the same resource: on a plain target the count is appended, the URL parses,
  and its host is the target's, which is the one on the allowlist.
\<close>

lemma sized_plain:
  assumes "plain_target scheme h port path"
  shows "sizedURL urlText (plain_url scheme h port path) n = Inr (plain_url scheme h port path @ ''?bytes='' @ Itoa n)"
    "Parse (plain_url scheme h port path @ ''?bytes='' @ Itoa n) = Some (plain_parsed scheme h port path (''bytes='' @ Itoa n))"
    "hostname (plain_url scheme h port path @ ''?bytes='' @ Itoa n) = Some h"
proof -
  have key: "list_all unreserved ''bytes''" by (simp add: unreserved_def alphanumeric_def in_rng_def)
  have "query_safe c" if "c \<in> set (Itoa n)" for c
    using Itoa_plain[of n] that by (auto simp: list_all_iff query_safe_def)
  then have q: "query_bytes (''bytes='' @ Itoa n)"
    by (auto simp: query_bytes_def list_all_iff query_safe_def unreserved_def alphanumeric_def in_rng_def)
  show "sizedURL urlText (plain_url scheme h port path) n = Inr (plain_url scheme h port path @ ''?bytes='' @ Itoa n)"
    using with_param_plain[OF assms key Itoa_plain[of n]] by (simp add: sizedURL_def)
  show "Parse (plain_url scheme h port path @ ''?bytes='' @ Itoa n) = Some (plain_parsed scheme h port path (''bytes='' @ Itoa n))"
    "hostname (plain_url scheme h port path @ ''?bytes='' @ Itoa n) = Some h"
    using Parse_plain[OF assms q] hostname_plain[OF assms q] by (simp_all add: query_part_def)
qed

text \<open>
  C33. What a stream asks for: whatever the target's URL, the sized URL is the target with its own
  scheme, host, path and fragment, a query in which \<open>bytes\<close> is exactly the byte count and every
  other parameter of the target keeps its values in order.
\<close>

theorem sizedURL_target:
  assumes "sizedURL urlText rawURL n = Inr out" and "length (Query (the (Parse rawURL))) < maxQueryParams"
  shows "\<exists>u query. Parse rawURL = Some u \<and> out = show_target u @ CHR ''?'' # query @ show_fragment u
    \<and> (\<forall>k. values_of (ParseQuery query) k = (if k = ''bytes'' then [Itoa n] else values_of (Query u) k))"
proof -
  have "with_param rawURL ''bytes'' (Itoa n) = Some out"
    using assms(1) by (auto simp: sizedURL_def split: option.splits)
  from with_param_spec[OF this assms(2)] show ?thesis by blast
qed

subsection \<open>Concrete measurements\<close>

definition cdn_sized :: string where
  "cdn_sized = ''https://speed.cloudflare.com/__down?bytes=2097152''"

lemma cdn_plain: "plain_target ''https'' ''speed.cloudflare.com'' [] ''/__down''"
  "CDNTestURL = plain_url ''https'' ''speed.cloudflare.com'' [] ''/__down''"
  by (simp_all add: plain_target_def web_scheme_def plain_name_def plain_path_def unreserved_def
      alphanumeric_def in_rng_def CDNTestURL_def plain_url_def with_port_def)

lemma StreamBytes_text: "Itoa StreamBytes = ''2097152''"
  by (simp add: StreamBytes_def Itoa.simps char_of_ascii_table)

lemma cdn_target: "sizedURL urlText CDNTestURL StreamBytes = Inr cdn_sized" "NewRequest urlText cdn_sized = None"
  using sized_plain[OF cdn_plain(1), where n = StreamBytes] cdn_plain(2)
  by (simp_all add: StreamBytes_text cdn_sized_def NewRequest_def plain_url_def with_port_def)

theorem sizedURL_target_witness:
  "\<exists>u query. Parse CDNTestURL = Some u \<and> cdn_sized = show_target u @ CHR ''?'' # query @ show_fragment u
    \<and> values_of (ParseQuery query) ''bytes'' = [''2097152'']"
proof -
  have "Parse CDNTestURL = Some (plain_parsed ''https'' ''speed.cloudflare.com'' [] ''/__down'' [])"
    using Parse_plain[OF cdn_plain(1), of "[]"] cdn_plain(2) by (simp add: query_bytes_def query_part_def)
  then have "length (Query (the (Parse CDNTestURL))) < maxQueryParams"
    by (simp add: plain_parsed_def Query_def ParseQuery_def maxQueryParams_def List.map_filter_def split: option.split)
  from sizedURL_target[OF cdn_target(1)[of id] this] show ?thesis
    using StreamBytes_text by fastforce
qed

text \<open>Eight streams that read inside the warm-up, once after it, and end; or one that is refused.\<close>

definition steady_script :: script where
  "steady_script = Chunk 40000 (100 * Millisecond) (Chunk 20000 (600 * Millisecond)
     (Final 10000 (850 * Millisecond) EOF))"

definition sample_streams :: "nat option \<Rightarrow> stream_client" where
  "sample_streams refused = \<lparr> sc_do = (\<lambda>i _. if refused = Some i then Inl ''refused''
       else Inr \<lparr> sp_StatusCode = 200, sp_ErrBody = \<lparr> bd_data = [], bd_err = None \<rparr>,
                  sp_Script = steady_script \<rparr>) \<rparr>"

definition sample_clock :: clock where
  "sample_clock = \<lparr> ck_measureStart = 1, ck_start = 1 \<rparr>"

lemma steady_stream:
  "readStream 1 (1 + 500 * Millisecond) (5 * Second) steady_script stream0
    = (\<lparr> st_total = 62768, st_steadyBytes = 30000, st_steadyStart = 600 * Millisecond,
         st_end = 850 * Millisecond \<rparr>, None)"
  by (simp add: steady_script_def stream0_def after_read_def read_size_def bufferBytes_def
      StreamBytes_def duration_units)

lemma eight_streams: "map f [0..<StreamCount] = map f [0, 1, 2, 3, 4, 5, 6, 7]"
  by (simp add: StreamCount_def upt_rec eval_nat_numeral)

lemma sample_open: "NewRequest id u = None \<Longrightarrow> openStream id (sample_streams None) u h i = Inr steady_script"
  by (simp add: openStream_def sample_streams_def)

definition steady_result :: "stream \<times> string option" where
  "steady_result = (\<lparr> st_total = 62768, st_steadyBytes = 30000, st_steadyStart = 600 * Millisecond,
     st_end = 850 * Millisecond \<rparr>, None)"

lemma sample_measure_streams:
  "NewRequest id u = None \<Longrightarrow>
    measure_streams sample_clock DefaultTimeout (map (openStream id (sample_streams None) u h) [0..<StreamCount])
    = [steady_result, steady_result, steady_result, steady_result,
       steady_result, steady_result, steady_result, steady_result]"
  using steady_stream
  by (simp add: eight_streams measure_streams_def sample_open run_stream_def sample_clock_def
      WarmupDuration_def DefaultTimeout_def steady_result_def)

lemma steady_result_facts:
  "fst steady_result = \<lparr> st_total = 62768, st_steadyBytes = 30000,
     st_steadyStart = 600 * Millisecond, st_end = 850 * Millisecond \<rparr>"
  "snd steady_result = None"
  by (simp_all add: steady_result_def)

lemma sample_window:
  "fold add_stream [steady_result, steady_result, steady_result, steady_result,
       steady_result, steady_result, steady_result, steady_result] window0
    = \<lparr> wn_total = 502144, wn_steady = 240000, wn_start = 600 * Millisecond,
        wn_end = 850 * Millisecond, wn_err = None \<rparr>"
  by (simp add: add_stream_def window0_def split_beta steady_result_facts duration_units)

lemma sample_measure:
  assumes "t = 0 \<or> t = DefaultTimeout" "sizedURL id url StreamBytes = Inr u" "NewRequest id u = None"
  shows "measure id sample_clock (sample_streams None) url h t
    = (\<lparr> sm_BytesPerSecond = 960000, sm_SampleByteCount = 502144, sm_Streams = StreamCount,
         sm_WarmupExcluded = True, sm_Elapsed = 250 * Millisecond \<rparr>, None)"
proof -
  have "(if t \<le> 0 then DefaultTimeout else t) = DefaultTimeout" using assms(1) by auto
  then show ?thesis
    unfolding measure_eq window_of_def
    by (simp only: assms(2) sum.case sample_measure_streams[OF assms(3)] sample_window)
      (simp add: report_def per_second_def duration_units)
qed

theorem measure_accounts_witness:
  "0 < sm_BytesPerSecond (fst (measure id sample_clock (sample_streams None) CDNTestURL [] 0))"
  using measure_accounts[of sample_clock id "sample_streams None" CDNTestURL "[]" 0]
    sample_measure[OF _ cdn_target, of 0 "[]"]
  by (auto simp: sample_clock_def Let_def)

theorem measure_all_or_nothing_witness:
  "measure id sample_clock (sample_streams (Some 3)) CDNTestURL [] 0
    = (sample0\<lparr> sm_Streams := StreamCount \<rparr>, Some (ErrorString ''refused''))"
proof -
  have "3 < StreamCount \<and> openStream id (sample_streams (Some 3)) cdn_sized [] 3 = Inl ''refused''
      \<and> (\<forall>j<3. \<not> isl (openStream id (sample_streams (Some 3)) cdn_sized [] j))"
    using cdn_target(2) by (auto simp: openStream_def sample_streams_def StreamCount_def)
  then show ?thesis
    using conjunct1[OF measure_all_or_nothing[OF cdn_target(1), of id "sample_streams (Some 3)" "[]" sample_clock 0]]
    by blast
qed

end
