(* ===== verification/Bandwidth_Sampler.thy ===== *)
theory Bandwidth_Sampler
  imports Bandwidth_Measure
begin

text \<open>
  The sampler of \<open>bandwidth/bandwidth.go\<close>: for each target, the time check, the reservation of
  byte budget, the measurement and the submission, and the log line. The reserver, the
  submitter, the context and the link are parameters over a state \<open>'w\<close> of the world, which
  every call may change; what the sampler does is the list of its events.
\<close>

subsection \<open>Types\<close>

definition SkipNoBudget :: string where "SkipNoBudget = ''no byte budget this hour''"
definition SkipNoTime :: string where "SkipNoTime = ''no time left in this probe''"
definition SkipUnsupported :: string where "SkipUnsupported = ''server has no bandwidth endpoints''"

lemmas skips = SkipNoBudget_def SkipNoTime_def SkipUnsupported_def

record SampleResult =
  br_Target :: Target
  br_Sample :: Sample
  br_Skip :: string
  br_Err :: "err option"

definition result_of :: "Target \<Rightarrow> SampleResult" where
  "result_of target = \<lparr> br_Target = target, br_Sample = sample0, br_Skip = [], br_Err = None \<rparr>"

definition Measured :: "SampleResult \<Rightarrow> bool" where
  "Measured r \<longleftrightarrow> br_Skip r = [] \<and> br_Err r = None \<and> 0 < sm_BytesPerSecond (br_Sample r)"

text \<open>What the context says: whether it is done, its deadline, and the time now.\<close>

record context_view =
  cx_Done :: bool
  cx_Deadline :: "gotime option"
  cx_Now :: gotime

definition hasTimeBudget :: "context_view \<Rightarrow> bool" where
  "hasTimeBudget cx =
    (if cx_Done cx then False
     else (case cx_Deadline cx of
         None \<Rightarrow> True
       | Some deadline \<Rightarrow> MinTimeBudget \<le> deadline - cx_Now cx))"

text \<open>\<open>Reserver.ReserveBandwidth\<close> and \<open>Submitter.SubmitBandwidth\<close>; a nil interface is \<open>None\<close>.\<close>

type_synonym 'w reserver = "string \<Rightarrow> nat \<Rightarrow> 'w \<Rightarrow> err option \<times> 'w"
type_synonym 'w submitter = "string \<Rightarrow> string \<Rightarrow> rat \<Rightarrow> nat \<Rightarrow> 'w \<Rightarrow> err option \<times> 'w"

record 'w Sampler =
  sl_Targets :: "Target list"
  sl_Reserve :: "'w reserver option"
  sl_Submit :: "'w submitter option"
  sl_Timeout :: duration

text \<open>The tunnel and the clock, as the state of the world has them.\<close>

record 'w link =
  lk_context :: "'w \<Rightarrow> context_view"
  lk_url_text :: "string \<Rightarrow> string"
  lk_clock :: "'w \<Rightarrow> clock"
  lk_client :: "'w \<Rightarrow> stream_client"
  lk_after :: "Target \<Rightarrow> duration \<Rightarrow> 'w \<Rightarrow> 'w"

datatype sample_event =
    Reserve string nat "err option"
  | Transfer Target Sample "err option"
  | Submit string string rat nat "err option"

subsection \<open>Sampling\<close>

definition sampler_timeout :: "'w Sampler \<Rightarrow> duration" where
  "sampler_timeout s = (if 0 < sl_Timeout s then sl_Timeout s else DefaultTimeout)"

text \<open>Measuring and submitting, once the reservation, if any, was granted.\<close>

definition measure_and_submit :: "'w Sampler \<Rightarrow> 'w link \<Rightarrow> string \<Rightarrow> Target \<Rightarrow> 'w
    \<Rightarrow> SampleResult \<times> sample_event list \<times> 'w" where
  "measure_and_submit s lk providerClientId target w =
    (let (sample, err) = MeasureTarget (lk_url_text lk) (lk_clock lk w) (lk_client lk w) target (sampler_timeout s);
         w1 = lk_after lk target (sampler_timeout s) w;
         r = (result_of target)\<lparr> br_Sample := sample \<rparr>;
         moved = Transfer target sample err
     in if err \<noteq> None then (r\<lparr> br_Err := err \<rparr>, [moved], w1)
        else if sm_BytesPerSecond sample \<le> 0 then (r\<lparr> br_Err := Some (Sentinel ErrNoSample) \<rparr>, [moved], w1)
        else (case sl_Submit s of
            None \<Rightarrow> (r, [moved], w1)
          | Some submit \<Rightarrow>
             (let (err2, w2) = submit providerClientId (tg_Source target) (sm_BytesPerSecond sample)
                    (sm_SampleByteCount sample) w1
              in (r\<lparr> br_Err := err2 \<rparr>,
                  [moved, Submit providerClientId (tg_Source target) (sm_BytesPerSecond sample)
                     (sm_SampleByteCount sample) err2], w2))))"

definition sampleOne :: "'w Sampler \<Rightarrow> 'w link \<Rightarrow> string \<Rightarrow> Target \<Rightarrow> 'w
    \<Rightarrow> SampleResult \<times> sample_event list \<times> 'w" where
  "sampleOne s lk providerClientId target w =
    (if \<not> hasTimeBudget (lk_context lk w) then ((result_of target)\<lparr> br_Skip := SkipNoTime \<rparr>, [], w)
     else (case sl_Reserve s of
         None \<Rightarrow> measure_and_submit s lk providerClientId target w
       | Some reserve \<Rightarrow>
          (let (err, w1) = reserve providerClientId MaxSampleBytes w;
               asked = Reserve providerClientId MaxSampleBytes err
           in case err of
                Some e \<Rightarrow>
                  ((if Is e bandwidth_ErrNoBudget then (result_of target)\<lparr> br_Skip := SkipNoBudget \<rparr>
                    else if Is e bandwidth_ErrUnsupported then (result_of target)\<lparr> br_Skip := SkipUnsupported \<rparr>
                    else (result_of target)\<lparr> br_Err := err \<rparr>), [asked], w1)
              | None \<Rightarrow>
                  (let (r, es, w2) = measure_and_submit s lk providerClientId target w1
                   in (r, asked # es, w2)))))"

fun sample_targets :: "'w Sampler \<Rightarrow> 'w link \<Rightarrow> string \<Rightarrow> Target list \<Rightarrow> 'w
    \<Rightarrow> SampleResult list \<times> sample_event list \<times> 'w" where
  "sample_targets s lk providerClientId [] w = ([], [], w)"
| "sample_targets s lk providerClientId (target # rest) w =
    (let (r, es, w1) = sampleOne s lk providerClientId target w;
         (rs, fs, w2) = sample_targets s lk providerClientId rest w1
     in (r # rs, es @ fs, w2))"

definition SampleAll :: "'w Sampler \<Rightarrow> 'w link \<Rightarrow> string \<Rightarrow> 'w
    \<Rightarrow> SampleResult list \<times> sample_event list \<times> 'w" where
  "SampleAll s lk providerClientId w = sample_targets s lk providerClientId (sl_Targets s) w"

subsection \<open>The log line\<close>

text \<open>\<open>%.1f\<close> of a non-negative number: to the nearest tenth, ties to even.\<close>

definition tenths :: "rat \<Rightarrow> nat" where
  "tenths x =
    (let y = 10 * x; n = nat \<lfloor>y\<rfloor>; d = y - of_nat n
     in if d < 1 / 2 \<or> (d = 1 / 2 \<and> even n) then n else n + 1)"

definition fixed1 :: "rat \<Rightarrow> string" where
  "fixed1 x = Itoa (tenths x div 10) @ ''.'' @ Itoa (tenths x mod 10)"

definition summary_part :: "SampleResult \<Rightarrow> string" where
  "summary_part r =
    (if br_Skip r \<noteq> [] then tg_Name (br_Target r) @ ''=skipped('' @ br_Skip r @ '')''
     else (case br_Err r of
         Some e \<Rightarrow> tg_Name (br_Target r) @ ''=failed('' @ Error e @ '')''
       | None \<Rightarrow>
           tg_Name (br_Target r) @ ''='' @ fixed1 (sm_BytesPerSecond (br_Sample r) / (1024 * 1024)) @ ''MB/s''
           @ (if \<not> sm_WarmupExcluded (br_Sample r) then ''(lower-bound)'' else [])))"

definition Summary_results :: "SampleResult list \<Rightarrow> string" where
  "Summary_results results = Join (map summary_part results) '' ''"

subsection \<open>Budget\<close>

fun granted :: "sample_event list \<Rightarrow> nat" where
  "granted [] = 0"
| "granted (e # es) = (case e of Reserve _ n None \<Rightarrow> n | _ \<Rightarrow> 0) + granted es"

fun moved :: "sample_event list \<Rightarrow> nat" where
  "moved [] = 0"
| "moved (e # es) = (case e of Transfer _ x _ \<Rightarrow> sm_SampleByteCount x | _ \<Rightarrow> 0) + moved es"

lemma ledger_append [simp]:
  "granted (es @ fs) = granted es + granted fs"
  "moved (es @ fs) = moved es + moved fs"
  by (induction es) (auto split: sample_event.split option.split)

text \<open>At every moment no more was transferred than had been granted.\<close>

definition covered :: "sample_event list \<Rightarrow> bool" where
  "covered es \<longleftrightarrow> (\<forall>p. prefix p es \<longrightarrow> moved p \<le> granted p)"

lemma covered_Nil [simp]: "covered []"
  by (simp add: covered_def)

lemma covered_append: "covered es \<Longrightarrow> covered fs \<Longrightarrow> covered (es @ fs)"
  by (auto simp: covered_def prefix_append add_mono)

lemma covered_pair:
  "sm_SampleByteCount x \<le> n \<Longrightarrow> covered [Reserve a n None, Transfer b x c]"
  "sm_SampleByteCount x \<le> n \<Longrightarrow> covered [Reserve a n None, Transfer b x c, Submit d e f g h]"
  "covered [Reserve a n err]"
  by (auto simp: covered_def prefix_Cons)

interpretation target_meter:
  metered "\<lambda>(urlText, ck, client, target, t). sm_SampleByteCount (fst (MeasureTarget urlText ck client target t))" MaxSampleBytes
  by unfold_locales (auto simp: MeasureTarget_def measure_total)

lemma target_bytes: "MeasureTarget urlText ck client target t = (sample, err) \<Longrightarrow> sm_SampleByteCount sample \<le> MaxSampleBytes"
  using target_meter.within_cap[of "(urlText, ck, client, target, t)"] by simp

lemmas sampling = measure_and_submit_def sampleOne_def Let_def result_of_def

lemma measure_and_submit_events:
  assumes "measure_and_submit s lk p target w = (r, es, w')"
  shows "\<exists>x err. sm_SampleByteCount x \<le> MaxSampleBytes
    \<and> (es = [Transfer target x err] \<or> (\<exists>a b c d e. es = [Transfer target x err, Submit a b c d e]))"
  using assms by (auto simp: sampling target_bytes split: prod.splits if_splits option.splits)

lemma sampleOne_covered:
  assumes "sampleOne s lk p target w = (r, es, w')" "sl_Reserve s \<noteq> None"
  shows "covered es"
proof -
  obtain reserve where rs: "sl_Reserve s = Some reserve" using assms(2) by auto
  obtain err w1 where rv: "reserve p MaxSampleBytes w = (err, w1)" by fastforce
  obtain r2 fs w2 where ms: "measure_and_submit s lk p target w1 = (r2, fs, w2)" using prod_cases3 by blast
  show ?thesis
  proof (cases "hasTimeBudget (lk_context lk w) \<and> err = None")
    case True
    then have "es = Reserve p MaxSampleBytes None # fs"
      using assms(1) rs rv ms by (simp add: sampleOne_def)
    then show ?thesis using measure_and_submit_events[OF ms] covered_pair by blast
  next
    case False
    then have "es = [] \<or> es = [Reserve p MaxSampleBytes err]"
      using assms(1) rs rv by (auto simp: sampleOne_def split: option.splits if_splits)
    then show ?thesis using covered_pair(3) by auto
  qed
qed

lemma sampleOne_moved:
  assumes "sampleOne s lk p target w = (r, es, w')"
  shows "moved es \<le> MaxSampleBytes"
proof -
  have "moved fs \<le> MaxSampleBytes" if "measure_and_submit s lk p target w1 = (r2, fs, w2)" for w1 r2 fs w2
    using measure_and_submit_events[OF that] by auto
  then show ?thesis using assms
    by (auto simp: sampleOne_def Let_def split: option.splits if_splits prod.splits)
qed

lemma sample_targets_induct:
  assumes "sample_targets s lk p ts w = (rs, es, w')" and "P []"
    and "\<And>t w r fs w1 gs. sampleOne s lk p t w = (r, fs, w1) \<Longrightarrow> P gs \<Longrightarrow> P (fs @ gs)"
  shows "P es"
  using assms(1)
proof (induction ts arbitrary: w rs es)
  case (Cons t ts)
  then obtain r fs w1 qs gs where "sampleOne s lk p t w = (r, fs, w1)"
    "sample_targets s lk p ts w1 = (qs, gs, w')" "es = fs @ gs"
    by (auto split: prod.splits)
  then show ?case using Cons.IH assms(3) by blast
qed (use assms(2) in simp)

lemma sample_targets_moved:
  assumes "sample_targets s lk p ts w = (rs, es, w')"
  shows "moved es \<le> length ts * MaxSampleBytes"
  using assms
proof (induction ts arbitrary: w rs es)
  case (Cons t ts)
  then show ?case
    by (fastforce split: prod.splits dest: sampleOne_moved intro: add_mono)
qed simp

text \<open>
  C31. Byte budget: with a reserver, at every moment of a provider's sampling the bytes
  transferred are at most the bytes the server has granted, so no target is measured on a
  reservation that was refused or on that of another target; with or without a reserver a
  provider costs at most \<open>MaxSampleBytes\<close> per target.
\<close>

theorem sampler_budget:
  assumes "SampleAll s lk p w = (rs, es, w')"
  shows "(sl_Reserve s \<noteq> None \<longrightarrow> covered es) \<and> moved es \<le> length (sl_Targets s) * MaxSampleBytes"
proof (intro conjI impI)
  assume "sl_Reserve s \<noteq> None"
  then show "covered es"
    using assms unfolding SampleAll_def
    by (elim sample_targets_induct) (auto intro: covered_append dest: sampleOne_covered)
next
  show "moved es \<le> length (sl_Targets s) * MaxSampleBytes"
    by (rule sample_targets_moved[OF assms[unfolded SampleAll_def]])
qed

subsection \<open>Results and submissions\<close>

text \<open>The figures the server recorded, and the figure of a result.\<close>

definition recorded :: "sample_event \<Rightarrow> (string \<times> rat \<times> nat) option" where
  "recorded e = (case e of Submit _ source rate n None \<Rightarrow> Some (source, rate, n) | _ \<Rightarrow> None)"

definition figure :: "SampleResult \<Rightarrow> string \<times> rat \<times> nat" where
  "figure r = (tg_Source (br_Target r), sm_BytesPerSecond (br_Sample r), sm_SampleByteCount (br_Sample r))"

definition told :: "SampleResult \<Rightarrow> sample_event list \<Rightarrow> bool" where
  "told r es \<longleftrightarrow> List.map_filter recorded es = (if Measured r then [figure r] else [])"

lemma measure_and_submit_result:
  assumes "measure_and_submit s lk p target w = (r, es, w')"
  shows "br_Target r = target \<and> br_Skip r = [] \<and> (Measured r \<longleftrightarrow> br_Err r = None)
    \<and> (sl_Submit s \<noteq> None \<longrightarrow> told r es)"
  using assms
  by (auto simp: sampling Measured_def told_def recorded_def figure_def sample0_def
      split: prod.splits if_splits option.splits)

lemma sampleOne_result:
  assumes "sampleOne s lk p target w = (r, es, w')"
  shows "br_Target r = target \<and> (Measured r \<longleftrightarrow> br_Skip r = [] \<and> br_Err r = None)
    \<and> (sl_Submit s \<noteq> None \<longrightarrow> told r es)"
proof (cases "\<exists>w1 fs w2. measure_and_submit s lk p target w1 = (r, fs, w2)
    \<and> (es = fs \<or> (\<exists>n. es = Reserve p n None # fs))")
  case True
  then show ?thesis
    by (auto dest!: measure_and_submit_result simp: told_def recorded_def Measured_def)
next
  case False
  then have "(\<exists>sk. sk \<noteq> [] \<and> r = (result_of target)\<lparr> br_Skip := sk \<rparr>
        \<or> (\<exists>e. r = (result_of target)\<lparr> br_Err := Some e \<rparr>))
      \<and> (es = [] \<or> (\<exists>n e. es = [Reserve p n e]))"
    using assms by (auto simp: sampleOne_def Let_def skips split: option.splits if_splits prod.splits)
  then show ?thesis by (auto simp: told_def recorded_def Measured_def result_of_def)
qed

text \<open>
  Honest figures: there is one result per target, in their order; each is measured,
  skipped or failed; and with a submitter the figures the server recorded are exactly those of
  the measured results, in order, each under the source tag of its own target and none of
  them combined.
\<close>

theorem sampler_results:
  assumes "SampleAll s lk p w = (rs, es, w')"
  shows "map br_Target rs = sl_Targets s
    \<and> list_all (\<lambda>r. Measured r \<longleftrightarrow> br_Skip r = [] \<and> br_Err r = None) rs
    \<and> (sl_Submit s \<noteq> None \<longrightarrow> List.map_filter recorded es = map figure (filter Measured rs))"
proof -
  have "map br_Target rs = ts \<and> list_all (\<lambda>r. Measured r \<longleftrightarrow> br_Skip r = [] \<and> br_Err r = None) rs
      \<and> (sl_Submit s \<noteq> None \<longrightarrow> List.map_filter recorded es = map figure (filter Measured rs))"
    if "sample_targets s lk p ts w = (rs, es, w')" for ts w rs es
    using that
  proof (induction ts arbitrary: w rs es)
    case (Cons t ts)
    then obtain r fs w1 qs gs where "sampleOne s lk p t w = (r, fs, w1)"
      "sample_targets s lk p ts w1 = (qs, gs, w')" "rs = r # qs" "es = fs @ gs"
      by (auto split: prod.splits)
    then show ?case using Cons.IH[of w1 qs gs] sampleOne_result[of s lk p t w r fs w1]
      by (auto simp: told_def)
  qed simp
  then show ?thesis using assms by (simp add: SampleAll_def)
qed

subsection \<open>A concrete provider\<close>

text \<open>The state is the number of reservations the hour still has; the second target gets none.\<close>

definition hourly_budget :: "nat reserver" where
  "hourly_budget p n w = (if w = 0 then (Some (wrapf bandwidth_ErrNoBudget p), 0) else (None, w - 1))"

definition sample_sampler :: "nat Sampler" where
  "sample_sampler = \<lparr> sl_Targets = DefaultTargets ''https://api.example.com/'' ''secret'',
     sl_Reserve = Some hourly_budget, sl_Submit = Some (\<lambda>p source rate n w. (None, w)), sl_Timeout = 0 \<rparr>"

definition sample_link :: "nat link" where
  "sample_link = \<lparr> lk_context = (\<lambda>w. \<lparr> cx_Done = False, cx_Deadline = Some (60 * Second), cx_Now = 1 \<rparr>),
     lk_url_text = id, lk_clock = (\<lambda>w. sample_clock), lk_client = (\<lambda>w. sample_streams None),
     lk_after = (\<lambda>t d w. w) \<rparr>"

definition operator_target :: Target where
  "operator_target = OperatorTarget ''https://api.example.com/'' ''secret''"

definition steady_sample :: Sample where
  "steady_sample = \<lparr> sm_BytesPerSecond = 960000, sm_SampleByteCount = 502144, sm_Streams = StreamCount,
     sm_WarmupExcluded = True, sm_Elapsed = 250 * Millisecond \<rparr>"

lemma operator_url:
  "sizedURL urlText (tg_URL operator_target) StreamBytes
     = Inr ''https://api.example.com/network/provider-bandwidth-test?bytes=2097152''"
  "NewRequest urlText ''https://api.example.com/network/provider-bandwidth-test?bytes=2097152'' = None"
proof -
  have p: "plain_target ''https'' ''api.example.com'' [] ''/network/provider-bandwidth-test''"
    by (simp add: plain_target_def web_scheme_def plain_name_def plain_path_def unreserved_def alphanumeric_def in_rng_def)
  show "sizedURL urlText (tg_URL operator_target) StreamBytes
     = Inr ''https://api.example.com/network/provider-bandwidth-test?bytes=2097152''"
    "NewRequest urlText ''https://api.example.com/network/provider-bandwidth-test?bytes=2097152'' = None"
    using sized_plain[OF p, where n = StreamBytes]
    by (simp_all add: StreamBytes_text NewRequest_def plain_url_def with_port_def operator_target_def
        OperatorTarget_def TrimRight_def)
qed

lemma sample_targets_default: "DefaultTargets ''https://api.example.com/'' ''secret'' = [operator_target, CDNTarget]"
  by (simp add: DefaultTargets_def operator_target_def TrimSpace_def plain_eval)

lemma sample_run:
  "SampleAll sample_sampler sample_link ''p'' (Suc 0)
    = ([(result_of operator_target)\<lparr> br_Sample := steady_sample \<rparr>,
        (result_of CDNTarget)\<lparr> br_Skip := SkipNoBudget \<rparr>],
       [Reserve ''p'' MaxSampleBytes None, Transfer operator_target steady_sample None,
        Submit ''p'' SourceOperator 960000 502144 None,
        Reserve ''p'' MaxSampleBytes (Some (wrapf bandwidth_ErrNoBudget ''p''))], 0)"
proof -
  have "MeasureTarget id sample_clock (sample_streams None) operator_target DefaultTimeout = (steady_sample, None)"
    using sample_measure[OF _ operator_url] by (simp add: MeasureTarget_def steady_sample_def)
  moreover have "tg_Source operator_target = SourceOperator" by (simp add: operator_target_def OperatorTarget_def)
  ultimately show ?thesis
    by (simp add: SampleAll_def sample_sampler_def sample_targets_default sampleOne_def measure_and_submit_def
        sample_link_def sampler_timeout_def hourly_budget_def hasTimeBudget_def MinTimeBudget_def
        duration_units result_of_def steady_sample_def)
qed

theorem sampler_budget_witness:
  "sl_Reserve sample_sampler \<noteq> None \<and> covered (fst (snd (SampleAll sample_sampler sample_link ''p'' (Suc 0))))"
proof -
  have "sl_Reserve sample_sampler \<noteq> None" by (simp add: sample_sampler_def)
  then show ?thesis
    using sampler_budget[OF sample_run] by (simp add: sample_run)
qed

theorem sampler_results_witness:
  "map Measured (fst (SampleAll sample_sampler sample_link ''p'' (Suc 0))) = [True, False]
    \<and> List.map_filter recorded (fst (snd (SampleAll sample_sampler sample_link ''p'' (Suc 0))))
      = [(SourceOperator, 960000, 502144)]"
proof -
  have m: "map Measured (fst (SampleAll sample_sampler sample_link ''p'' (Suc 0))) = [True, False]"
    by (simp add: sample_run steady_sample_def Measured_def result_of_def skips)
  moreover have "sl_Submit sample_sampler \<noteq> None" by (simp add: sample_sampler_def)
  ultimately show ?thesis
    using sampler_results[OF sample_run]
    by (simp add: sample_run steady_sample_def figure_def result_of_def operator_target_def OperatorTarget_def)
qed

end
