(* ===== verification/Go_Time.thy ===== *)
theory Go_Time
  imports Go_Text "HOL-Library.Monad_Syntax"
begin

text \<open>
  The part of Go's \<open>time\<close> package that the JSON text of an instant needs: the calendar date of a
  day (\<open>absDate\<close>, by cycles of 400, 100, 4 and 1 years), and the strict RFC 3339 text that
  \<open>Time.MarshalJSON\<close> writes, or its error for a year of more than four digits. An instant is a
  count of nanoseconds since the start of year 1, a zone an offset in seconds. The lemmas show that
  dates are counted back to the day they come from, and that a reader of RFC 3339 gets the instant.
\<close>

subsection \<open>Dates\<close>

definition isLeap :: "int \<Rightarrow> bool" where
  "isLeap y \<longleftrightarrow> 4 dvd y \<and> (\<not> 100 dvd y \<or> 400 dvd y)"

text \<open>The year of a day, counted from the first of January of year 1, and the day in the year.\<close>

definition year_day :: "int \<Rightarrow> int \<times> int" where
  "year_day d =
    (let n400 = d div 146097; r400 = d mod 146097;
         n100 = r400 div 36524 - r400 div 36524 div 4; r100 = r400 - 36524 * n100;
         n4 = r100 div 1461; r4 = r100 mod 1461;
         n1 = r4 div 365 - r4 div 365 div 4
     in (400 * n400 + 100 * n100 + 4 * n4 + n1 + 1, r4 - 365 * n1))"

definition daysBefore :: "int \<Rightarrow> int" where
  "daysBefore m = [0, 31, 59, 90, 120, 151, 181, 212, 243, 273, 304, 334, 365] ! nat m"

definition month_day :: "bool \<Rightarrow> int \<Rightarrow> int \<times> int" where
  "month_day leap yday =
    (if leap \<and> yday = 59 then (2, 29)
     else let day = (if leap \<and> 59 < yday then yday - 1 else yday);
              month = day div 31;
              begin = (if daysBefore (month + 1) \<le> day then daysBefore (month + 1) else daysBefore month);
              month' = (if daysBefore (month + 1) \<le> day then month + 1 else month)
          in (month' + 1, day - begin + 1))"

definition absDate :: "int \<Rightarrow> int \<times> int \<times> int" where
  "absDate d = (let (y, yday) = year_day d; (m, day) = month_day (isLeap y) yday in (y, m, day))"

text \<open>The way back: the days of the years before, of the months before, and in the month.\<close>

definition year_start :: "int \<Rightarrow> int" where
  "year_start y = 365 * (y - 1) + (y - 1) div 4 - (y - 1) div 100 + (y - 1) div 400"

definition month_start :: "bool \<Rightarrow> int \<Rightarrow> int" where
  "month_start leap m = daysBefore (m - 1) + (if leap \<and> 2 < m then 1 else 0)"

definition daysIn :: "bool \<Rightarrow> int \<Rightarrow> int" where
  "daysIn leap m = (if leap \<and> m = 2 then 29 else daysBefore m - daysBefore (m - 1))"

definition day_number :: "int \<Rightarrow> int \<Rightarrow> int \<Rightarrow> int" where
  "day_number y m d = year_start y + month_start (isLeap y) m + d - 1"

subsection \<open>Dates are counted back\<close>

lemma cycles:
  fixes d :: int
  obtains n a b c r where "year_day d = (400 * n + 100 * a + 4 * b + c + 1, r)"
    "d = 146097 * n + 36524 * a + 1461 * b + 365 * c + r"
    "0 \<le> a" "a \<le> 3" "0 \<le> b" "b \<le> 24" "0 \<le> c" "c \<le> 3" "0 \<le> r"
    "r < (if c = 3 \<and> (b = 24 \<longrightarrow> a = 3) then 366 else 365)"
proof -
  define n r400 where "n = d div 146097" and "r400 = d mod 146097"
  define q where "q = r400 div 36524"
  define a where "a = q - q div 4"
  define r100 where "r100 = r400 - 36524 * a"
  define b r4 where "b = r100 div 1461" and "r4 = r100 mod 1461"
  define p where "p = r4 div 365"
  define c where "c = p - p div 4"
  have d: "d = 146097 * n + r400" "0 \<le> r400" "r400 < 146097" by (simp_all add: n_def r400_def)
  have q: "r400 = 36524 * q + r400 mod 36524" "0 \<le> q" "q \<le> 4" using d(2,3) by (simp_all add: q_def)
  have a: "0 \<le> a" "a \<le> 3" "a = (if q = 4 then 3 else q)" using q(2,3) by (auto simp: a_def)
  have r100: "0 \<le> r100" "r100 < (if a = 3 then 36525 else 36524)"
    using q a d pos_mod_bound[of 36524 r400] pos_mod_sign[of 36524 r400] by (auto simp: r100_def split: if_splits)
  have b: "r100 = 1461 * b + r4" "0 \<le> b" "b \<le> 24" "0 \<le> r4" "r4 < 1461"
    using r100 by (auto simp: b_def r4_def split: if_splits)
  have p: "r4 = 365 * p + r4 mod 365" "0 \<le> p" "p \<le> 4" using b(4,5) by (simp_all add: p_def)
  have c: "0 \<le> c" "c \<le> 3" "c = (if p = 4 then 3 else p)" using p(2,3) by (auto simp: c_def)
  have r: "0 \<le> r4 - 365 * c" "r4 - 365 * c < (if c = 3 \<and> (b = 24 \<longrightarrow> a = 3) then 366 else 365)"
    using p c b r100 pos_mod_bound[of 365 r4] pos_mod_sign[of 365 r4] by (auto split: if_splits)
  have "year_day d = (400 * n + 100 * a + 4 * b + c + 1, r4 - 365 * c)"
    unfolding year_day_def Let_def n_def[symmetric] r400_def[symmetric] q_def[symmetric] a_def[symmetric]
      r100_def[symmetric] b_def[symmetric] r4_def[symmetric] p_def[symmetric] c_def[symmetric] by (rule refl)
  moreover have "d = 146097 * n + 36524 * a + 1461 * b + 365 * c + (r4 - 365 * c)"
    using d(1) b(1) by (simp add: r100_def)
  ultimately show thesis using a b c r by (intro that)
qed

lemma dvd_offset:
  fixes k x n :: int
  assumes "0 < x" "x \<le> k"
  shows "k dvd k * n + x \<longleftrightarrow> x = k"
  using assms zdvd_imp_le[of k x] by (auto simp: dvd_add_right_iff)

lemma year_day_back:
  assumes "year_day d = (y, yday)"
  shows "year_start y + yday = d" "0 \<le> yday" "yday < (if isLeap y then 366 else 365)"
proof -
  obtain n a b c r where *: "year_day d = (400 * n + 100 * a + 4 * b + c + 1, r)"
    "d = 146097 * n + 36524 * a + 1461 * b + 365 * c + r"
    "0 \<le> a" "a \<le> 3" "0 \<le> b" "b \<le> 24" "0 \<le> c" "c \<le> 3" "0 \<le> r"
    "r < (if c = 3 \<and> (b = 24 \<longrightarrow> a = 3) then 366 else 365)" by (rule cycles)
  then have y: "y - 1 = 400 * n + 100 * a + 4 * b + c" and [simp]: "yday = r" using assms by simp_all
  have "(y - 1) div 4 = 100 * n + 25 * a + b" "(y - 1) div 100 = 4 * n + a" "(y - 1) div 400 = n"
    unfolding y using *(3-8) by linarith+
  then show "year_start y + yday = d" using *(2) y by (simp add: year_start_def)
  show "0 \<le> yday" using *(9) by simp
  have ys: "y = 4 * (100 * n + 25 * a + b) + (c + 1)" "y = 100 * (4 * n + a) + (4 * b + c + 1)"
    "y = 400 * n + (100 * a + 4 * b + c + 1)" using y by simp_all
  have "4 dvd y \<longleftrightarrow> c + 1 = 4" unfolding ys(1) by (rule dvd_offset) (use *(3-8) in linarith)+
  moreover have "100 dvd y \<longleftrightarrow> 4 * b + c + 1 = 100" unfolding ys(2) by (rule dvd_offset) (use *(3-8) in linarith)+
  moreover have "400 dvd y \<longleftrightarrow> 100 * a + 4 * b + c + 1 = 400"
    unfolding ys(3) by (rule dvd_offset) (use *(3-8) in linarith)+
  ultimately have "4 dvd y \<longleftrightarrow> c = 3" "100 dvd y \<longleftrightarrow> c = 3 \<and> b = 24" "400 dvd y \<longleftrightarrow> c = 3 \<and> b = 24 \<and> a = 3"
    using *(3-8) by auto
  then have "isLeap y \<longleftrightarrow> c = 3 \<and> (b = 24 \<longrightarrow> a = 3)" by (auto simp: isLeap_def)
  then show "yday < (if isLeap y then 366 else 365)" using *(10) by simp
qed

lemma daysBefore_simps [simp]:
  "daysBefore 0 = 0" "daysBefore 1 = 31" "daysBefore 2 = 59" "daysBefore 3 = 90" "daysBefore 4 = 120"
  "daysBefore 5 = 151" "daysBefore 6 = 181" "daysBefore 7 = 212" "daysBefore 8 = 243" "daysBefore 9 = 273"
  "daysBefore 10 = 304" "daysBefore 11 = 334" "daysBefore 12 = 365"
  by (simp_all add: daysBefore_def)

lemma month_day_back:
  assumes "month_day leap yday = (m, day)" "0 \<le> yday" "yday < (if leap then 366 else 365)"
  shows "month_start leap m + day - 1 = yday \<and> 1 \<le> m \<and> m \<le> 12 \<and> 1 \<le> day \<and> day \<le> daysIn leap m"
proof (cases "leap \<and> yday = 59")
  case True
  then show ?thesis using assms(1) by (auto simp: month_day_def month_start_def daysIn_def)
next
  case False
  define d where "d = (if leap \<and> 59 < yday then yday - 1 else yday)"
  have d: "0 \<le> d" "d < 365" "d div 31 \<in> {0..11}" using assms(2,3) False by (auto simp: d_def split: if_splits)
  have md: "m = (if daysBefore (d div 31 + 1) \<le> d then d div 31 + 1 else d div 31) + 1"
    "day = d - (if daysBefore (d div 31 + 1) \<le> d then daysBefore (d div 31 + 1) else daysBefore (d div 31)) + 1"
    using assms(1) False by (auto simp: month_day_def Let_def d_def)
  have yd: "yday = (if leap \<and> 59 \<le> d then d + 1 else d)" using False by (auto simp: d_def)
  have q: "31 * (d div 31) \<le> d" "d < 31 * (d div 31) + 31" by auto
  have "{0..11 :: int} = {0, 1, 2, 3, 4, 5, 6, 7, 8, 9, 10, 11}"
    by (simp add: simp_from_to)
  then have "d div 31 \<in> {0, 1, 2, 3, 4, 5, 6, 7, 8, 9, 10, 11}" using d(3) by blast
  then show ?thesis using d(2) q unfolding md yd
    by (elim insertE emptyE) (auto simp: month_start_def daysIn_def)
qed

lemma daysIn_le:
  assumes "1 \<le> m" "m \<le> 12"
  shows "daysIn leap m \<le> 31"
proof -
  have "{1..12 :: int} = {1, 2, 3, 4, 5, 6, 7, 8, 9, 10, 11, 12}" by (simp add: simp_from_to)
  moreover have "m \<in> {1..12}" using assms by simp
  ultimately have "m \<in> {1, 2, 3, 4, 5, 6, 7, 8, 9, 10, 11, 12}" by (simp only:)
  then show ?thesis by (elim insertE emptyE) (simp_all add: daysIn_def)
qed

lemma absDate_back:
  assumes "absDate n = (y, m, d)"
  shows "day_number y m d = n" "1 \<le> m" "m \<le> 12" "1 \<le> d" "d \<le> daysIn (isLeap y) m"
proof -
  obtain yday where y: "year_day n = (y, yday)" and m: "month_day (isLeap y) yday = (m, d)"
    using assms by (auto simp: absDate_def split: prod.splits)
  note yd = year_day_back[OF y]
  from month_day_back[OF m yd(2,3)] yd(1)
  show "day_number y m d = n" "1 \<le> m" "m \<le> 12" "1 \<le> d" "d \<le> daysIn (isLeap y) m"
    by (auto simp: day_number_def)
qed

subsection \<open>The text of an instant\<close>

text \<open>A non-negative number of at most \<open>k\<close> digits as \<open>appendInt\<close> pads it.\<close>

fun digits :: "nat \<Rightarrow> int \<Rightarrow> string" where
  "digits 0 n = []"
| "digits (Suc k) n = digits k (n div 10) @ [char_of (48 + nat (n mod 10))]"

definition appendNano :: "int \<Rightarrow> string" where
  "appendNano ns =
    (let ds = rev (dropWhile (\<lambda>c. c = CHR ''0'') (rev (digits 9 ns)))
     in if ds = [] then [] else CHR ''.'' # ds)"

definition zone_text :: "int \<Rightarrow> string" where
  "zone_text offset =
    (let zone = \<bar>offset\<bar> div 60
     in if offset = 0 then ''Z''
        else (if offset < 0 \<and> zone \<noteq> 0 then CHR ''-'' else CHR ''+'')
          # digits 2 (zone div 60) @ CHR '':'' # digits 2 (zone mod 60))"

text \<open>\<open>Time.MarshalJSON\<close>, without the quotes that the JSON writer adds.\<close>

definition MarshalTime :: "int \<Rightarrow> gotime \<Rightarrow> string + string" where
  "MarshalTime offset t =
    (let abs = t div Second + offset; (year, month, day) = absDate (abs div 86400); clock = abs mod 86400
     in if \<not> (0 \<le> year \<and> year \<le> 9999) then Inl ''Time.MarshalJSON: year outside of range [0,9999]''
        else if 24 \<le> \<bar>offset\<bar> div 3600 then Inl ''Time.MarshalJSON: timezone hour outside of range [0,23]''
        else Inr (digits 4 year @ CHR ''-'' # digits 2 month @ CHR ''-'' # digits 2 day
          @ CHR ''T'' # digits 2 (clock div 3600) @ CHR '':'' # digits 2 (clock mod 3600 div 60)
          @ CHR '':'' # digits 2 (clock mod 60) @ appendNano (t mod Second) @ zone_text offset))"

text \<open>A reader of RFC 3339.\<close>

definition read_digits :: "nat \<Rightarrow> string \<Rightarrow> (int \<times> string) option" where
  "read_digits k s =
    (if length s < k \<or> \<not> list_all is_digit_char (take k s) then None else Some (dec_val (take k s), drop k s))"

definition read_field :: "nat \<Rightarrow> char \<Rightarrow> string \<Rightarrow> (int \<times> string) option" where
  "read_field k c s = do {
     (n, r) \<leftarrow> read_digits k s;
     if prefix [c] r then Some (n, tl r) else None }"

definition read_fraction :: "string \<Rightarrow> (int \<times> string) option" where
  "read_fraction s =
    (if prefix ''.'' s then
       (let ds = takeWhile is_digit_char (tl s)
        in if ds = [] then None
           else Some (dec_val (take 9 ds) * 10 ^ (9 - min 9 (length ds)), drop (length ds) (tl s)))
     else Some (0, s))"

definition read_zone :: "string \<Rightarrow> int option" where
  "read_zone s =
    (if s = ''Z'' then Some 0
     else if prefix ''+'' s \<or> prefix ''-'' s then do {
       (h, r) \<leftarrow> read_field 2 (CHR '':'') (tl s);
       (m, r) \<leftarrow> read_digits 2 r;
       if r = [] \<and> h < 24 \<and> m < 60 then Some ((if prefix ''-'' s then -1 else 1) * (h * 3600 + m * 60)) else None }
     else None)"

definition read_time :: "string \<Rightarrow> gotime option" where
  "read_time s = do {
     (year, s) \<leftarrow> read_field 4 (CHR ''-'') s;
     (month, s) \<leftarrow> read_field 2 (CHR ''-'') s;
     (day, s) \<leftarrow> read_field 2 (CHR ''T'') s;
     (hour, s) \<leftarrow> read_field 2 (CHR '':'') s;
     (minute, s) \<leftarrow> read_field 2 (CHR '':'') s;
     (sec, s) \<leftarrow> read_digits 2 s;
     (ns, s) \<leftarrow> read_fraction s;
     offset \<leftarrow> read_zone s;
     if 1 \<le> month \<and> month \<le> 12 \<and> 1 \<le> day \<and> day \<le> daysIn (isLeap year) month
       \<and> hour < 24 \<and> minute < 60 \<and> sec < 60
     then Some ((day_number year month day * 86400 + hour * 3600 + minute * 60 + sec - offset) * Second + ns)
     else None }"

subsection \<open>The text is read\<close>

lemma digits_text:
  assumes "0 \<le> n"
  shows "length (digits k n) = k" "list_all is_digit_char (digits k n)" "dec_val (digits k n) = n mod 10 ^ k"
proof -
  have "length (digits k n) = k \<and> list_all is_digit_char (digits k n) \<and> dec_val (digits k n) = n mod 10 ^ k"
    using assms
  proof (induction k arbitrary: n)
    case 0
    then show ?case by (simp add: dec_val_def)
  next
    case (Suc k)
    have "n mod 10 ^ Suc k = n div 10 mod 10 ^ k * 10 + n mod 10" by (simp add: zmod_zmult2_eq)
    then show ?case using Suc.IH[of "n div 10"] Suc.prems Itoa_char[of "nat (n mod 10)"]
      by (simp add: dec_val_snoc nat_less_iff)
  qed
  then show "length (digits k n) = k" "list_all is_digit_char (digits k n)" "dec_val (digits k n) = n mod 10 ^ k"
    by auto
qed

lemma read_digits_text: "0 \<le> n \<Longrightarrow> n < 10 ^ k \<Longrightarrow> read_digits k (digits k n @ r) = Some (n, r)"
  using digits_text[of n k] by (simp add: read_digits_def)

lemma read_field_text: "0 \<le> n \<Longrightarrow> n < 10 ^ k \<Longrightarrow> read_field k c (digits k n @ c # r) = Some (n, r)"
  by (simp add: read_field_def read_digits_text)

lemma zone_head: "\<exists>c r. zone_text offset = c # r \<and> \<not> is_digit_char c \<and> c \<noteq> CHR ''.''"
  by (simp add: zone_text_def Let_def is_digit_char_def in_rng_def)

lemma dec_val_zeros: "dec_val (s @ replicate k (CHR ''0'')) = dec_val s * 10 ^ k"
proof (induction k)
  case (Suc k)
  have "dec_val (s @ replicate (Suc k) (CHR ''0'')) = dec_val ((s @ replicate k (CHR ''0'')) @ [CHR ''0''])"
    by (simp add: replicate_append_same)
  then show ?case using Suc by (simp only: dec_val_snoc) (simp add: digit_val_def)
qed simp

lemma read_fraction_text:
  assumes "0 \<le> ns" "ns < 10 ^ 9"
  shows "read_fraction (appendNano ns @ zone_text offset) = Some (ns, zone_text offset)"
proof -
  define ds where "ds = rev (dropWhile (\<lambda>c. c = CHR ''0'') (rev (digits 9 ns)))"
  define z where "z = rev (takeWhile (\<lambda>c. c = CHR ''0'') (rev (digits 9 ns)))"
  have all: "digits 9 ns = ds @ z"
    unfolding ds_def z_def rev_append[symmetric] takeWhile_dropWhile_id by simp
  have text_eq: "appendNano ns = (if ds = [] then [] else CHR ''.'' # ds)" by (simp only: appendNano_def Let_def ds_def)
  have "set z \<subseteq> {CHR ''0''}" by (auto simp: z_def dest: set_takeWhileD)
  then have z: "z = replicate (length z) (CHR ''0'')" by (simp add: replicate_eqI subset_iff)
  have len: "length ds + length z = 9" using digits_text(1)[OF assms(1), of 9] by (simp add: all)
  have dig: "list_all is_digit_char ds" using digits_text(2)[OF assms(1), of 9] by (simp add: all)
  have val: "dec_val ds * 10 ^ length z = ns"
    using digits_text(3)[OF assms(1), of 9] dec_val_zeros[of ds "length z"] assms all z by simp
  obtain c r where zt: "zone_text offset = c # r" "\<not> is_digit_char c" "c \<noteq> CHR ''.''" using zone_head by blast
  show ?thesis
  proof (cases "ds = []")
    case True
    then have "ns = 0" using val by (simp add: dec_val_def)
    moreover have "appendNano ns = []" by (simp add: text_eq True)
    ultimately show ?thesis using zt by (simp add: read_fraction_def)
  next
    case False
    have "takeWhile is_digit_char (ds @ c # r) = ds" using dig zt(2) by (simp add: list_all_iff)
    moreover have "min 9 (length ds) = length ds" "9 - length ds = length z" "take 9 ds = ds" using len by auto
    ultimately show ?thesis using False zt(1) val
      by (simp add: text_eq read_fraction_def)
  qed
qed

lemma read_zone_text:
  assumes "60 dvd offset" "\<bar>offset\<bar> div 3600 < 24"
  shows "read_zone (zone_text offset) = Some offset"
proof (cases "offset = 0")
  case True
  then show ?thesis by (simp add: zone_text_def read_zone_def)
next
  case False
  define zone where "zone = \<bar>offset\<bar> div 60"
  have z: "\<bar>offset\<bar> = 60 * zone" "zone div 60 < 24" "zone \<noteq> 0"
    using assms False dvd_mult_div_cancel[of 60 "\<bar>offset\<bar>"] zdiv_zmult2_eq[of 60 "\<bar>offset\<bar>" 60] by (auto simp: zone_def)
  have "0 \<le> zone" by (simp add: zone_def)
  then have "read_field 2 (CHR '':'') (digits 2 (zone div 60) @ CHR '':'' # digits 2 (zone mod 60))
      = Some (zone div 60, digits 2 (zone mod 60))" "read_digits 2 (digits 2 (zone mod 60)) = Some (zone mod 60, [])"
    using z(2) pos_mod_bound[of 60 zone] read_digits_text[of "zone mod 60" 2 "[]"] by (simp_all add: read_field_text)
  moreover have "zone div 60 * 3600 + zone mod 60 * 60 = \<bar>offset\<bar>" using z(1) by presburger
  moreover have "zone_text offset = (if offset < 0 then CHR ''-'' else CHR ''+'')
      # digits 2 (zone div 60) @ CHR '':'' # digits 2 (zone mod 60)"
    using False z(3) unfolding zone_text_def Let_def zone_def[symmetric] by simp
  ultimately show ?thesis using False z(2)
    by (cases "offset < 0") (simp_all add: read_zone_def)
qed

text \<open>The range of the parts of the clock.\<close>

lemma clock_parts:
  fixes c :: int
  assumes "c = n mod 86400"
  shows "0 \<le> c div 3600" "c div 3600 < 24" "0 \<le> c mod 3600 div 60" "c mod 3600 div 60 < 60" "0 \<le> c mod 60" "c mod 60 < 60"
    "c div 3600 * 3600 + c mod 3600 div 60 * 60 + c mod 60 = c"
proof -
  have "0 \<le> c" "c < 86400" using assms by simp_all
  then show "0 \<le> c div 3600" "c div 3600 < 24" "0 \<le> c mod 3600 div 60" "c mod 3600 div 60 < 60" "0 \<le> c mod 60" "c mod 60 < 60"
    by (simp_all add: pos_imp_zdiv_nonneg_iff)
  have "c mod 3600 mod 60 = c mod 60" by (simp add: mod_mod_cancel)
  then show "c div 3600 * 3600 + c mod 3600 div 60 * 60 + c mod 60 = c"
    using div_mult_mod_eq[of c 3600] div_mult_mod_eq[of "c mod 3600" 60] by linarith
qed

theorem read_time_Marshal:
  assumes "MarshalTime offset t = Inr s" "60 dvd offset"
  shows "read_time s = Some t"
proof -
  define abs where "abs = t div Second + offset"
  obtain y m d where date: "absDate (abs div 86400) = (y, m, d)" by (metis prod_cases3)
  define c where "c = abs mod 86400"
  note clock = clock_parts[OF c_def]
  have y: "0 \<le> y" "y \<le> 9999" and off: "\<bar>offset\<bar> div 3600 < 24"
    and s: "s = digits 4 y @ CHR ''-'' # digits 2 m @ CHR ''-'' # digits 2 d
          @ CHR ''T'' # digits 2 (c div 3600) @ CHR '':'' # digits 2 (c mod 3600 div 60)
          @ CHR '':'' # digits 2 (c mod 60) @ appendNano (t mod Second) @ zone_text offset"
    using assms(1) date by (auto simp: MarshalTime_def Let_def abs_def c_def split: if_splits)
  note db = absDate_back[OF date]
  have "d \<le> 31" using db(5) daysIn_le[OF db(2,3)] by (rule order_trans)
  moreover have "(10 :: int) ^ 4 = 10000" "(10 :: int) ^ 2 = 100" by simp_all
  ultimately have lt: "y < 10 ^ 4" "0 \<le> m" "m < 10 ^ 2" "0 \<le> d" "d < 10 ^ 2" "c div 3600 < 10 ^ 2" "c mod 3600 div 60 < 10 ^ 2"
    "c mod 60 < 10 ^ 2" using y db clock by linarith+
  have fields: "read_field 4 (CHR ''-'') (digits 4 y @ CHR ''-'' # r) = Some (y, r)"
    "read_field 2 (CHR ''-'') (digits 2 m @ CHR ''-'' # r) = Some (m, r)"
    "read_field 2 (CHR ''T'') (digits 2 d @ CHR ''T'' # r) = Some (d, r)"
    "read_field 2 (CHR '':'') (digits 2 (c div 3600) @ CHR '':'' # r) = Some (c div 3600, r)"
    "read_field 2 (CHR '':'') (digits 2 (c mod 3600 div 60) @ CHR '':'' # r) = Some (c mod 3600 div 60, r)"
    "read_digits 2 (digits 2 (c mod 60) @ r) = Some (c mod 60, r)" for r
    by (rule read_field_text read_digits_text y lt clock)+
  have "read_fraction (appendNano (t mod Second) @ zone_text offset) = Some (t mod Second, zone_text offset)"
    by (rule read_fraction_text) (simp_all add: Second_def)
  moreover have "(day_number y m d * 86400 + c div 3600 * 3600 + c mod 3600 div 60 * 60 + c mod 60 - offset) * Second
      + t mod Second = t"
  proof -
    have "abs div 86400 * 86400 + c = abs" by (simp add: c_def)
    then have "day_number y m d * 86400 + c div 3600 * 3600 + c mod 3600 div 60 * 60 + c mod 60 - offset = t div Second"
      using db(1) clock(7) abs_def by linarith
    then show ?thesis by simp
  qed
  ultimately show ?thesis
    using db(2-5) clock(2,4,6) read_zone_text[OF assms(2) off] unfolding read_time_def s
    by (simp only: fields bind.bind_lunit prod.case simp_thms if_True)
qed

text \<open>Every instant of the years 1 to 9999 has a text, which is ASCII.\<close>

lemma year_start_cycle:
  obtains q r where "y = 400 * q + r + 1" "0 \<le> r" "r < 400" "year_start y = 146097 * q + 365 * r + r div 4 - r div 100"
proof -
  define q r where "q = (y - 1) div 400" and "r = (y - 1) mod 400"
  have y: "y - 1 = 400 * q + r" "0 \<le> r" "r < 400" by (simp_all add: q_def r_def)
  have divs: "(400 * q + r) div 4 = 100 * q + r div 4" "(400 * q + r) div 100 = 4 * q + r div 100" "(400 * q + r) div 400 = q"
    using y(2,3) div_mult_self2[of 4 r "100 * q"] div_mult_self2[of 100 r "4 * q"] div_mult_self2[of 400 r q]
    by (simp_all add: algebra_simps)
  have "year_start y = 146097 * q + 365 * r + r div 4 - r div 100"
    unfolding year_start_def y(1) divs by (simp add: algebra_simps)
  moreover have "y = 400 * q + r + 1" using y(1) by linarith
  ultimately show thesis using y(2,3) by (intro that)
qed

lemma year_start_late: "10000 \<le> y \<Longrightarrow> 3652059 \<le> year_start y"
proof (cases y rule: year_start_cycle)
  case (1 q r)
  assume "10000 \<le> y"
  moreover have "0 \<le> r div 4 - r div 100" using 1(2) zdiv_mono2[of r 4 100] by simp
  ultimately consider "25 \<le> q" | "q = 24" "r = 399" using 1(1-3) by linarith
  then show ?thesis using 1 \<open>0 \<le> r div 4 - r div 100\<close> by cases auto
qed

lemma year_start_early: "y \<le> 0 \<Longrightarrow> year_start y \<le> - 366"
proof (cases y rule: year_start_cycle)
  case (1 q r)
  assume "y \<le> 0"
  then have "q \<le> - 1" using 1(1-3) by linarith
  moreover have "365 * r + r div 4 - r div 100 \<le> 365 * 399 + 99 - 3"
  proof (cases "r = 399")
    case False
    moreover have "r div 4 \<le> 99" "0 \<le> r div 100" using 1(2,3) by simp_all
    ultimately show ?thesis using 1(3) by linarith
  qed simp
  ultimately show ?thesis using 1(4) by linarith
qed

lemma year_in_range:
  assumes "year_day d = (y, yday)" "0 \<le> d" "d < 3652059"
  shows "1 \<le> y \<and> y \<le> 9999"
proof -
  have "year_start y + yday = d" "0 \<le> yday" "yday < 366"
    using year_day_back[OF assms(1)] by (auto split: if_splits)
  then show ?thesis using assms(2,3) year_start_late[of y] year_start_early[of y] by linarith
qed

lemma MarshalTime_ok:
  assumes "0 \<le> t div Second + offset" "t div Second + offset < 3652059 * 86400" "\<bar>offset\<bar> < 86400"
  shows "\<exists>s. MarshalTime offset t = Inr s"
proof -
  define d where "d = (t div Second + offset) div 86400"
  obtain y yday where y: "year_day d = (y, yday)" by (metis surj_pair)
  have "0 \<le> d" "d < 3652059" using assms(1,2) unfolding d_def by linarith+
  then have "1 \<le> y" "y \<le> 9999" using year_in_range[OF y] by auto
  moreover have "\<bar>offset\<bar> div 3600 < 24" using assms(3) by linarith
  ultimately show ?thesis
    by (simp add: MarshalTime_def Let_def absDate_def y flip: d_def split: prod.split)
qed

lemma digits_plain_text: "is_ascii (digits k n)"
proof (induction k arbitrary: n)
  case (Suc k)
  have "nat (n mod 10) < 10" by (simp add: nat_less_iff)
  then show ?case using Suc[of "n div 10"] by (simp add: is_ascii_def)
qed (simp add: is_ascii_def)

lemma MarshalTime_ascii:
  assumes "MarshalTime offset t = Inr s"
  shows "is_ascii s"
proof -
  have join: "is_ascii (a @ b) \<longleftrightarrow> is_ascii a \<and> is_ascii b" "is_ascii (c # a) \<longleftrightarrow> of_char c < (128 :: nat) \<and> is_ascii a" "is_ascii []"
    for a b c by (simp_all add: is_ascii_def)
  have "is_ascii (rev (dropWhile P (rev (digits 9 n))))" for P n
    using digits_plain_text[of 9 n] set_dropWhileD by (fastforce simp: is_ascii_def list_all_iff)
  then have "is_ascii (appendNano n)" for n by (simp add: appendNano_def Let_def join)
  moreover have "is_ascii (zone_text offset)"
    by (simp add: zone_text_def Let_def join digits_plain_text)
  ultimately show ?thesis
    using assms by (auto simp: MarshalTime_def Let_def join digits_plain_text split: if_splits prod.splits)
qed

end
