(* ===== verification/Ingest.thy ===== *)
theory Ingest
  imports Sources Health_Check Bandwidth_Sampler Go_Json Go_Time
begin

text \<open>
  The client of the operator's server, \<open>ingest/*.go\<close>: submitting a location, reserving and
  submitting bandwidth, submitting a health run, the due list, reporting an attempt and the
  certificate pins. Each operation builds its request, sends it and maps the status code of the
  answer to an error; the locale \<open>endpoint\<close> states that mapping once. Parameters: the HTTP
  client, the JSON decoder, and the texts of a time and of a float.
\<close>

subsection \<open>The client\<close>

record Client =
  ic_ServerURL :: string
  ic_OperatorSecret :: string
  ic_HTTP :: "http_client option"
  ic_DueURL :: string

text \<open>
  \<open>ie_Default\<close> is \<open>http.DefaultClient\<close>, \<open>ie_Deadline\<close> the context's, \<open>ie_URL\<close> the text of
  the error of \<open>url.Parse\<close>, \<open>ie_JsonText\<close> of the error of a body that does not start with a JSON value,
  \<open>ie_Zone\<close> the offset of the local zone at an instant, in seconds.
\<close>

record ingest_env =
  ie_Default :: http_client
  ie_Deadline :: duration
  ie_URL :: "string \<Rightarrow> string"
  ie_JsonText :: "body \<Rightarrow> string"
  ie_TypeError :: "json \<Rightarrow> string"
  ie_Print :: "rune \<Rightarrow> bool"
  ie_Zone :: "gotime \<Rightarrow> int"
  ie_Float :: "rat \<Rightarrow> string"

text \<open>\<open>json.NewDecoder(resp.Body).Decode\<close>, up to the types of the values.\<close>

definition decode_body :: "ingest_env \<Rightarrow> body \<Rightarrow> string + json" where
  "decode_body E b = (case first_value b of None \<Rightarrow> Inl (ie_JsonText E b) | Some j \<Rightarrow> Inr j)"

definition httpClient :: "ingest_env \<Rightarrow> Client \<Rightarrow> http_client" where
  "httpClient E c = (case ic_HTTP c of Some h \<Rightarrow> h | None \<Rightarrow> ie_Default E)"

definition server_url :: "Client \<Rightarrow> string \<Rightarrow> string" where
  "server_url c path = TrimRight (ic_ServerURL c) (CHR ''/'') @ path"

definition send :: "ingest_env \<Rightarrow> Client \<Rightarrow> http_request \<Rightarrow> err + http_response" where
  "send E c req =
    (case NewRequest (ie_URL E) (rq_URL req) of
       Some e \<Rightarrow> Inl (ErrorString e)
     | None \<Rightarrow> map_sum ErrorString id (do_request (httpClient E c) (ie_Deadline E) req))"

definition post :: "Client \<Rightarrow> string \<Rightarrow> json \<Rightarrow> http_request" where
  "post c path doc =
    \<lparr> rq_Method = ''POST'', rq_URL = server_url c path,
      rq_Header = [(''Content-Type'', ''application/json''), (''X-Ur-Operator-Secret'', ic_OperatorSecret c)],
      rq_Body = Some (marshal doc) \<rparr>"

definition get :: "Client \<Rightarrow> string \<Rightarrow> http_request" where
  "get c url = GET url [(''X-Ur-Operator-Secret'', ic_OperatorSecret c)]"

subsection \<open>Answers\<close>

definition status_text :: "http_response \<Rightarrow> string" where
  "status_text resp = '': status '' @ show_int (hr_StatusCode resp) @ '': ''
     @ TrimSpace (take 4096 (bd_data (hr_Body resp)))"

text \<open>
  The \<open>switch resp.StatusCode\<close> of the operations: 200 is success, some codes have an error of
  their own, everything else is \<open>ErrRejected\<close>.
\<close>

definition status_error :: "(int \<times> err) list \<Rightarrow> http_response \<Rightarrow> err option" where
  "status_error special resp =
    (if hr_StatusCode resp = 200 then None
     else (case map_of special (hr_StatusCode resp) of
         Some e \<Rightarrow> Some e
       | None \<Rightarrow> Some (wrapf ErrRejected (status_text resp))))"

definition outcome :: "(int \<times> err) list \<Rightarrow> err + http_response \<Rightarrow> err option" where
  "outcome special got = (case got of Inl e \<Rightarrow> Some e | Inr resp \<Rightarrow> status_error special resp)"

subsection \<open>Submitting a location\<close>

text \<open>The clock reads local time. An instant beyond the year 9999 has no JSON text.\<close>

definition observed_at :: "ingest_env \<Rightarrow> ConsensusLocation \<Rightarrow> string + string" where
  "observed_at E loc = MarshalTime (ie_Zone E (cl_ProbedAt loc)) (cl_ProbedAt loc)"

definition submit_body :: "ingest_env \<Rightarrow> string \<Rightarrow> ConsensusLocation \<Rightarrow> json" where
  "submit_body E providerClientId loc =
    (let city = (if cl_CityConfident loc then cl_City loc else []);
         region = (if cl_CityConfident loc then cl_Region loc else [])
     in JObj ([(''client_id'', JStr providerClientId),
               (''country_code'', JStr (cl_CountryCode loc)),
               (''country'', JStr (cl_Country loc))]
           @ omit (region = []) ''region'' (JStr region)
           @ omit (city = []) ''city'' (JStr city)
           @ omit (cl_ASN loc = 0) ''asn'' (JNum (show_int (cl_ASN loc)))
           @ omit (cl_Org loc = []) ''org'' (JStr (cl_Org loc))
           @ omit (\<not> cl_Hosting loc) ''hosting'' (JBool (cl_Hosting loc))
           @ omit (\<not> cl_Proxy loc) ''proxy'' (JBool (cl_Proxy loc))
           @ omit (\<not> cl_Mobile loc) ''mobile'' (JBool (cl_Mobile loc))
           @ [(''country_confident'', JBool True)]
           @ omit (\<not> cl_CityConfident loc) ''city_confident'' (JBool (cl_CityConfident loc))
           @ [(''observed_at'', JStr (case observed_at E loc of Inr t \<Rightarrow> t | Inl _ \<Rightarrow> []))]))"

text \<open>This package has its own copy of the test that \<open>geolocate\<close> makes.\<close>

definition ingest_isAlpha2 :: "string \<Rightarrow> bool" where
  "ingest_isAlpha2 code =
    (if length code \<noteq> 2 then False
     else list_all (\<lambda>c. \<not> (\<not> in_rng 97 122 c \<and> \<not> in_rng 65 90 c)) code)"

lemma ingest_isAlpha2_eq [simp]: "ingest_isAlpha2 = isAlpha2"
  by (simp add: fun_eq_iff ingest_isAlpha2_def isAlpha2_def)

text \<open>The refusals before any request is made.\<close>

definition submit_refusal :: "ingest_env \<Rightarrow> ConsensusLocation option \<Rightarrow> err option" where
  "submit_refusal E loc0 =
    (case loc0 of
       None \<Rightarrow> Some (Sentinel ErrNotConfident)
     | Some loc \<Rightarrow>
         if \<not> cl_CountryConfident loc then Some (Sentinel ErrNotConfident)
         else if IsZero (cl_ProbedAt loc) then Some (Sentinel ErrMissingProbedAt)
         else if \<not> ingest_isAlpha2 (cl_CountryCode loc) \<or> TrimSpace (cl_Country loc) = []
         then Some (wrapf ErrIncompleteCountry ('': code='' @ Quote (ie_Print E) (cl_CountryCode loc)
                @ '' name='' @ Quote (ie_Print E) (cl_Country loc)))
         else None)"

text \<open>\<open>json.Marshal\<close> fails when the instant has no text; then no request is made.\<close>

definition marshal_error :: "ingest_env \<Rightarrow> ConsensusLocation \<Rightarrow> err option" where
  "marshal_error E loc =
    (case observed_at E loc of
       Inr _ \<Rightarrow> None
     | Inl e \<Rightarrow> Some (ErrorString (''json: error calling MarshalJSON for type time.Time: '' @ e)))"

definition Submit_location :: "ingest_env \<Rightarrow> Client \<Rightarrow> string \<Rightarrow> ConsensusLocation option \<Rightarrow> err option" where
  "Submit_location E c providerClientId loc0 =
    (case submit_refusal E loc0 of
       Some e \<Rightarrow> Some e
     | None \<Rightarrow> (case marshal_error E (the loc0) of
           Some e \<Rightarrow> Some e
         | None \<Rightarrow> outcome [] (send E c (post c ''/network/provider-egress-location''
                  (submit_body E providerClientId (the loc0))))))"

subsection \<open>Bandwidth\<close>

definition reserve_body :: "string \<Rightarrow> nat \<Rightarrow> json" where
  "reserve_body providerClientId byteCount =
    JObj [(''client_id'', JStr providerClientId), (''byte_count'', JNum (Itoa byteCount))]"

definition reserve_errors :: "string \<Rightarrow> (int \<times> err) list" where
  "reserve_errors providerClientId =
    [(429, wrapf bandwidth_ErrNoBudget ('' (provider '' @ providerClientId @ '')'')),
     (404, Sentinel bandwidth_ErrUnsupported), (401, Sentinel ErrUnauthorized)]"

definition ReserveBandwidth :: "ingest_env \<Rightarrow> Client \<Rightarrow> string \<Rightarrow> nat \<Rightarrow> err option" where
  "ReserveBandwidth E c providerClientId byteCount =
    outcome (reserve_errors providerClientId)
      (send E c (post c ''/network/provider-bandwidth-reserve'' (reserve_body providerClientId byteCount)))"

definition bandwidth_body :: "ingest_env \<Rightarrow> string \<Rightarrow> string \<Rightarrow> rat \<Rightarrow> nat \<Rightarrow> json" where
  "bandwidth_body E providerClientId source bytesPerSecond sampleByteCount =
    JObj [(''client_id'', JStr providerClientId), (''source'', JStr source),
          (''bytes_per_second'', JNum (ie_Float E bytesPerSecond)),
          (''sample_byte_count'', JNum (Itoa sampleByteCount))]"

definition bandwidth_errors :: "(int \<times> err) list" where
  "bandwidth_errors = [(404, Sentinel bandwidth_ErrUnsupported), (401, Sentinel ErrUnauthorized)]"

definition SubmitBandwidth :: "ingest_env \<Rightarrow> Client \<Rightarrow> string \<Rightarrow> string \<Rightarrow> rat \<Rightarrow> nat \<Rightarrow> err option" where
  "SubmitBandwidth E c providerClientId source bytesPerSecond sampleByteCount =
    outcome bandwidth_errors
      (send E c (post c ''/network/provider-bandwidth-result''
         (bandwidth_body E providerClientId source bytesPerSecond sampleByteCount)))"

subsection \<open>Egress health\<close>

record egressHealthClassBody =
  eb_OK :: nat
  eb_Total :: nat

record submitEgressHealthBody =
  sh_ClientId :: string
  sh_OKCount :: nat
  sh_TotalCount :: nat
  sh_ClassResults :: "(string \<times> egressHealthClassBody) list"
  sh_ReputationOK :: nat
  sh_ReputationTotal :: nat
  sh_FailedNames :: string
  sh_ReputationFailedNames :: string

text \<open>The members that \<open>json.Marshal\<close> writes; a map is written in the order of its keys.\<close>

definition class_members :: "egressHealthClassBody \<Rightarrow> json" where
  "class_members b = JObj [(''ok'', JNum (Itoa (eb_OK b))), (''total'', JNum (Itoa (eb_Total b)))]"

definition health_members :: "submitEgressHealthBody \<Rightarrow> json" where
  "health_members b =
    JObj [(''client_id'', JStr (sh_ClientId b)),
          (''ok_count'', JNum (Itoa (sh_OKCount b))),
          (''total_count'', JNum (Itoa (sh_TotalCount b))),
          (''class_results'', JObj (map (\<lambda>(c, r). (c, class_members r)) (sh_ClassResults b))),
          (''reputation_ok'', JNum (Itoa (sh_ReputationOK b))),
          (''reputation_total'', JNum (Itoa (sh_ReputationTotal b))),
          (''failed_names'', JStr (sh_FailedNames b)),
          (''reputation_failed_names'', JStr (sh_ReputationFailedNames b))]"

definition class_results :: "Result \<Rightarrow> (string \<times> egressHealthClassBody) list" where
  "class_results res =
    map (\<lambda>c. (c, \<lparr> eb_OK = cs_OK (class_get (rs_ByClass res) c), eb_Total = cs_Total (class_get (rs_ByClass res) c) \<rparr>))
      (sort (map fst (rs_ByClass res)))"

definition health_body :: "string \<Rightarrow> Result \<Rightarrow> json" where
  "health_body providerClientId res =
    health_members \<lparr> sh_ClientId = providerClientId,
      sh_OKCount = rs_OKCount res, sh_TotalCount = rs_Total res,
      sh_ClassResults = class_results res,
      sh_ReputationOK = cs_OK (rs_Reputation res), sh_ReputationTotal = cs_Total (rs_Reputation res),
      sh_FailedNames = Join (FailedNames (Some res)) '','',
      sh_ReputationFailedNames = Join (ReputationFailedNames (Some res)) '','' \<rparr>"

definition health_errors :: "(int \<times> err) list" where
  "health_errors = [(404, Sentinel health_ErrUnsupported), (401, Sentinel ErrUnauthorized)]"

definition SubmitEgressHealth :: "ingest_env \<Rightarrow> Client \<Rightarrow> string \<Rightarrow> Result option \<Rightarrow> err option" where
  "SubmitEgressHealth E c providerClientId res0 =
    (case res0 of
       None \<Rightarrow> None
     | Some res \<Rightarrow> outcome health_errors
         (send E c (post c ''/network/provider-egress-health'' (health_body providerClientId res))))"

subsection \<open>Schedule\<close>

definition MaxProbeFailureLen :: nat where "MaxProbeFailureLen = 64"

definition dueURL :: "Client \<Rightarrow> string" where
  "dueURL c = (if ic_DueURL c \<noteq> [] then ic_DueURL c else server_url c ''/network/provider-egress-due'')"

definition due_errors :: "(int \<times> err) list" where
  "due_errors = [(404, Sentinel ErrDueUnsupported), (401, Sentinel ErrUnauthorized)]"

text \<open>
  Decoding into a \<open>[]string\<close>: \<open>null\<close> is the nil slice; an element that is \<open>null\<close> keeps what
  the slice held there.
\<close>

definition decode_strings :: "json \<Rightarrow> string list \<Rightarrow> string list" where
  "decode_strings v old =
    (case v of
       JArr xs \<Rightarrow> map (\<lambda>(i, x). case x of JStr s \<Rightarrow> s | _ \<Rightarrow> if i < length old then old ! i else [])
                   (enumerate 0 xs)
     | JNull \<Rightarrow> [] | _ \<Rightarrow> old)"

definition strings_type :: "json \<Rightarrow> bool" where
  "strings_type v = (case v of JArr xs \<Rightarrow> list_all str_type xs | JNull \<Rightarrow> True | _ \<Rightarrow> False)"

definition decode_due :: "ingest_env \<Rightarrow> json \<Rightarrow> err + string list" where
  "decode_due E j =
    (case struct_members j of
       None \<Rightarrow> Inl (ErrorString (ie_TypeError E j))
     | Some ms \<Rightarrow>
         if list_all strings_type (members ''client_ids'' ms)
         then Inr (fold decode_strings (members ''client_ids'' ms) [])
         else Inl (ErrorString (ie_TypeError E j)))"

text \<open>The due endpoint with the parameter \<open>limit\<close> set.\<close>

definition limited_due_url :: "ingest_env \<Rightarrow> Client \<Rightarrow> int \<Rightarrow> err + string" where
  "limited_due_url E c limit =
    (case with_param (dueURL c) ''limit'' (show_int limit) of
       None \<Rightarrow> Inl (ErrorString (ie_URL E (dueURL c)))
     | Some u \<Rightarrow> Inr u)"

definition Due :: "ingest_env \<Rightarrow> Client \<Rightarrow> int \<Rightarrow> err + string list" where
  "Due E c limit =
    (if limit < 1 then Inl (ErrorString (''ingest: due limit must be positive (got '' @ show_int limit @ '')''))
     else and_then (limited_due_url E c limit) (\<lambda>u.
       and_then (send E c (get c u)) (\<lambda>resp.
         case status_error due_errors resp of
           Some e \<Rightarrow> Inl e
         | None \<Rightarrow> and_then (map_sum ErrorString id (decode_body E (hr_Body resp))) (decode_due E))))"

definition attempt_body :: "string \<Rightarrow> string \<Rightarrow> json" where
  "attempt_body providerClientId probeFailure =
    JObj ((''client_id'', JStr providerClientId)
      # omit (probeFailure = []) ''probe_failure'' (JStr probeFailure))"

definition attempt_errors :: "(int \<times> err) list" where
  "attempt_errors = [(404, Sentinel ErrAttemptUnsupported), (401, Sentinel ErrUnauthorized)]"

definition ReportAttempt :: "ingest_env \<Rightarrow> Client \<Rightarrow> string \<Rightarrow> string \<Rightarrow> err option" where
  "ReportAttempt E c providerClientId probeFailure0 =
    (let probeFailure = (if MaxProbeFailureLen < length probeFailure0
                         then take MaxProbeFailureLen probeFailure0 else probeFailure0)
     in outcome attempt_errors
          (send E c (post c ''/network/provider-egress-attempt'' (attempt_body providerClientId probeFailure))))"

subsection \<open>Pins\<close>

record GeolocationPin =
  gp_Leaf :: string
  gp_Intermediate :: string

definition pins_unavailable :: "err list \<Rightarrow> string \<Rightarrow> err" where
  "pins_unavailable causes text =
    Wrap (Sentinel ErrPinsUnavailable # causes) (sentinel_text ErrPinsUnavailable @ '': '' @ text)"

definition pins_status :: "http_response \<Rightarrow> err option" where
  "pins_status resp =
    (if hr_StatusCode resp = 200 then None
     else if hr_StatusCode resp = 401
     then Some (pins_unavailable [Sentinel ErrUnauthorized] (sentinel_text ErrUnauthorized))
     else if hr_StatusCode resp = 404
     then Some (pins_unavailable [] (''status 404: this server has not deployed ''
       @ ''/network/geolocation-source-pins; upgrade it -- the prober will not probe unpinned''))
     else Some (pins_unavailable [] (''status '' @ show_int (hr_StatusCode resp) @ '': ''
       @ TrimSpace (take 4096 (bd_data (hr_Body resp))))))"

text \<open>
  Decoding into \<open>map[string]GeolocationPin\<close>: the keys are exact, a later member replaces an
  earlier one, \<open>null\<close> is the empty pin; the document \<open>null\<close> is the nil map.
\<close>

definition pin_type :: "json \<Rightarrow> bool" where
  "pin_type v = (case struct_members v of
     None \<Rightarrow> False | Some ms \<Rightarrow> well_typed [''leaf'', ''intermediate''] [] ms)"

definition decode_pin :: "json \<Rightarrow> GeolocationPin" where
  "decode_pin v = (let ms = the (struct_members v) in
     \<lparr> gp_Leaf = str_member ''leaf'' ms, gp_Intermediate = str_member ''intermediate'' ms \<rparr>)"

definition decode_pins :: "ingest_env \<Rightarrow> json \<Rightarrow> string + (string \<times> GeolocationPin) list option" where
  "decode_pins E j =
    (case j of
       JNull \<Rightarrow> Inr None
     | JObj ms \<Rightarrow>
         if list_all (pin_type \<circ> snd) ms
         then Inr (Some (fold (\<lambda>(k, v). AList.update k (decode_pin v)) ms []))
         else Inl (ie_TypeError E j)
     | _ \<Rightarrow> Inl (ie_TypeError E j))"

definition GeolocationPins :: "ingest_env \<Rightarrow> Client \<Rightarrow> err + (string \<times> GeolocationPin) list" where
  "GeolocationPins E c =
    (let url = server_url c ''/network/geolocation-source-pins''
     in case NewRequest (ie_URL E) url of
          Some e \<Rightarrow> Inl (ErrorString e)
        | None \<Rightarrow>
          (case do_request (httpClient E c) (ie_Deadline E) (get c url) of
             Inl e \<Rightarrow> Inl (pins_unavailable [] e)
           | Inr resp \<Rightarrow>
             (case pins_status resp of
                Some e \<Rightarrow> Inl e
              | None \<Rightarrow>
                (case and_then (decode_body E (hr_Body resp)) (decode_pins E) of
                   Inl e \<Rightarrow> Inl (pins_unavailable [] (''decoding the response: '' @ e))
                 | Inr None \<Rightarrow> Inl (pins_unavailable [] ''the server sent no pin object'')
                 | Inr (Some pins) \<Rightarrow> Inr pins))))"

subsection \<open>A plain server\<close>

text \<open>
  Against a server given by a plain base URL every request can be built, so no operation fails
  before it is sent, and the due list is asked with exactly the limit.
\<close>

lemma endpoint_paths:
  "plain_path ''/network/provider-egress-location''" "plain_path ''/network/provider-bandwidth-reserve''"
  "plain_path ''/network/provider-bandwidth-result''" "plain_path ''/network/provider-egress-health''"
  "plain_path ''/network/provider-egress-attempt''" "plain_path ''/network/geolocation-source-pins''"
  "plain_path ''/network/provider-egress-due''" "plain_path ''/network/provider-locations''"
  "plain_path ''/network/find-providers2''"
  by (simp_all add: url_eval)

lemma server_request:
  "plain_base (ic_ServerURL c) \<Longrightarrow> plain_path path \<Longrightarrow> NewRequest urlText (server_url c path) = None"
  unfolding server_url_def by (rule plain_base_parsed)

lemma server_due:
  assumes "plain_base (ic_ServerURL c)" "ic_DueURL c = []" "1 \<le> limit"
  shows "limited_due_url E c limit = Inr (server_url c ''/network/provider-egress-due?limit='' @ Itoa (nat limit))"
    "NewRequest urlText (server_url c ''/network/provider-egress-due?limit='' @ Itoa (nat limit)) = None"
proof -
  have key: "list_all unreserved ''limit''" by (simp add: unreserved_def alphanumeric_def in_rng_def)
  note p = plain_base_param[OF assms(1) endpoint_paths(7) key Itoa_plain[of "nat limit"]]
  show "limited_due_url E c limit = Inr (server_url c ''/network/provider-egress-due?limit='' @ Itoa (nat limit))"
    "NewRequest urlText (server_url c ''/network/provider-egress-due?limit='' @ Itoa (nat limit)) = None"
    using p assms(2,3) by (simp_all add: limited_due_url_def dueURL_def server_url_def show_int_def)
qed

lemma plain_op: "plain_base ''https://op''" "plain_base ''https://op/''"
  unfolding plain_base_def
  by (rule exI[of _ "''https''"], rule exI[of _ "''op''"], rule exI[of _ "[]"],
      simp add: plain_target_def web_scheme_def plain_url_def with_port_def TrimRight_def url_eval)+

subsection \<open>Endpoints\<close>

text \<open>
  The contract of an operation that sends one request: a transport failure is an error that no
  sentinel recognises, 200 is success, and each status code of \<open>special\<close> has its own error.
\<close>

locale endpoint =
  fixes special :: "(int \<times> err) list" and got :: "err + http_response" and result :: "err option"
  assumes result: "result = outcome special got"
    and transport: "got = Inl e \<Longrightarrow> \<not> Is e s"
    and special_codes: "(k, e) \<in> set special \<Longrightarrow> k \<noteq> 200 \<and> \<not> Is e ErrRejected"
begin

lemma success_iff: "result = None \<longleftrightarrow> (\<exists>resp. got = Inr resp \<and> hr_StatusCode resp = 200)"
  by (cases got) (auto simp: result outcome_def status_error_def split: option.split)

lemma error_iff:
  assumes "\<And>k' e'. (k', e') \<in> set special \<Longrightarrow> Is e' s \<longleftrightarrow> k' = k" "(k, e) \<in> set special" "s \<noteq> ErrRejected"
  shows "(\<exists>x. result = Some x \<and> Is x s) \<longleftrightarrow> (\<exists>resp. got = Inr resp \<and> hr_StatusCode resp = k)"
proof -
  have keyed: "\<exists>e'. map_of special k = Some e'" using assms(2) weak_map_of_SomeI by fast
  then obtain e' where e': "map_of special k = Some e'" by blast
  then have "Is e' s" "k \<noteq> 200" using assms(1) map_of_SomeD special_codes by fast+
  then show ?thesis
    using transport assms(1,3) e'
    by (cases got) (auto simp: result outcome_def status_error_def dest: map_of_SomeD split: option.splits)
qed

lemma rejected_iff:
  "(\<exists>x. result = Some x \<and> Is x ErrRejected) \<longleftrightarrow>
     (\<exists>resp. got = Inr resp \<and> hr_StatusCode resp \<noteq> 200 \<and> hr_StatusCode resp \<notin> fst ` set special)"
  unfolding map_of_eq_None_iff[symmetric]
  using transport special_codes
  by (cases got) (auto simp: result outcome_def status_error_def dest: map_of_SomeD split: option.splits)

end

lemma send_transport: "send E c req = Inl e \<Longrightarrow> \<not> Is e s"
  by (cases "do_request (httpClient E c) (ie_Deadline E) req") (auto simp: send_def split: option.splits)

lemmas endpoint_errors = reserve_errors_def bandwidth_errors_def health_errors_def attempt_errors_def

interpretation reserve: endpoint "reserve_errors p"
  "send E c (post c ''/network/provider-bandwidth-reserve'' (reserve_body p n))" "ReserveBandwidth E c p n"
  by unfold_locales (auto simp: ReserveBandwidth_def send_transport endpoint_errors)

interpretation figure: endpoint bandwidth_errors
  "send E c (post c ''/network/provider-bandwidth-result'' (bandwidth_body E p source rate n))"
  "SubmitBandwidth E c p source rate n"
  by unfold_locales (auto simp: SubmitBandwidth_def send_transport endpoint_errors)

interpretation health: endpoint health_errors
  "send E c (post c ''/network/provider-egress-health'' (health_body p res))"
  "SubmitEgressHealth E c p (Some res)"
  by unfold_locales (auto simp: SubmitEgressHealth_def send_transport endpoint_errors)

definition sent_failure :: "string \<Rightarrow> string" where
  "sent_failure f = take MaxProbeFailureLen f"

lemma ReportAttempt_eq:
  "ReportAttempt E c p f = outcome attempt_errors
     (send E c (post c ''/network/provider-egress-attempt'' (attempt_body p (sent_failure f))))"
  by (simp add: ReportAttempt_def sent_failure_def)

interpretation attempt: endpoint attempt_errors
  "send E c (post c ''/network/provider-egress-attempt'' (attempt_body p (sent_failure f)))"
  "ReportAttempt E c p f"
  by unfold_locales (auto simp: ReportAttempt_eq send_transport endpoint_errors)

text \<open>What the server answered to an operation: a status code, or nothing.\<close>

definition answered_with :: "err + http_response \<Rightarrow> int \<Rightarrow> bool" where
  "answered_with got k \<longleftrightarrow> (\<exists>resp. got = Inr resp \<and> hr_StatusCode resp = k)"

definition fails_with :: "err option \<Rightarrow> sentinel \<Rightarrow> bool" where
  "fails_with r s \<longleftrightarrow> (\<exists>e. r = Some e \<and> Is e s)"

lemmas endpoint_facts =
  reserve.success_iff figure.success_iff health.success_iff attempt.success_iff

text \<open>
  What an answer means: each write succeeds exactly on status 200; the byte budget is
  spent exactly on 429; an endpoint the server does not have is reported exactly on 404 and a
  refused secret exactly on 401, never one as the other; nothing sent is ever longer than the
  64 bytes the server takes for a failure class.
\<close>

theorem endpoint_answers:
  "(ReserveBandwidth E c p n = None \<longleftrightarrow> answered_with (send E c (post c ''/network/provider-bandwidth-reserve'' (reserve_body p n))) 200)
   \<and> (fails_with (ReserveBandwidth E c p n) bandwidth_ErrNoBudget \<longleftrightarrow>
        answered_with (send E c (post c ''/network/provider-bandwidth-reserve'' (reserve_body p n))) 429)
   \<and> (fails_with (ReserveBandwidth E c p n) bandwidth_ErrUnsupported \<longleftrightarrow>
        answered_with (send E c (post c ''/network/provider-bandwidth-reserve'' (reserve_body p n))) 404)
   \<and> (fails_with (SubmitEgressHealth E c p (Some res)) health_ErrUnsupported \<longleftrightarrow>
        answered_with (send E c (post c ''/network/provider-egress-health'' (health_body p res))) 404)
   \<and> (fails_with (SubmitEgressHealth E c p (Some res)) ErrUnauthorized \<longleftrightarrow>
        answered_with (send E c (post c ''/network/provider-egress-health'' (health_body p res))) 401)
   \<and> (ReportAttempt E c p f = None \<longleftrightarrow>
        answered_with (send E c (post c ''/network/provider-egress-attempt'' (attempt_body p (sent_failure f)))) 200)
   \<and> (fails_with (ReportAttempt E c p f) ErrAttemptUnsupported \<longleftrightarrow>
        answered_with (send E c (post c ''/network/provider-egress-attempt'' (attempt_body p (sent_failure f)))) 404)
   \<and> length (sent_failure f) \<le> 64 \<and> prefix (sent_failure f) f"
proof -
  note iff = fails_with_def answered_with_def
  have "fails_with (ReserveBandwidth E c p n) bandwidth_ErrNoBudget \<longleftrightarrow>
        answered_with (send E c (post c ''/network/provider-bandwidth-reserve'' (reserve_body p n))) 429"
    "fails_with (ReserveBandwidth E c p n) bandwidth_ErrUnsupported \<longleftrightarrow>
        answered_with (send E c (post c ''/network/provider-bandwidth-reserve'' (reserve_body p n))) 404"
    unfolding iff by (rule reserve.error_iff; auto simp: endpoint_errors)+
  moreover have "fails_with (SubmitEgressHealth E c p (Some res)) health_ErrUnsupported \<longleftrightarrow>
        answered_with (send E c (post c ''/network/provider-egress-health'' (health_body p res))) 404"
    "fails_with (SubmitEgressHealth E c p (Some res)) ErrUnauthorized \<longleftrightarrow>
        answered_with (send E c (post c ''/network/provider-egress-health'' (health_body p res))) 401"
    unfolding iff by (rule health.error_iff; auto simp: endpoint_errors)+
  moreover have "fails_with (ReportAttempt E c p f) ErrAttemptUnsupported \<longleftrightarrow>
        answered_with (send E c (post c ''/network/provider-egress-attempt'' (attempt_body p (sent_failure f)))) 404"
    unfolding iff by (rule attempt.error_iff; auto simp: endpoint_errors)
  ultimately show ?thesis
    using endpoint_facts by (auto simp: answered_with_def sent_failure_def MaxProbeFailureLen_def take_is_prefix)
qed

end
