(* ===== verification/Sample_Digest.thy ===== *)
theory Sample_Digest
  imports Go_Crypto
begin

text \<open>
  The digests of two messages, evaluated by the kernel: the first is the test vector of
  FIPS 180-4, which checks that \<open>Sum256\<close> is SHA-256, and the key of the honest certificates of the
  examples; the second is the key of a forger. A word is evaluated as the integer it comes from.
\<close>

text \<open>The constants are what the standard says they are.\<close>

fun cube_root_bits :: "nat \<times> nat \<Rightarrow> nat \<Rightarrow> bool" where
  "cube_root_bits (r, p) k \<longleftrightarrow>
    (r * 4294967296 + k) ^ 3 \<le> p * 4294967296 ^ 3 \<and> p * 4294967296 ^ 3 < (r * 4294967296 + k + 1) ^ 3"

lemma sha_K_roots:
  "list_all2 cube_root_bits
    [(1, 2), (1, 3), (1, 5), (1, 7),
     (2, 11), (2, 13), (2, 17), (2, 19), (2, 23),
     (3, 29), (3, 31), (3, 37), (3, 41), (3, 43), (3, 47), (3, 53), (3, 59), (3, 61),
     (4, 67), (4, 71), (4, 73), (4, 79), (4, 83), (4, 89), (4, 97), (4, 101), (4, 103), (4, 107), (4, 109), (4, 113),
     (5, 127), (5, 131), (5, 137), (5, 139), (5, 149), (5, 151), (5, 157), (5, 163), (5, 167), (5, 173), (5, 179), (5, 181),
     (5, 191), (5, 193), (5, 197), (5, 199), (5, 211),
     (6, 223), (6, 227), (6, 229), (6, 233), (6, 239), (6, 241), (6, 251), (6, 257), (6, 263), (6, 269), (6, 271), (6, 277),
     (6, 281), (6, 283), (6, 293), (6, 307), (6, 311)]
    (map unat sha_K)"
  by (simp add: sha_K_def)

definition w32 :: "int \<Rightarrow> word32" where
  "w32 n = word_of_int n"

lemma w32_mod: "w32 (n mod 4294967296) = w32 n"
  by (simp add: w32_def word_of_int_eq_iff take_bit_eq_mod del: of_int_add)

lemma w32_round:
  "w32 a + w32 b = w32 ((a + b) mod 4294967296)"
  "w32 a XOR w32 b = w32 (a XOR b)" "w32 a AND w32 b = w32 (a AND b)" "NOT (w32 a) = w32 (4294967295 - a)"
  "w32 a OR w32 b = w32 (a OR b)" "push_bit n (w32 a) = w32 (a * 2 ^ n)"
  subgoal unfolding w32_mod by (simp add: w32_def)
  subgoal by (simp add: w32_def of_int_xor_eq)
  subgoal by (simp add: w32_def of_int_and_eq)
  subgoal
  proof -
    have "NOT (w32 a) = w32 (- a - 1)" by (simp add: w32_def not_eq_complement)
    moreover have "4294967295 - a = (- a - 1) + 4294967296" by simp
    then have "(4294967295 - a) mod 4294967296 = (- a - 1) mod 4294967296" by (simp only: mod_add_self2)
    ultimately show ?thesis by (metis w32_mod)
  qed
  subgoal by (simp add: w32_def of_int_or_eq)
  subgoal by (simp add: w32_def push_bit_eq_mult)
  done

lemma w32_uint: "0 \<le> a \<Longrightarrow> a < 4294967296 \<Longrightarrow> uint (w32 a) = a"
  by (simp add: w32_def uint_word_of_int)

lemma w32_unat: "0 \<le> a \<Longrightarrow> a < 4294967296 \<Longrightarrow> unat (w32 a) = nat a"
  using w32_uint[of a] by (simp add: unat_eq_nat_uint)

lemma w32_shift:
  assumes "0 \<le> a" "a < 4294967296"
  shows "drop_bit n (w32 a) = w32 (a div 2 ^ n)"
proof -
  have "take_bit 32 a = a" using assms by (simp add: take_bit_int_eq_self)
  then have "bit a (n + k) \<Longrightarrow> n + k < 32" for k by (metis bit_take_bit_iff)
  moreover have "bit (drop_bit n (w32 a)) k = bit (w32 (drop_bit n a)) k" for k
    using calculation[of k] by (auto simp: w32_def bit_simps)
  ultimately show ?thesis unfolding drop_bit_eq_div[symmetric] by (intro bit_eqI)
qed

lemma w32_rotr:
  assumes "0 \<le> a" "a < 4294967296" "n \<le> 32"
  shows "rotr n (w32 a) = w32 (a div 2 ^ n OR a mod 2 ^ n * 2 ^ (32 - n))"
proof -
  have "(2 :: int) ^ 32 = 2 ^ n * 2 ^ (32 - n)" unfolding power_add[symmetric] using assms(3) by simp
  then have "a * 2 ^ (32 - n) mod 2 ^ 32 = a mod 2 ^ n * 2 ^ (32 - n)" by (simp only: mult_mod_left)
  then have "w32 (a * 2 ^ (32 - n)) = w32 (a mod 2 ^ n * 2 ^ (32 - n))"
    using w32_mod[of "a * 2 ^ (32 - n)"] by simp
  then show ?thesis using assms(1,2) by (simp add: rotr_def w32_shift w32_round)
qed

lemma w32_char: "(of_char c :: word32) = w32 (of_char c)"
  by (simp add: w32_def of_char_def) 
lemma w32_num: "numeral k = w32 (numeral k)" "0 = w32 0" "1 = w32 1"
  by (simp_all add: w32_def)

lemma be_bytes_step:
  "be_bytes (numeral k) n = char_of (n div 256 ^ pred_numeral k) # be_bytes (pred_numeral k) n"
  "be_bytes (Suc 0) n = [char_of n]"
  by (simp_all add: be_bytes_def numeral_eq_Suc)

lemma same_bytes: "map (of_char :: char \<Rightarrow> nat) xs = map of_char ys \<Longrightarrow> xs = ys"
  by (simp add: inj_map_eq_map inj_on_def)

lemma sha_next_eval:
  "sha_next (a0 # a1 # a2 # a3 # a4 # a5 # a6 # a7 # a8 # a9 # a10 # a11 # a12 # a13 # a14 # a15 # r) =
    (rotr 17 a1 XOR rotr 19 a1 XOR drop_bit 10 a1) + a6 + (rotr 7 a14 XOR rotr 18 a14 XOR drop_bit 3 a14) + a15"
  by (simp add: sha_next_def)

lemma sha_extend_step: "sha_extend (numeral k) ws = sha_extend (pred_numeral k) (sha_next ws # ws)"
  by (simp add: numeral_eq_Suc)


lemmas sha_eval = w32_round w32_shift w32_rotr w32_unat w32_char Let_def

lemma replicate_step: "replicate (numeral k) x = x # replicate (pred_numeral k) x"
  by (simp add: numeral_eq_Suc)

text \<open>The rounds are evaluated in two halves.\<close>

lemma sha_block_halves:
  assumes "sha_extend 48 (map w32 (rev block)) = map w32 (rev ws)"
  shows "sha_block h (map w32 block) = map2 (+) h (fold sha_round (zip (drop 32 sha_K) (drop 32 (map w32 ws)))
    (fold sha_round (zip (take 32 sha_K) (take 32 (map w32 ws))) h))"
proof -
  have "fold f (zip xs ys) s = fold f (zip (drop n xs) (drop n ys)) (fold f (zip (take n xs) (take n ys)) s)"
    for f :: "word32 \<times> word32 \<Rightarrow> word32 list \<Rightarrow> word32 list" and xs ys s n
    by (metis append_take_drop_id drop_zip fold_append comp_apply take_zip)
  then show ?thesis using assms by (simp only: sha_block_def rev_map rev_rev_ident)
qed

lemma Sum256_block:
  assumes "length (s @ sha_pad n) = 64" "length s = n"
  shows "Sum256 s = concat (map (\<lambda>w. be_bytes 4 (unat w)) (sha_block sha_init (be_words (s @ sha_pad n))))"
proof -
  have "sha_blocks sha_init (s @ sha_pad n) = sha_block sha_init (be_words (s @ sha_pad n))"
    using assms(1) by (subst sha_blocks.simps, subst sha_blocks.simps) simp
  then show ?thesis using assms(2) by (simp only: Sum256_def)
qed

subsection \<open>The test vector \<open>abc\<close>\<close>

definition vector_block :: "int list" where
  "vector_block = [0x61626380, 0, 0, 0, 0, 0, 0, 0, 0, 0, 0, 0, 0, 0, 0, 24]"

definition vector_words :: "int list" where
  "vector_words =
     [0x61626380, 0x00000000, 0x00000000, 0x00000000, 0x00000000, 0x00000000, 0x00000000, 0x00000000,
      0x00000000, 0x00000000, 0x00000000, 0x00000000, 0x00000000, 0x00000000, 0x00000000, 0x00000018,
      0x61626380, 0x000f0000, 0x7da86405, 0x600003c6, 0x3e9d7b78, 0x0183fc00, 0x12dcbfdb, 0xe2e2c38e,
      0xc8215c1a, 0xb73679a2, 0xe5bc3909, 0x32663c5b, 0x9d209d67, 0xec8726cb, 0x702138a4, 0xd3b7973b,
      0x93f5997f, 0x3b68ba73, 0xaff4ffc1, 0xf10a5c62, 0x0a8b3996, 0x72af830a, 0x9409e33e, 0x24641522,
      0x9f47bf94, 0xf0a64f5a, 0x3e246a79, 0x27333ba3, 0x0c4763f2, 0x840abf27, 0x7a290d5d, 0x065c43da,
      0xfb3e89cb, 0xcc7617db, 0xb9e66c34, 0xa9993667, 0x84badedd, 0xc21462bc, 0x1487472c, 0xb20f7a99,
      0xef57b9cd, 0xebe6b238, 0x9fe3095e, 0x78bc8d4b, 0xa43fcf15, 0x668b2ff8, 0xeeaba2cc, 0x12b1edeb]"

definition vector_middle :: "int list" where
  "vector_middle = [0x73b33bf5, 0xea992a22, 0xa0060b30, 0x363482c9, 0xba591112, 0x0109ab3a, 0xade79437, 0x6112a3b7]"

lemma vector_padded: "be_words (''abc'' @ sha_pad 3) = map w32 vector_block"
proof -
  have size: "be_bytes 8 24 = [CHR 0x00, CHR 0x00, CHR 0x00, CHR 0x00, CHR 0x00, CHR 0x00, CHR 0x00, CHR 0x18]"
    by (rule same_bytes) (simp add: be_bytes_step)
  show ?thesis by (simp add: vector_block_def sha_pad_def replicate_step size be_word_def w32_char w32_round)
qed

lemma vector_extend: "sha_extend 48 (map w32 (rev vector_block)) = map w32 (rev vector_words)"
  by (simp add: vector_block_def vector_words_def sha_extend_step sha_next_eval sha_eval)

lemma vector_first: "fold sha_round (zip (take 32 sha_K) (take 32 (map w32 vector_words))) sha_init = map w32 vector_middle"
  by (simp add: sha_K_def sha_init_def w32_num vector_words_def vector_middle_def sha_eval)

lemma vector_rest: "fold sha_round (zip (drop 32 sha_K) (drop 32 (map w32 vector_words))) (map w32 vector_middle) =
    map w32 [0x506e3058, 0xd39a2165, 0x04d24d6c, 0xb85e2ce9, 0x5ef50f24, 0xfb121210, 0x948d25b6, 0x961f4894]"
  by (simp add: sha_K_def w32_num vector_words_def vector_middle_def sha_eval)

lemma vector_hash: "sha_block sha_init (map w32 vector_block) =
    map w32 [0xba7816bf, 0x8f01cfea, 0x414140de, 0x5dae2223, 0xb00361a3, 0x96177a9c, 0xb410ff61, 0xf20015ad]"
  unfolding sha_block_halves[OF vector_extend] vector_first vector_rest by (simp add: sha_init_def w32_num w32_round)

lemma vector_Sum256: "map of_char (Sum256 ''abc'') =
    [0xba, 0x78, 0x16, 0xbf, 0x8f, 0x01, 0xcf, 0xea, 0x41, 0x41, 0x40, 0xde, 0x5d, 0xae, 0x22, 0x23,
     0xb0, 0x03, 0x61, 0xa3, 0x96, 0x17, 0x7a, 0x9c, 0xb4, 0x10, 0xff, 0x61, 0xf2, 0x00, 0x15, 0xad :: nat]"
proof -
  have "length (''abc'' @ sha_pad 3) = 64" by (simp add: sha_pad_def)
  then have "Sum256 ''abc'' = concat (map (\<lambda>w. be_bytes 4 (unat w)) (sha_block sha_init (be_words (''abc'' @ sha_pad 3))))"
    by (rule Sum256_block) simp
  then show ?thesis unfolding vector_padded vector_hash by (simp add: w32_unat be_bytes_step)
qed

lemma vector_pin: "EncodeToString (Sum256 ''abc'') = ''ungWv48Bz+pBQUDeXa4iI7ADYaOWF3qctBD/YfIAFa0=''"
proof -
  have "Sum256 ''abc'' = map char_of
    [0xba, 0x78, 0x16, 0xbf, 0x8f, 0x01, 0xcf, 0xea, 0x41, 0x41, 0x40, 0xde, 0x5d, 0xae, 0x22, 0x23,
     0xb0, 0x03, 0x61, 0xa3, 0x96, 0x17, 0x7a, 0x9c, 0xb4, 0x10, 0xff, 0x61, 0xf2, 0x00, 0x15, 0xad :: nat]"
    by (rule same_bytes) (simp add: vector_Sum256)
  then show ?thesis by (intro same_bytes) (simp add: b64_group_def b64_digit_def Let_def)
qed

subsection \<open>Another key\<close>

definition forger_block :: "int list" where
  "forger_block = [0x6576696c, 0x80000000, 0, 0, 0, 0, 0, 0, 0, 0, 0, 0, 0, 0, 0, 32]"

definition forger_words :: "int list" where
  "forger_words =
     [0x6576696c, 0x80000000, 0x00000000, 0x00000000, 0x00000000, 0x00000000, 0x00000000, 0x00000000,
      0x00000000, 0x00000000, 0x00000000, 0x00000000, 0x00000000, 0x00000000, 0x00000000, 0x00000020,
      0x7676896c, 0x80140000, 0x95862857, 0x80205508, 0xd10459f9, 0x20055801, 0xa7f793d4, 0x7d7f3ec0,
      0xbbcd3ae1, 0x0e2d9736, 0xba226ed9, 0x4a82a7af, 0x9a9ebacf, 0xaf28808c, 0x479fd876, 0x80c264f4,
      0xaccab571, 0xf0897bf4, 0x008d0b5a, 0xad74cbaf, 0xf534274b, 0xbd72e33d, 0x0110c8f7, 0xf2d67dba,
      0x31d045b0, 0x3f979ccc, 0x90282865, 0xa07c5963, 0x95c47901, 0x6a505a03, 0x4e20c7db, 0x348aa00e,
      0x10749acd, 0x7b83de33, 0xf764378e, 0x589888e0, 0xd0abd49e, 0x3d2ba560, 0xbb55e1b3, 0x209410a9,
      0x72d476e0, 0x9481970c, 0x6388cef3, 0x7a3e8959, 0x6ecdcf47, 0x49ede4ac, 0x80018eb3, 0xb4ce2c11]"

definition forger_middle :: "int list" where
  "forger_middle = [0x2cb94e40, 0x33ef1567, 0x9571b624, 0x2d7df2af, 0x0651b8ef, 0x41771e18, 0x96cb1b89, 0x1db919bf]"

lemma forger_padded: "be_words (''evil'' @ sha_pad 4) = map w32 forger_block"
proof -
  have size: "be_bytes 8 32 = [CHR 0x00, CHR 0x00, CHR 0x00, CHR 0x00, CHR 0x00, CHR 0x00, CHR 0x00, CHR 0x20]"
    by (rule same_bytes) (simp add: be_bytes_step)
  show ?thesis by (simp add: forger_block_def sha_pad_def replicate_step size be_word_def w32_char w32_round)
qed

lemma forger_extend: "sha_extend 48 (map w32 (rev forger_block)) = map w32 (rev forger_words)"
  by (simp add: forger_block_def forger_words_def sha_extend_step sha_next_eval sha_eval)

lemma forger_first: "fold sha_round (zip (take 32 sha_K) (take 32 (map w32 forger_words))) sha_init = map w32 forger_middle"
  by (simp add: sha_K_def sha_init_def w32_num forger_words_def forger_middle_def sha_eval)

lemma forger_rest: "fold sha_round (zip (drop 32 sha_K) (drop 32 (map w32 forger_words))) (map w32 forger_middle) =
    map w32 [0x4bb814c7, 0x4105bcc1, 0x38540a5a, 0xa37e0c7a, 0xe92d2984, 0xdb36a3a7, 0x365a26ee, 0x922ebf5a]"
  by (simp add: sha_K_def w32_num forger_words_def forger_middle_def sha_eval)

lemma forger_hash: "sha_block sha_init (map w32 forger_block) =
    map w32 [0xb5c1fb2e, 0xfc6d6b46, 0x74c2fdcc, 0x48ce01b4, 0x3a3b7c03, 0x763c0c33, 0x55de0099, 0xee0f8c73]"
  unfolding sha_block_halves[OF forger_extend] forger_first forger_rest by (simp add: sha_init_def w32_num w32_round)

lemma forger_Sum256: "map of_char (Sum256 ''evil'') =
    [0xb5, 0xc1, 0xfb, 0x2e, 0xfc, 0x6d, 0x6b, 0x46, 0x74, 0xc2, 0xfd, 0xcc, 0x48, 0xce, 0x01, 0xb4,
     0x3a, 0x3b, 0x7c, 0x03, 0x76, 0x3c, 0x0c, 0x33, 0x55, 0xde, 0x00, 0x99, 0xee, 0x0f, 0x8c, 0x73 :: nat]"
proof -
  have "length (''evil'' @ sha_pad 4) = 64" by (simp add: sha_pad_def)
  then have "Sum256 ''evil'' = concat (map (\<lambda>w. be_bytes 4 (unat w)) (sha_block sha_init (be_words (''evil'' @ sha_pad 4))))"
    by (rule Sum256_block) simp
  then show ?thesis unfolding forger_padded forger_hash by (simp add: w32_unat be_bytes_step)
qed

lemma forger_pin: "EncodeToString (Sum256 ''evil'') = ''tcH7Lvxta0Z0wv3MSM4BtDo7fAN2PAwzVd4Ame4PjHM=''"
proof -
  have "Sum256 ''evil'' = map char_of
    [0xb5, 0xc1, 0xfb, 0x2e, 0xfc, 0x6d, 0x6b, 0x46, 0x74, 0xc2, 0xfd, 0xcc, 0x48, 0xce, 0x01, 0xb4,
     0x3a, 0x3b, 0x7c, 0x03, 0x76, 0x3c, 0x0c, 0x33, 0x55, 0xde, 0x00, 0x99, 0xee, 0x0f, 0x8c, 0x73 :: nat]"
    by (rule same_bytes) (simp add: forger_Sum256)
  then show ?thesis by (intro same_bytes) (simp add: b64_group_def b64_digit_def Let_def)
qed

text \<open>The pin of the first key, a pin of a key that no example uses, and the pin of a forger.\<close>

definition good_pin :: string where
  "good_pin = ''ungWv48Bz+pBQUDeXa4iI7ADYaOWF3qctBD/YfIAFa0=''"

definition spare_pin :: string where
  "spare_pin = ''47DEQpj8HBSa+/TImW+5JCeuQeRkm5NMpJWZG3hSuFU=''"

lemma good_pin_key: "EncodeToString (Sum256 ''abc'') = good_pin"
  by (simp add: vector_pin good_pin_def)

lemma forged_pin:
  "EncodeToString (Sum256 ''evil'') \<noteq> good_pin" "EncodeToString (Sum256 ''evil'') \<noteq> spare_pin"
  by (simp_all add: forger_pin good_pin_def spare_pin_def)

lemma sample_pin_texts [simp]:
  "good_pin \<noteq> []" "spare_pin \<noteq> []" "[] \<noteq> good_pin" "[] \<noteq> spare_pin" "good_pin \<noteq> spare_pin"
  by (simp_all add: good_pin_def spare_pin_def)

end
