(* ===== verification/Sample_Server.thy ===== *)
theory Sample_Server
  imports Ingest Sample_Digest
begin

text \<open>
  A concrete server of the operator for the examples: it answers every request with the status it
  is given, and with the JSON text of the pins of the three sources and of a stranger, or of one
  due provider, two locations and the two providers of each.
\<close>

definition sample_pin :: json where
  "sample_pin = JObj [(''leaf'', JStr good_pin), (''intermediate'', JStr spare_pin)]"

definition pins_doc :: json where
  "pins_doc = JObj [(''evil.example'', sample_pin), (''ipinfo.io'', sample_pin),
     (''api.i.pn'', sample_pin), (''free.freeipapi.com'', sample_pin)]"

definition server_doc :: json where
  "server_doc = JObj [(''client_ids'', JArr [JStr ''p'']),
     (''locations'', JArr [JObj [(''location_id'', JStr ''l1'')], JObj [(''location_id'', JStr ''l2'')]]),
     (''providers'', JArr [JObj [(''client_id'', JStr ''a'')], JObj [(''client_id'', JStr ''b'')]])]"

definition answering :: "int \<Rightarrow> http_client" where
  "answering code = \<lparr> do_request = (\<lambda>t req. Inr
     \<lparr> hr_StatusCode = code, hr_Header = Map.empty,
        hr_Body = \<lparr> bd_data = marshal (if rq_URL req = ''https://op/network/geolocation-source-pins'' then pins_doc else server_doc),
          bd_err = None \<rparr> \<rparr>) \<rparr>"

definition sample_env :: ingest_env where
  "sample_env = \<lparr> ie_Default = answering 200, ie_Deadline = 30 * Second, ie_URL = id,
     ie_JsonText = (\<lambda>b. ''eof''), ie_TypeError = (\<lambda>j. ''type''), ie_Print = (\<lambda>_. False),
     ie_Zone = (\<lambda>t. 3600), ie_Float = (\<lambda>x. ''1'') \<rparr>"

lemma sample_env_simps [simp]:
  "ie_Default sample_env = answering 200" "ie_URL sample_env = id"
  by (simp_all add: sample_env_def)

lemma sample_marshals:
  assumes "0 \<le> cl_ProbedAt loc" "cl_ProbedAt loc < 10 ^ 18"
  shows "marshal_error sample_env loc = None"
proof -
  define s where "s = cl_ProbedAt loc div Second"
  have "0 \<le> s" "s < 1000000000" using assms unfolding s_def Second_def by (simp_all add: pos_imp_zdiv_nonneg_iff)
  then have "\<exists>text. MarshalTime 3600 (cl_ProbedAt loc) = Inr text" by (intro MarshalTime_ok) (simp_all flip: s_def)
  then show ?thesis by (auto simp: marshal_error_def observed_at_def sample_env_def)
qed

lemma sample_documents:
  "decode_body E \<lparr> bd_data = marshal pins_doc, bd_err = None \<rparr> = Inr pins_doc"
  "decode_body E \<lparr> bd_data = marshal server_doc, bd_err = None \<rparr> = Inr server_doc"
proof -
  have "writable maxNestingDepth pins_doc" "writable maxNestingDepth server_doc"
    by (simp_all add: pins_doc_def server_doc_def sample_pin_def maxNestingDepth_def)
  moreover have "clean pins_doc = pins_doc" "clean server_doc = server_doc"
    by (simp_all add: pins_doc_def server_doc_def sample_pin_def good_pin_def spare_pin_def utf8_text_ascii is_ascii_def)
  ultimately show "decode_body E \<lparr> bd_data = marshal pins_doc, bd_err = None \<rparr> = Inr pins_doc"
    "decode_body E \<lparr> bd_data = marshal server_doc, bd_err = None \<rparr> = Inr server_doc"
    by (simp_all add: decode_body_def first_value_marshal)
qed

lemma server_keys:
  "key_is ''client_ids'' k \<longleftrightarrow> k = ''client_ids''" "key_is ''locations'' k \<longleftrightarrow> k = ''locations''"
  "key_is ''providers'' k \<longleftrightarrow> k = ''providers''" if "k \<in> {''client_ids'', ''locations'', ''providers''}" for k
  using that by (auto simp: key_is_def fold_key_def plain_eval)

lemma server_members:
  "members ''client_ids'' (the (struct_members server_doc)) = [JArr [JStr ''p'']]"
  "members ''locations'' (the (struct_members server_doc))
    = [JArr [JObj [(''location_id'', JStr ''l1'')], JObj [(''location_id'', JStr ''l2'')]]]"
  "members ''providers'' (the (struct_members server_doc))
    = [JArr [JObj [(''client_id'', JStr ''a'')], JObj [(''client_id'', JStr ''b'')]]]"
  "struct_members server_doc \<noteq> None"
  by (simp_all add: server_doc_def struct_members_def members_def server_keys)

end
