(* ===== verification/Tunnel.thy ===== *)
theory Tunnel
  imports Pinning
begin

text \<open>
  \<open>providertunnel/tunnel.go\<close>: opening and closing a tunnel, and the HTTP transport over it.
  The calls into the connect library, the dialer and the TLS handshake are effects of the
  outside: their outcomes are parameters, and each is recorded in a list of events, so that
  the theorems can say which packets were never sent. Plain http requests go to the tunnel's
  dialer without any check, as in the code (\<open>DialContext: dial\<close>).
\<close>

subsection \<open>Opening and closing\<close>

record Config =
  cf_ApiURL :: string
  cf_PlatformURL :: string
  cf_ByJwt :: string
  cf_ClientId :: string
  cf_Pins :: pin_entries
  cf_DeviceDescription :: string
  cf_DeviceSpec :: string
  cf_Version :: string

text \<open>A generator is made of the providers it may use, the clients it excludes, and the config.\<close>

datatype tunnel_event =
    NewGenerator "string list" "string list" Config
  | CreateTun
  | NewMultiClient
  | StartPump
  | CancelContext
  | CloseMultiClient
  | CloseTun
  | Dial string
  | Handshake string
  | CloseRaw string

datatype open_error = ErrPinsRequired | ErrCreateTun string

record tunnel =
  tn_pins :: pin_entries
  tn_closed :: bool
  tn_closeErr :: "string option"

text \<open>The toggles of connect's resolver settings that the code and its comment name.\<close>

record resolver_settings =
  EnableRemoteDoh :: bool
  EnableLocalDns :: bool
  EnableLocalDoh :: bool
  EnableRemoteDns :: bool
  RemoteDohUrlsIpv4 :: "string list"
  RemoteDohUrlsIpv6 :: "string list"
  RemoteDnsIpv4 :: "string list"
  RemoteDnsIpv6 :: "string list"
  LocalDnsIpv4 :: "string list"
  LocalDnsIpv6 :: "string list"

definition inTunnelOnlyDnsResolverSettings :: "resolver_settings \<Rightarrow> resolver_settings" where
  "inTunnelOnlyDnsResolverSettings base =
    \<lparr> EnableRemoteDoh = True, EnableLocalDns = False, EnableLocalDoh = False,
      EnableRemoteDns = False, RemoteDohUrlsIpv4 = RemoteDohUrlsIpv4 base,
      RemoteDohUrlsIpv6 = RemoteDohUrlsIpv6 base, RemoteDnsIpv4 = RemoteDnsIpv4 base,
      RemoteDnsIpv6 = RemoteDnsIpv6 base, LocalDnsIpv4 = [], LocalDnsIpv6 = [] \<rparr>"

text \<open>\<open>create\<close> is \<open>createTun\<close>: the error of the tun, if any, for the given resolver.\<close>

definition open_tunnel :: "(resolver_settings \<Rightarrow> string option) \<Rightarrow> resolver_settings \<Rightarrow> Config
    \<Rightarrow> string \<Rightarrow> (open_error + tunnel) \<times> tunnel_event list" where
  "open_tunnel create base cfg provider =
    (if cf_Pins cfg = [] then (Inl ErrPinsRequired, [])
     else (case create (inTunnelOnlyDnsResolverSettings base) of
         Some err \<Rightarrow> (Inl (ErrCreateTun (''create tun: '' @ err)),
           [NewGenerator [provider] [cf_ClientId cfg] cfg, CreateTun, CancelContext])
       | None \<Rightarrow> (Inr \<lparr> tn_pins = cf_Pins cfg, tn_closed = False, tn_closeErr = None \<rparr>,
           [NewGenerator [provider] [cf_ClientId cfg] cfg, CreateTun, NewMultiClient, StartPump])))"

text \<open>
  The goroutine that \<open>Open\<close> starts: what \<open>tun.Read()\<close> returns, in turn, is sent to the provider
  until the first error, which is logged and ends it. It is what it did after that many reads.
\<close>

fun pump :: "(string + string) list \<Rightarrow> string list \<times> string option" where
  "pump [] = ([], None)"
| "pump (Inl err # reads) = ([], Some (''providertunnel: tun read error: '' @ err))"
| "pump (Inr packet # reads) = (let (sent, logged) = pump reads in (packet # sent, logged))"

lemma pump_order:
  "map Inr (fst (pump reads)) = takeWhile isl_packet reads
   \<and> (snd (pump reads) = None \<longleftrightarrow> list_all isl_packet reads)"
  if "isl_packet = (\<lambda>r. \<not> isl r)"
  unfolding that by (induction reads rule: pump.induct) (auto simp: split_beta Let_def)

text \<open>\<open>Close\<close>; \<open>tun_close\<close> is what \<open>tun.Close()\<close> returns. \<open>closeOnce\<close> is the flag.\<close>

definition close_tunnel :: "string option \<Rightarrow> tunnel \<Rightarrow> tunnel \<times> string option \<times> tunnel_event list" where
  "close_tunnel tun_close t =
    (if tn_closed t then (t, tn_closeErr t, [])
     else (t\<lparr> tn_closed := True, tn_closeErr := tun_close \<rparr>, tun_close,
           [CloseMultiClient, CancelContext, CloseTun]))"

subsection \<open>The transport\<close>

definition allow_step :: "unicode \<Rightarrow> string \<Rightarrow> pin_map \<Rightarrow> pin_map" where
  "allow_step U host0 allowed =
    (let host = normalizeHost U host0 in
     if host = [] then allowed
     else if allowed host \<noteq> None then allowed
     else allowed(host \<mapsto> []))"

definition allowed_hosts :: "unicode \<Rightarrow> pin_entries \<Rightarrow> string list \<Rightarrow> pin_map" where
  "allowed_hosts U pins extraHosts = fold (allow_step U) extraHosts (normalizePins U pins)"

text \<open>
  What a TLS peer presents in a handshake for a server name: its certificates, and the chains
  that crypto/tls verified, or the error of the verification.
\<close>

record peer =
  pr_rawCerts :: "string list"
  pr_verify :: "string \<Rightarrow> string + certificate list list"

datatype dial_error = HostUnknown string | DialErr string | HandshakeErr string | PinErr pin_error

text \<open>
  \<open>tls.Client(raw, cfg).HandshakeContext\<close>: chain verification first, since the configuration
  never sets \<open>InsecureSkipVerify\<close>, then the configuration's callback.
\<close>

definition tls_handshake :: "tls_config \<Rightarrow> peer \<Rightarrow> dial_error option" where
  "tls_handshake cfg p =
    (case pr_verify p (tc_ServerName cfg) of
       Inl err \<Rightarrow> Some (HandshakeErr err)
     | Inr verified \<Rightarrow> map_option PinErr (tc_Verify cfg (tc_ServerName cfg) (pr_rawCerts p) verified))"

text \<open>\<open>dial\<close> is the tunnel's dialer: the peer behind an address, or an error.\<close>

definition DialTLSContext :: "unicode \<Rightarrow> crypto \<Rightarrow> (string \<Rightarrow> string + peer) \<Rightarrow> pin_entries
    \<Rightarrow> string list \<Rightarrow> string \<Rightarrow> (dial_error + peer) \<times> tunnel_event list" where
  "DialTLSContext U C dial pins extraHosts addr =
    (let host = (case SplitHostPort addr of Some (h, _) \<Rightarrow> h | None \<Rightarrow> addr) in
     if allowed_hosts U pins extraHosts (normalizeHost U host) = None
     then (Inl (HostUnknown host), [])
     else (case dial addr of
         Inl err \<Rightarrow> (Inl (DialErr err), [Dial addr])
       | Inr raw \<Rightarrow>
         (case tls_handshake (PinnedTLSConfigForHost U C pins host) raw of
            Some err \<Rightarrow> (Inl err, [Dial addr, Handshake host, CloseRaw addr])
          | None \<Rightarrow> (Inr raw, [Dial addr, Handshake host]))))"

text \<open>The transport's other settings, and the client's policy on redirects.\<close>

record http_transport =
  DisableKeepAlives :: bool
  TLSNextProto_empty :: bool
  FollowsRedirects :: bool
  ClientTimeout :: duration

definition transport_settings :: "duration \<Rightarrow> http_transport" where
  "transport_settings timeout =
    \<lparr> DisableKeepAlives = True, TLSNextProto_empty = True, FollowsRedirects = False,
      ClientTimeout = timeout \<rparr>"

text \<open>\<open>HTTPClient\<close> is \<open>HTTPClientForHosts\<close> without extra hosts.\<close>

definition HTTPClient_dial :: "unicode \<Rightarrow> crypto \<Rightarrow> (string \<Rightarrow> string + peer) \<Rightarrow> tunnel
    \<Rightarrow> string \<Rightarrow> (dial_error + peer) \<times> tunnel_event list" where
  "HTTPClient_dial U C dial t = DialTLSContext U C dial (tn_pins t) []"

definition HTTPClientForHosts_dial :: "unicode \<Rightarrow> crypto \<Rightarrow> (string \<Rightarrow> string + peer) \<Rightarrow> tunnel
    \<Rightarrow> string list \<Rightarrow> string \<Rightarrow> (dial_error + peer) \<times> tunnel_event list" where
  "HTTPClientForHosts_dial U C dial t extraHosts = DialTLSContext U C dial (tn_pins t) extraHosts"

subsection \<open>The allowlist\<close>

lemma allow_step_keeps: "m k = Some v \<Longrightarrow> allow_step U h m k = Some v"
  by (auto simp: allow_step_def Let_def)

lemma allow_fold_keeps: "m k = Some v \<Longrightarrow> fold (allow_step U) hs m k = Some v"
  by (induction hs arbitrary: m) (auto simp: allow_step_keeps)

lemma allow_fold_dom:
  "dom (fold (allow_step U) hs m) = dom m \<union> (normalizeHost U ` set hs - {[]})"
proof (induction hs arbitrary: m)
  case (Cons h hs)
  have "dom (allow_step U h m) = dom m \<union> ({normalizeHost U h} - {[]})"
    by (auto simp: allow_step_def Let_def)
  then show ?case using Cons.IH[of "allow_step U h m"] by auto
qed simp

lemma allowed_hosts_dom:
  "dom (allowed_hosts U pins extra)
    = normalizeHost U ` fst ` set pins \<union> (normalizeHost U ` set extra - {[]})"
  by (simp add: allowed_hosts_def allow_fold_dom normalizePins_dom)

lemma allowed_hosts_pinned:
  "normalizePins U pins k = Some v \<Longrightarrow> allowed_hosts U pins extra k = Some v"
  by (simp add: allowed_hosts_def allow_fold_keeps)

text \<open>
  The allowlist is exactly the pinned hosts and the extra hosts, up to case and port, and
  no list of extra hosts can remove or change a pin.
\<close>

theorem allowlist_exact:
  "(allowed_hosts U pins extra k \<noteq> None \<longleftrightarrow>
      k \<in> normalizeHost U ` fst ` set pins \<or> k \<noteq> [] \<and> k \<in> normalizeHost U ` set extra)
   \<and> (normalizePins U pins k \<noteq> None \<longrightarrow> allowed_hosts U pins extra k = normalizePins U pins k)"
  using allowed_hosts_dom[of U pins extra] allowed_hosts_pinned[of U pins k _ extra]
  by (auto simp: set_eq_iff domIff)

subsection \<open>Dialling\<close>

lemma DialTLS_unknown:
  "SplitHostPort addr = Some (host, port) \<Longrightarrow>
   allowed_hosts U pins extra (normalizeHost U host) = None \<Longrightarrow>
    DialTLSContext U C dial pins extra addr = (Inl (HostUnknown host), [])"
  by (simp add: DialTLSContext_def)

text \<open>
  C12. What the TLS configuration of a host accepts: a peer that sent some certificate, whose chain
  crypto/tls verified, and, where the host is pinned in any spelling of its case or port, that has
  on a verified chain a certificate whose key has the SHA-256 digest that one of the pins encodes;
  of several entries for a host the last one counts. What else the peer sends never matters. The
  template of \<open>PinnedTLSConfig\<close> does the same once it has the server name, and nothing without.
\<close>

theorem pinned_handshake:
  assumes "host_bytes host" and "is_ascii host" and "host \<noteq> []"
    and "\<forall>verified. pr_verify p host = Inr verified \<longrightarrow> verified \<noteq> []"
  shows "(tls_handshake (PinnedTLSConfigForHost U C pins host) p = None \<longleftrightarrow>
      pr_rawCerts p \<noteq> [] \<and> (\<exists>verified. pr_verify p host = Inr verified
        \<and> (entries_for U pins host \<noteq> [] \<longrightarrow> (\<exists>chain\<in>set verified. \<exists>cert\<in>set chain.
              EncodeToString (Sum256 (RawSubjectPublicKeyInfo cert)) \<in> set (snd (last (entries_for U pins host)))))))
    \<and> (raw \<noteq> [] \<and> pr_rawCerts p \<noteq> [] \<longrightarrow>
        tls_handshake (PinnedTLSConfigForHost U C pins host) (p\<lparr> pr_rawCerts := raw \<rparr>)
          = tls_handshake (PinnedTLSConfigForHost U C pins host) p)
    \<and> tls_handshake ((PinnedTLSConfig U C pins)\<lparr> tc_ServerName := host \<rparr>) p
        = tls_handshake (PinnedTLSConfigForHost U C pins host) p
    \<and> tls_handshake (PinnedTLSConfig U C pins) p \<noteq> None"
proof -
  have nn: "normalizeHost U (normalizeHost U host) = normalizeHost U host"
    using normalizeHost_idem assms(1,2) by blast
  have hs: "tls_handshake (PinnedTLSConfigForHost U C pins host) q =
      (case pr_verify q host of Inl e \<Rightarrow> Some (HandshakeErr e)
       | Inr v \<Rightarrow> map_option PinErr (checkPin U C (normalizePins U pins) host (pr_rawCerts q) v))" for q
    by (cases "pr_verify q host") (simp_all add: tls_handshake_def PinnedTLSConfigForHost_def PinVerifier_def checkPin_def nn)
  have template: "tls_handshake ((PinnedTLSConfig U C pins)\<lparr> tc_ServerName := host \<rparr>) p
      = tls_handshake (PinnedTLSConfigForHost U C pins host) p"
    unfolding hs using assms(3) by (cases "pr_verify p host") (simp_all add: tls_handshake_def PinnedTLSConfig_def)
  have "tls_handshake (PinnedTLSConfig U C pins) p \<noteq> None"
    by (simp add: tls_handshake_def PinnedTLSConfig_def split: sum.split)
  moreover have "tls_handshake (PinnedTLSConfigForHost U C pins host) (p\<lparr> pr_rawCerts := raw \<rparr>)
      = tls_handshake (PinnedTLSConfigForHost U C pins host) p" if "raw \<noteq> []" "pr_rawCerts p \<noteq> []"
    using that assms(4) by (simp add: hs checkPin_verified split: sum.split)
  ultimately show ?thesis
    using assms(4) template
    by (cases "pr_verify p host") (auto simp: hs checkPin_verified normalizePins_last SPKIPin_def)
qed

text \<open>
  C11. A TLS connection leaves the tunnel only to an allowed host: a host that is neither pinned
  nor extra is refused before anything is dialled, and in every other outcome, failures included,
  the host was allowed. An established connection to a pinned host has shown a certificate on a
  verified chain that carries one of its pins; an extra host went through ordinary chain
  verification. A handshake fails exactly where the chain or the pins do, and then the raw
  connection is closed.
\<close>

theorem DialTLS_safe:
  assumes "SplitHostPort addr = Some (host, port)" and "is_ascii host"
    and "\<forall>p name verified. dial addr = Inr p \<and> pr_verify p name = Inr verified \<longrightarrow> verified \<noteq> []"
  shows "case DialTLSContext U C dial pins extra addr of
      (Inr p, ev) \<Rightarrow> ev = [Dial addr, Handshake host] \<and> dial addr = Inr p
        \<and> allowed_hosts U pins extra (normalizeHost U host) \<noteq> None
        \<and> (\<exists>verified. pr_verify p host = Inr verified
            \<and> (\<forall>allowed. normalizePins U pins (normalizeHost U host) = Some allowed \<longrightarrow>
                (\<exists>chain\<in>set verified. \<exists>cert\<in>set chain. SPKIPin cert \<in> set allowed)))
    | (Inl (HostUnknown h), ev) \<Rightarrow> h = host \<and> ev = []
        \<and> allowed_hosts U pins extra (normalizeHost U host) = None
    | (Inl (DialErr e), ev) \<Rightarrow> ev = [Dial addr] \<and> dial addr = Inl e
        \<and> allowed_hosts U pins extra (normalizeHost U host) \<noteq> None
    | (Inl (HandshakeErr e), ev) \<Rightarrow> ev = [Dial addr, Handshake host, CloseRaw addr]
        \<and> allowed_hosts U pins extra (normalizeHost U host) \<noteq> None
        \<and> (\<exists>p. dial addr = Inr p \<and> pr_verify p host = Inl e)
    | (Inl (PinErr e), ev) \<Rightarrow> ev = [Dial addr, Handshake host, CloseRaw addr]
        \<and> allowed_hosts U pins extra (normalizeHost U host) \<noteq> None
        \<and> (\<exists>p verified. dial addr = Inr p \<and> pr_verify p host = Inr verified
            \<and> (pr_rawCerts p = [] \<or> (\<exists>allowed. normalizePins U pins (normalizeHost U host) = Some allowed
                  \<and> (\<forall>chain\<in>set verified. \<forall>cert\<in>set chain. SPKIPin cert \<notin> set allowed))))"
proof (cases "allowed_hosts U pins extra (normalizeHost U host) = None")
  case True
  then show ?thesis using DialTLS_unknown[OF assms(1) True] by simp
next
  case False
  have "host_bytes host" using SplitHostPort_parts[OF assms(1)] by blast
  then have nn: "normalizeHost U (normalizeHost U host) = normalizeHost U host"
    using normalizeHost_idem assms(2) by blast
  show ?thesis
  proof (cases "dial addr")
    case (Inl e)
    then show ?thesis using False assms(1) by (simp add: DialTLSContext_def Let_def)
  next
    case (Inr p)
    show ?thesis
    proof (cases "pr_verify p host")
      case err: (Inl e)
      then show ?thesis using False Inr assms(1)
        by (simp add: DialTLSContext_def tls_handshake_def PinnedTLSConfigForHost_def)
    next
      case ok: (Inr verified)
      then have "verified \<noteq> []" using assms(3) Inr by blast
      then show ?thesis using False Inr ok assms(1) nn
        by (auto simp: DialTLSContext_def tls_handshake_def PinnedTLSConfigForHost_def
            PinVerifier_def checkPin_def pin_in_def list_ex_iff split: option.split)
    qed
  qed
qed

subsection \<open>The life of a tunnel\<close>

text \<open>Any number of calls to \<open>Close\<close>, with what each \<open>tun.Close()\<close> would return.\<close>

fun close_all :: "string option list \<Rightarrow> tunnel \<Rightarrow> tunnel \<times> string option list \<times> tunnel_event list" where
  "close_all [] t = (t, [], [])"
| "close_all (r # rs) t =
    (let (t1, e, ev) = close_tunnel r t; (t2, es, evs) = close_all rs t1 in (t2, e # es, ev @ evs))"

lemma close_all_closed:
  "tn_closed t \<Longrightarrow> close_all rs t = (t, replicate (length rs) (tn_closeErr t), [])"
  by (induction rs) (simp_all add: close_tunnel_def)

text \<open>
  A tunnel cannot be opened without pins, and then nothing outside is touched; when the tun
  cannot be created the context is cancelled; the resolver it is given never resolves locally.
  The tunnel is pinned to exactly one provider and excludes the prober itself. However often an
  open tunnel is closed, the multi-client, the context and the tun are released exactly once, in
  this order, and every call returns the first call's error.
\<close>

theorem tunnel_lifecycle:
  "(fst (open_tunnel create base cfg provider) = Inl ErrPinsRequired \<longleftrightarrow> cf_Pins cfg = [])
   \<and> (cf_Pins cfg = [] \<longrightarrow> snd (open_tunnel create base cfg provider) = [])
   \<and> (\<forall>specs excluded c. NewGenerator specs excluded c \<in> set (snd (open_tunnel create base cfg provider)) \<longrightarrow>
        specs = [provider] \<and> excluded = [cf_ClientId cfg] \<and> c = cfg)
   \<and> (\<forall>e ev. open_tunnel create base cfg provider = (Inl e, ev) \<and> ev \<noteq> [] \<longrightarrow> last ev = CancelContext)
   \<and> (\<forall>t ev r rs. open_tunnel create base cfg provider = (Inr t, ev) \<longrightarrow>
        tn_pins t = cf_Pins cfg \<and> create (inTunnelOnlyDnsResolverSettings base) = None
        \<and> snd (close_all (r # rs) t)
            = (replicate (Suc (length rs)) r, [CloseMultiClient, CancelContext, CloseTun]))
   \<and> \<not> EnableLocalDns (inTunnelOnlyDnsResolverSettings base)
   \<and> LocalDnsIpv4 (inTunnelOnlyDnsResolverSettings base) = []
   \<and> LocalDnsIpv6 (inTunnelOnlyDnsResolverSettings base) = []"
  by (auto simp: open_tunnel_def inTunnelOnlyDnsResolverSettings_def close_tunnel_def close_all_closed
      split: if_splits option.splits)

subsection \<open>Concrete runs\<close>

text \<open>A provider that terminates TLS itself with a certificate of some trusted CA.\<close>

definition forging_peer :: peer where
  "forging_peer = \<lparr> pr_rawCerts = [''evil'', ''abc''],
     pr_verify = (\<lambda>_. Inr [[\<lparr> RawSubjectPublicKeyInfo = ''evil'' \<rparr>]]) \<rparr>"

lemma normalize_plain: "normalizeHost latin_unicode ''ipinfo.io'' = ''ipinfo.io''"
  "normalizeHost latin_unicode ''Example.org'' = ''example.org''"
  by (simp_all add: normalizeHost_def SplitHostPort_no_colon ToLower_def plain_eval)

lemma split_plain: "SplitHostPort ''ipinfo.io:443'' = Some (''ipinfo.io'', ''443'')"
  by (simp add: SplitHostPort_def)

theorem allowlist_exact_witness:
  "allowed_hosts latin_unicode [(''ipinfo.io'', [good_pin])] [''ipinfo.io''] ''ipinfo.io'' = Some [good_pin]"
  using conjunct2[OF allowlist_exact, of latin_unicode "[(''ipinfo.io'', [good_pin])]" "''ipinfo.io''" "[''ipinfo.io'']"]
  by (simp add: normalizePins_def normalize_plain)

text \<open>
  The attack the code's comments describe: the peer appends the pinned certificate to its message,
  but the verified chain does not contain it.
\<close>

theorem pinned_handshake_witness:
  "tls_handshake (PinnedTLSConfigForHost latin_unicode sample_crypto [(''ipinfo.io'', [good_pin])] ''ipinfo.io'') forging_peer \<noteq> None"
proof
  let ?pins = "[(''ipinfo.io'', [good_pin])]"
  assume win: "tls_handshake (PinnedTLSConfigForHost latin_unicode sample_crypto ?pins ''ipinfo.io'') forging_peer = None"
  have host: "host_bytes ''ipinfo.io''" "is_ascii ''ipinfo.io''" by (simp_all add: host_bytes_def is_ascii_def)
  have "\<forall>verified. pr_verify forging_peer ''ipinfo.io'' = Inr verified \<longrightarrow> verified \<noteq> []" by (simp add: forging_peer_def)
  from iffD1[OF conjunct1[OF pinned_handshake[OF host _ this]] win]
  have "\<exists>verified. pr_verify forging_peer ''ipinfo.io'' = Inr verified
      \<and> (\<exists>chain\<in>set verified. \<exists>cert\<in>set chain. EncodeToString (Sum256 (RawSubjectPublicKeyInfo cert)) \<in> set [good_pin])"
    by (auto simp: entries_for_def)
  then show False using forged_pin(1) by (simp add: forging_peer_def)
qed

theorem DialTLS_safe_witness:
  "fst (DialTLSContext latin_unicode sample_crypto (\<lambda>_. Inr forging_peer)
      [(''ipinfo.io'', [good_pin])] [] ''ipinfo.io:443'') \<noteq> Inr forging_peer"
proof
  assume win: "fst (DialTLSContext latin_unicode sample_crypto (\<lambda>_. Inr forging_peer)
      [(''ipinfo.io'', [good_pin])] [] ''ipinfo.io:443'') = Inr forging_peer"
  have "is_ascii ''ipinfo.io''" by (simp add: is_ascii_def)
  moreover have "\<forall>p name verified. Inr forging_peer = (Inr p :: string + peer) \<and> pr_verify p name = Inr verified \<longrightarrow> verified \<noteq> []"
    by (auto simp: forging_peer_def)
  ultimately show False
    using DialTLS_safe[OF split_plain, where dial = "\<lambda>_. Inr forging_peer" and U = latin_unicode and C = sample_crypto
        and pins = "[(''ipinfo.io'', [good_pin])]" and extra = "[]"] win
    by (auto simp: split_beta forging_peer_def normalizePins_def normalize_plain SPKIPin_def elim: forged_pin[THEN notE])
qed

definition sample_cfg :: Config where
  "sample_cfg = \<lparr> cf_ApiURL = ''https://op'', cf_PlatformURL = ''wss://op'', cf_ByJwt = ''jwt'', cf_ClientId = ''me'',
     cf_Pins = [(''ipinfo.io'', [good_pin])], cf_DeviceDescription = ''egress prober'',
     cf_DeviceSpec = ''egress-prober'', cf_Version = ''0.0.0'' \<rparr>"

theorem tunnel_lifecycle_witness:
  "snd (close_all [Some ''gone'', None] \<lparr> tn_pins = [(''ipinfo.io'', [good_pin])], tn_closed = False, tn_closeErr = None \<rparr>)
    = ([Some ''gone'', Some ''gone''], [CloseMultiClient, CancelContext, CloseTun])"
proof -
  let ?base = "inTunnelOnlyDnsResolverSettings undefined"
  have "open_tunnel (\<lambda>_. None) ?base sample_cfg ''p'' =
    (Inr \<lparr> tn_pins = [(''ipinfo.io'', [good_pin])], tn_closed = False, tn_closeErr = None \<rparr>,
     [NewGenerator [''p''] [''me''] sample_cfg, CreateTun, NewMultiClient, StartPump])"
    by (simp add: open_tunnel_def sample_cfg_def)
  then have "snd (close_all (Some ''gone'' # [None])
      \<lparr> tn_pins = [(''ipinfo.io'', [good_pin])], tn_closed = False, tn_closeErr = None \<rparr>)
    = (replicate (Suc (length [None :: string option])) (Some ''gone''), [CloseMultiClient, CancelContext, CloseTun])"
    using tunnel_lifecycle[of "\<lambda>_. None" ?base sample_cfg "''p''"] by blast
  then show ?thesis by simp
qed

end
