(* ===== verification/Main_Pins.thy ===== *)
theory Main_Pins
  imports Sample_Server Tunnel
begin

text \<open>
  The pin set of \<open>cmd/egress-prober/main.go\<close>: the fetch that validates what the server serves,
  the startup that refuses to run without it, and the refresh that keeps the last good set. The
  theorem shows that a source host is pinned in every tunnel the process ever opens.
\<close>

subsection \<open>Fetching and validating\<close>

definition sortedServedHosts :: "(string \<times> GeolocationPin) list \<Rightarrow> string list" where
  "sortedServedHosts served = sort (map fst served)"

definition sortedHosts :: "pin_entries \<Rightarrow> string list" where
  "sortedHosts pins = sort (map fst pins)"

definition usable_pin :: "(string \<times> GeolocationPin) list \<Rightarrow> string \<Rightarrow> string list option" where
  "usable_pin served host =
    (case map_of served host of
       None \<Rightarrow> None
     | Some pin \<Rightarrow> if gp_Leaf pin = [] \<or> gp_Intermediate pin = [] then None
                  else Some [gp_Leaf pin, gp_Intermediate pin])"

text \<open>The error, or the pins and the served hosts that are ignored.\<close>

definition validateGeolocationPins :: "(string \<times> GeolocationPin) list
    \<Rightarrow> err + pin_entries \<times> string list" where
  "validateGeolocationPins served =
    (let hosts = SourceHosts
     in if hosts = [] then Inl (ErrorString ''no geolocation source hosts to pin'')
        else
          (let missing = filter (\<lambda>h. usable_pin served h = None) hosts;
               pins = List.map_filter (\<lambda>h. map_option (Pair h) (usable_pin served h)) hosts
           in if missing \<noteq> []
              then Inl (ErrorString (''the server served no usable certificate pin for geolocation source host(s) ''
                 @ Join missing '' '' @ '' (it served '' @ Itoa (length served) @ '' host(s): ''
                 @ Join (sortedServedHosts served) '' '' @ '')''))
              else Inr (pins, filter (\<lambda>h. h \<notin> fst ` set pins) (map fst served))))"

definition fetchGeolocationPins :: "ingest_env \<Rightarrow> Client \<Rightarrow> err + pin_entries" where
  "fetchGeolocationPins E c =
    and_then (GeolocationPins E c) (\<lambda>served. map_sum id fst (validateGeolocationPins served))"

subsection \<open>The set in force\<close>

record pinSet =
  pn_pins :: pin_entries
  pn_fetchedAt :: gotime

definition pins_get :: "pinSet \<Rightarrow> pin_entries" where
  "pins_get s = map (\<lambda>(host, allowed). (host, [] @ allowed)) (pn_pins s)"

definition pins_set :: "pin_entries \<Rightarrow> gotime \<Rightarrow> pinSet \<Rightarrow> pinSet" where
  "pins_set pins now s = s\<lparr> pn_pins := pins, pn_fetchedAt := now \<rparr>"

definition pins_age :: "gotime \<Rightarrow> pinSet \<Rightarrow> duration" where
  "pins_age now s = now - pn_fetchedAt s"

definition pins0 :: pinSet where
  "pins0 = \<lparr> pn_pins = [], pn_fetchedAt = 0 \<rparr>"

text \<open>The startup fetch: its error makes \<open>main\<close> exit.\<close>

definition startup_pins :: "ingest_env \<Rightarrow> Client \<Rightarrow> gotime \<Rightarrow> err + pinSet" where
  "startup_pins E c now =
    map_sum id (\<lambda>pins. pins_set pins now pins0) (fetchGeolocationPins E c)"

definition refreshGeolocationPins :: "ingest_env \<Rightarrow> Client \<Rightarrow> duration
    \<Rightarrow> gotime \<Rightarrow> gotime \<Rightarrow> pinSet \<Rightarrow> pinSet" where
  "refreshGeolocationPins E c interval now fetched s =
    (if pins_age now s < interval then s
     else (case fetchGeolocationPins E c of
         Inl e \<Rightarrow> s
       | Inr refreshed \<Rightarrow> pins_set refreshed fetched s))"

text \<open>The refreshes of a run of the process: each with the server of its time and two readings
  of the clock.\<close>

definition refreshes :: "Client \<Rightarrow> duration
    \<Rightarrow> (ingest_env \<times> gotime \<times> gotime) list \<Rightarrow> pinSet \<Rightarrow> pinSet" where
  "refreshes c interval =
    fold (\<lambda>(E, now, fetched). refreshGeolocationPins E c interval now fetched)"

subsection \<open>Every source is pinned\<close>

text \<open>A set that pins exactly the source hosts, each with two pins.\<close>

definition full_pin :: "string list \<Rightarrow> bool" where
  "full_pin allowed \<longleftrightarrow> length allowed = 2 \<and> [] \<notin> set allowed"

definition covers :: "pin_entries \<Rightarrow> bool" where
  "covers pins \<longleftrightarrow> map fst pins = SourceHosts \<and> pins \<noteq> [] \<and> list_all (full_pin \<circ> snd) pins"

lemma usable_pin_full: "usable_pin served h = Some a \<Longrightarrow> full_pin a"
  by (auto simp: usable_pin_def full_pin_def split: option.splits if_splits)

lemma usable_pins_hosts:
  "list_all (\<lambda>h. usable_pin served h \<noteq> None) hosts \<Longrightarrow>
    map fst (List.map_filter (\<lambda>h. map_option (Pair h) (usable_pin served h)) hosts) = hosts
    \<and> list_all (full_pin \<circ> snd) (List.map_filter (\<lambda>h. map_option (Pair h) (usable_pin served h)) hosts)"
  by (induction hosts) (auto dest: usable_pin_full)

lemma validate_iff:
  "(\<exists>pins ignored. validateGeolocationPins served = Inr (pins, ignored)) \<longleftrightarrow>
     SourceHosts \<noteq> [] \<and> list_all (\<lambda>h. usable_pin served h \<noteq> None) SourceHosts"
  by (auto simp: validateGeolocationPins_def Let_def filter_empty_conv list_all_iff)

lemma validate_covers:
  assumes "validateGeolocationPins served = Inr (pins, ignored)"
  shows "covers pins"
proof -
  have "list_all (\<lambda>h. usable_pin served h \<noteq> None) SourceHosts" "SourceHosts \<noteq> []"
    using validate_iff assms by blast+
  moreover have "pins = List.map_filter (\<lambda>h. map_option (Pair h) (usable_pin served h)) SourceHosts"
    using assms by (auto simp: validateGeolocationPins_def Let_def split: if_splits)
  ultimately have "map fst pins = SourceHosts" "list_all (full_pin \<circ> snd) pins"
    using usable_pins_hosts[of served "SourceHosts"] by simp_all
  moreover have "pins \<noteq> []" using \<open>SourceHosts \<noteq> []\<close> calculation(1) by auto
  ultimately show ?thesis by (simp add: covers_def)
qed

lemma fetch_covers:
  assumes "fetchGeolocationPins E c = Inr pins"
  shows "covers pins"
proof -
  obtain served where "map_sum id fst (validateGeolocationPins served) = Inr pins"
    using assms by (auto simp: fetchGeolocationPins_def)
  then show ?thesis
    by (cases "validateGeolocationPins served") (auto dest: validate_covers)
qed

text \<open>Pins that the server served, to one of the requests for them: leaf and intermediate, per host.\<close>

definition served_pins :: "ingest_env set \<Rightarrow> Client \<Rightarrow> pin_entries \<Rightarrow> bool" where
  "served_pins Es c pins \<longleftrightarrow> (\<exists>E\<in>Es. \<exists>served. GeolocationPins E c = Inr served
     \<and> list_all (\<lambda>(h, allowed). \<exists>p. map_of served h = Some p \<and> allowed = [gp_Leaf p, gp_Intermediate p]) pins)"

lemma fetch_served:
  assumes "fetchGeolocationPins E c = Inr pins" "E \<in> Es"
  shows "served_pins Es c pins"
proof -
  obtain served where g1: "GeolocationPins E c = Inr served" "map_sum id fst (validateGeolocationPins served) = Inr pins"
    using assms(1) by (cases "GeolocationPins E c") (auto simp: fetchGeolocationPins_def)
  then obtain ignored where g: "GeolocationPins E c = Inr served" "validateGeolocationPins served = Inr (pins, ignored)"
    by (cases "validateGeolocationPins served") auto
  have "pins = List.map_filter (\<lambda>h. map_option (Pair h) (usable_pin served h)) SourceHosts"
    using g(2) by (auto simp: validateGeolocationPins_def Let_def split: if_splits)
  moreover have "\<exists>p. map_of served h = Some p \<and> allowed = [gp_Leaf p, gp_Intermediate p]"
    if "usable_pin served h = Some allowed" for h allowed
    using that by (auto simp: usable_pin_def split: option.splits if_splits)
  ultimately show ?thesis unfolding served_pins_def using assms(2) g(1)
    by (intro bexI[of _ E] exI[of _ served]) (auto simp: list_all_iff List.map_filter_def)
qed

lemma refresh_served:
  assumes "served_pins Es c (pn_pins s)" "E \<in> Es"
  shows "served_pins Es c (pn_pins (refreshGeolocationPins E c interval now fetched s))"
  using assms fetch_served by (auto simp: refreshGeolocationPins_def pins_set_def split: sum.split)

lemma refreshes_cover: "covers (pn_pins s) \<Longrightarrow> covers (pn_pins (refreshes c interval hist s))"
proof (induction hist arbitrary: s)
  case (Cons x hist)
  obtain E now fetched where x: "x = (E, now, fetched)" by (metis surj_pair)
  have "covers (pn_pins (refreshGeolocationPins E c interval now fetched s))"
    using Cons.prems by (auto simp: refreshGeolocationPins_def pins_set_def fetch_covers split: sum.split)
  then show ?case using Cons.IH by (simp add: refreshes_def x)
qed (simp add: refreshes_def)

lemma pins_get_eq [simp]: "pins_get s = pn_pins s"
  by (simp add: pins_get_def)

lemma covers_pinned:
  assumes "covers pins" "h \<in> set SourceHosts"
  shows "\<exists>allowed. allowed_hosts U pins extra (normalizeHost U h) = Some allowed \<and> full_pin allowed"
proof -
  have "normalizeHost U h \<in> dom (normalizePins U pins)"
    using assms unfolding normalizePins_dom covers_def by (metis image_eqI list.set_map)
  then obtain allowed where a: "normalizePins U pins (normalizeHost U h) = Some allowed" by blast
  then have "full_pin allowed"
    using normalizePins_entry[OF a] assms(1) by (auto simp: covers_def list_all_iff)
  then show ?thesis using allowed_hosts_pinned[OF a] by blast
qed

text \<open>
  C10. Never unpinned: once the process has started, after any history of refreshes, successful
  or not, the set that a new tunnel takes pins exactly the geolocation sources, so the tunnel is
  not refused for want of pins, every source host is on its allowlist with two non-empty pins,
  and nothing the server sends adds a host; a refresh that fails leaves the set as it was.
\<close>

theorem pins_in_force:
  assumes "startup_pins E0 c t0 = Inr s0" and "s = refreshes c interval hist s0"
  shows "map fst (pins_get s) = SourceHosts
    \<and> fst (open_tunnel create base (cfg\<lparr> cf_Pins := pins_get s \<rparr>) provider) \<noteq> Inl ErrPinsRequired
    \<and> (\<forall>h\<in>set SourceHosts.
         \<exists>allowed. allowed_hosts U (pins_get s) extra (normalizeHost U h) = Some allowed \<and> full_pin allowed)
    \<and> (\<forall>E e now fetched. fetchGeolocationPins E c = Inl e \<longrightarrow>
         refreshGeolocationPins E c interval now fetched s = s)"
proof -
  obtain pins where "fetchGeolocationPins E0 c = Inr pins" "pn_pins s0 = pins"
    using assms(1) by (cases "fetchGeolocationPins E0 c") (auto simp: startup_pins_def pins_set_def)
  then have cov: "covers (pins_get s)"
    using fetch_covers refreshes_cover assms(2) by simp
  have "fst (open_tunnel create base (cfg\<lparr> cf_Pins := pins_get s \<rparr>) provider) \<noteq> Inl ErrPinsRequired"
    using cov by (auto simp: open_tunnel_def covers_def split: option.split)
  moreover have "refreshGeolocationPins E c interval now fetched s = s"
    if "fetchGeolocationPins E c = Inl e" for E e now fetched
    using that by (simp add: refreshGeolocationPins_def)
  ultimately show ?thesis using cov covers_pinned[OF cov] by (auto simp: covers_def)
qed

subsection \<open>A concrete start\<close>

definition sample_pins :: pin_entries where
  "sample_pins = [(''api.i.pn'', [good_pin, spare_pin]), (''free.freeipapi.com'', [good_pin, spare_pin]), (''ipinfo.io'', [good_pin, spare_pin])]"

definition pin_client :: Client where
  "pin_client = \<lparr> ic_ServerURL = ''https://op'', ic_OperatorSecret = ''s'', ic_HTTP = None, ic_DueURL = [] \<rparr>"

lemma pin_member_keys:
  "key_is ''leaf'' ''leaf''" "key_is ''intermediate'' ''intermediate''"
  "\<not> key_is ''leaf'' ''intermediate''" "\<not> key_is ''intermediate'' ''leaf''"
  by (simp_all add: key_is_def fold_key_def plain_eval)

lemma sample_pin_decoded:
  "pin_type sample_pin" "decode_pin sample_pin = \<lparr> gp_Leaf = good_pin, gp_Intermediate = spare_pin \<rparr>"
  by (simp_all add: sample_pin_def pin_type_def decode_pin_def struct_members_def well_typed_def members_def
      str_member_def str_type_def pin_member_keys)

lemma sample_pins_cover: "covers sample_pins"
  by (simp add: covers_def sample_pins_def SourceHosts_value full_pin_def)

lemma pins_decoded:
  "decode_pins E pins_doc = Inr (Some (map (\<lambda>h. (h, \<lparr> gp_Leaf = good_pin, gp_Intermediate = spare_pin \<rparr>))
     [''evil.example'', ''ipinfo.io'', ''api.i.pn'', ''free.freeipapi.com'']))"
  by (simp add: pins_doc_def decode_pins_def sample_pin_decoded)

lemma pin_served:
  assumes "ic_ServerURL c = ''https://op''" "httpClient sample_env c = answering 200"
  shows "startup_pins sample_env c 9 = Inr \<lparr> pn_pins = sample_pins, pn_fetchedAt = 9 \<rparr>"
proof -
  let ?url = "server_url c ''/network/geolocation-source-pins''"
  have "NewRequest (ie_URL sample_env) ?url = None"
    using plain_op(1) endpoint_paths(6) assms(1) by (intro server_request) simp_all
  moreover have "?url = ''https://op/network/geolocation-source-pins''"
    by (simp add: server_url_def assms(1) TrimRight_def)
  ultimately have "GeolocationPins sample_env c = Inr (map (\<lambda>h. (h, \<lparr> gp_Leaf = good_pin, gp_Intermediate = spare_pin \<rparr>))
      [''evil.example'', ''ipinfo.io'', ''api.i.pn'', ''free.freeipapi.com''])"
    using assms(2) sample_documents(1)[of sample_env] pins_decoded[of sample_env]
    by (simp add: GeolocationPins_def pins_status_def get_def GET_def answering_def del: list.map)
  then show ?thesis
    by (simp add: startup_pins_def fetchGeolocationPins_def validateGeolocationPins_def SourceHosts_value
        usable_pin_def pins_set_def pins0_def sample_pins_def)
qed

lemma pin_start: "startup_pins sample_env pin_client 9 = Inr \<lparr> pn_pins = sample_pins, pn_fetchedAt = 9 \<rparr>"
  by (rule pin_served) (simp_all add: httpClient_def pin_client_def)

theorem pins_in_force_witness:
  "map fst (pins_get (refreshes pin_client 1 [(sample_env\<lparr> ie_Default := answering 500 \<rparr>, 20, 21)]
     \<lparr> pn_pins = sample_pins, pn_fetchedAt = 9 \<rparr>)) = [''api.i.pn'', ''free.freeipapi.com'', ''ipinfo.io'']"
  using conjunct1[OF pins_in_force[OF pin_start refl]] by (simp add: SourceHosts_value del: pins_get_eq)

end
