(* ===== verification/Confinement.thy ===== *)
theory Confinement
  imports Go_Net
begin

text \<open>
  \<open>confinement/confinement.go\<close>: the startup self-check that no probe endpoint can be reached
  directly. \<open>Addresses\<close> resolves the probe hosts to literal addresses, \<open>Verify\<close> dials every
  one of them and refuses on the first success. The dialer and the resolver are parameters
  (absent ones are \<open>None\<close>); the dials attempted are part of the result, so that the theorems
  can say that a pass is evidence and not the absence of it.
\<close>

datatype confinement_error =
    ErrNotConfined string
  | ErrNoAddresses
  | ErrNoEvidence "string list"
  | ErrNoHosts
  | ErrNoDialer
  | ErrNoLookup
  | ErrInvalidTimeout duration

definition MinTimeout :: duration where
  "MinTimeout = 500 * Millisecond"

datatype dial_outcome = Connected | Failed string

text \<open>The loop over the addresses: the error, if any, and the addresses dialled.\<close>

fun verify_loop :: "(string \<Rightarrow> dial_outcome) \<Rightarrow> string list \<Rightarrow> confinement_error option \<times> string list" where
  "verify_loop dial [] = (None, [])"
| "verify_loop dial (addr # addrs) =
    (case dial addr of
       Connected \<Rightarrow> (Some (ErrNotConfined addr), [addr])
     | Failed _ \<Rightarrow> (let (err, tried) = verify_loop dial addrs in (err, addr # tried)))"

definition Verify :: "(string \<Rightarrow> dial_outcome) option \<Rightarrow> string list \<Rightarrow> string list \<Rightarrow> duration
    \<Rightarrow> confinement_error option \<times> string list" where
  "Verify dial addrs unresolved timeout =
    (case dial of
       None \<Rightarrow> (Some ErrNoDialer, [])
     | Some d \<Rightarrow>
       if timeout < MinTimeout then (Some (ErrInvalidTimeout timeout), [])
       else if addrs = [] then
         (if unresolved \<noteq> [] then (Some (ErrNoEvidence unresolved), []) else (Some ErrNoAddresses, []))
       else verify_loop d addrs)"

text \<open>The closure \<open>add\<close> and the body of the loop over the hosts.\<close>

definition add_addr :: "string \<Rightarrow> string list \<Rightarrow> string list" where
  "add_addr addr addrs = (if addr \<notin> set addrs then addrs @ [addr] else addrs)"

definition add_ips :: "string \<Rightarrow> string list \<Rightarrow> string list \<Rightarrow> string list" where
  "add_ips port ips addrs =
    fold (\<lambda>ip addrs. if \<not> ParseIP ip then addrs else add_addr (JoinHostPort ip port) addrs) ips addrs"

definition address_step :: "(string \<Rightarrow> string + string list) \<Rightarrow> string \<Rightarrow> string
    \<Rightarrow> string list \<times> string list \<Rightarrow> string list \<times> string list" where
  "address_step lookup port host st =
    (let (addrs, unresolved) = st in
     case lookup host of
       Inl _ \<Rightarrow> (addrs, unresolved @ [host])
     | Inr ips \<Rightarrow> (add_ips port ips addrs,
          if list_ex ParseIP ips then unresolved else unresolved @ [host]))"

definition Addresses :: "(string \<Rightarrow> string + string list) option \<Rightarrow> string list \<Rightarrow> string
    \<Rightarrow> confinement_error + (string list \<times> string list)" where
  "Addresses lookup hosts port =
    (if hosts = [] then Inl ErrNoHosts
     else (case lookup of
         None \<Rightarrow> Inl ErrNoLookup
       | Some l \<Rightarrow> Inr (fold (address_step l port) hosts ([], []))))"

subsection \<open>Verify\<close>

lemma verify_loop_pass:
  "verify_loop dial addrs = (None, tried) \<longleftrightarrow> tried = addrs \<and> (\<forall>a\<in>set addrs. dial a \<noteq> Connected)"
proof (induction addrs arbitrary: tried)
  case (Cons a addrs)
  show ?case
  proof (cases "dial a")
    case (Failed e)
    show ?thesis using Cons.IH[of "tl tried"] Failed
      by (cases "verify_loop dial addrs"; cases tried) auto
  qed simp
qed auto

lemma verify_loop_refuse:
  "verify_loop dial addrs = (Some e, tried) \<Longrightarrow>
    \<exists>pre a post. addrs = pre @ a # post \<and> e = ErrNotConfined a \<and> tried = pre @ [a]
      \<and> dial a = Connected \<and> (\<forall>b\<in>set pre. dial b \<noteq> Connected)"
proof (induction addrs arbitrary: tried)
  case (Cons x addrs)
  show ?case
  proof (cases "dial x")
    case Connected
    then show ?thesis using Cons.prems
      by (intro exI[of _ "[]"] exI[of _ x] exI[of _ addrs]) auto
  next
    case (Failed msg)
    then obtain rest where "verify_loop dial addrs = (Some e, rest)" "tried = x # rest"
      using Cons.prems by (auto split: prod.splits)
    then obtain pre a post where "addrs = pre @ a # post" "e = ErrNotConfined a" "rest = pre @ [a]"
      "dial a = Connected" "\<forall>b\<in>set pre. dial b \<noteq> Connected"
      using Cons.IH by blast
    then show ?thesis using Failed \<open>tried = x # rest\<close>
      by (intro exI[of _ "x # pre"] exI[of _ a] exI[of _ post]) auto
  qed
qed simp

text \<open>
  A pass of the self-check is evidence: it is returned only after every address was dialled
  with a timeout of at least 500 ms and every dial failed, and there was at least one address.
  A refusal as not confined names the first address that could be reached, and nothing is
  dialled after it. With nothing to dial the check refuses.
\<close>

theorem Verify_evidence:
  "(fst (Verify dial addrs unresolved timeout) = None \<longleftrightarrow>
      (\<exists>d. dial = Some d \<and> MinTimeout \<le> timeout \<and> addrs \<noteq> [] \<and> (\<forall>a\<in>set addrs. d a \<noteq> Connected)
        \<and> Verify dial addrs unresolved timeout = (None, addrs)))
   \<and> (\<forall>a tried. Verify dial addrs unresolved timeout = (Some (ErrNotConfined a), tried) \<longrightarrow>
      (\<exists>d pre post. dial = Some d \<and> addrs = pre @ a # post \<and> tried = pre @ [a] \<and> d a = Connected
        \<and> (\<forall>b\<in>set pre. d b \<noteq> Connected)))
   \<and> (addrs = [] \<longrightarrow> fst (Verify dial addrs unresolved timeout) \<noteq> None)"
proof (cases dial)
  case dialer: (Some d)
  show ?thesis
  proof (cases "timeout < MinTimeout \<or> addrs = []")
    case False
    then have eq: "Verify (Some d) addrs unresolved timeout = verify_loop d addrs"
      by (simp add: Verify_def)
    show ?thesis
    proof (cases "fst (verify_loop d addrs)")
      case None
      then have "verify_loop d addrs = (None, addrs)" "\<forall>a\<in>set addrs. d a \<noteq> Connected"
        using verify_loop_pass[of d addrs "snd (verify_loop d addrs)"] by (auto simp: prod_eq_iff)
      then show ?thesis using False by (simp add: dialer eq not_less)
    next
      case (Some e)
      then have "verify_loop d addrs = (Some e, snd (verify_loop d addrs))" by (simp add: prod_eq_iff)
      from verify_loop_refuse[OF this] show ?thesis using False Some
        by (auto simp: dialer eq)
    qed
  qed (auto simp: Verify_def dialer)
qed (simp add: Verify_def)

theorem Verify_evidence_witness:
  "Verify (Some (\<lambda>a. if a = ''10.0.0.2:443'' then Connected else Failed ''timeout''))
     [''10.0.0.1:443'', ''10.0.0.2:443'', ''10.0.0.3:443''] [] Second
   = (Some (ErrNotConfined ''10.0.0.2:443''), [''10.0.0.1:443'', ''10.0.0.2:443''])
   \<and> fst (Verify (Some (\<lambda>_. Failed ''blocked'')) [''10.0.0.1:443''] [] Second) = None"
  using Verify_evidence[of "Some (\<lambda>_. Failed ''blocked'')" "[''10.0.0.1:443'']" "[]" Second]
  by (simp add: Verify_def MinTimeout_def duration_units)

subsection \<open>Addresses\<close>

lemma add_addr_simps: "set (add_addr a xs) = insert a (set xs)" "distinct xs \<Longrightarrow> distinct (add_addr a xs)"
  by (auto simp: add_addr_def)

lemma add_ips_set: "set (add_ips port ips addrs) = set addrs \<union> (\<lambda>ip. JoinHostPort ip port) ` {ip \<in> set ips. ParseIP ip}"
  unfolding add_ips_def by (induction ips arbitrary: addrs) (auto simp: add_addr_simps)

lemma add_ips_distinct: "distinct addrs \<Longrightarrow> distinct (add_ips port ips addrs)"
  unfolding add_ips_def by (induction ips arbitrary: addrs) (auto simp: add_addr_simps)

text \<open>The literal addresses a host resolves to.\<close>

definition resolves_to :: "(string \<Rightarrow> string + string list) \<Rightarrow> string \<Rightarrow> string set" where
  "resolves_to lookup host = (case lookup host of Inl _ \<Rightarrow> {} | Inr ips \<Rightarrow> {ip \<in> set ips. ParseIP ip})"

lemma address_step_char:
  "set (fst (address_step l port h st)) = set (fst st) \<union> (\<lambda>ip. JoinHostPort ip port) ` resolves_to l h"
  "snd (address_step l port h st) = snd st @ (if resolves_to l h = {} then [h] else [])"
  "distinct (fst st) \<Longrightarrow> distinct (fst (address_step l port h st))"
  by (auto simp: address_step_def resolves_to_def add_ips_set add_ips_distinct list_ex_iff
      split: prod.splits sum.splits)

lemma address_fold_char:
  "set (fst (fold (address_step l port) hosts st))
     = set (fst st) \<union> (\<Union>h\<in>set hosts. (\<lambda>ip. JoinHostPort ip port) ` resolves_to l h)
   \<and> snd (fold (address_step l port) hosts st) = snd st @ filter (\<lambda>h. resolves_to l h = {}) hosts
   \<and> (distinct (fst st) \<longrightarrow> distinct (fst (fold (address_step l port) hosts st)))"
  by (induction hosts arbitrary: st) (auto simp: address_step_char)

text \<open>
  \<open>Addresses\<close> accounts for every host: each address it returns is a literal address some
  host resolved to, joined with the port, without repetition; every literal address of every
  host is among them; and a host is listed as unresolved exactly when it gave none, so no host
  is silently left untested.
\<close>

theorem Addresses_complete:
  "Addresses (Some l) hosts port =
    (if hosts = [] then Inl ErrNoHosts
     else Inr (fst (fold (address_step l port) hosts ([], [])), filter (\<lambda>h. resolves_to l h = {}) hosts))
   \<and> distinct (fst (fold (address_step l port) hosts ([], [])))
   \<and> set (fst (fold (address_step l port) hosts ([], [])))
       = (\<Union>h\<in>set hosts. (\<lambda>ip. JoinHostPort ip port) ` resolves_to l h)
   \<and> Addresses None hosts port = Inl (if hosts = [] then ErrNoHosts else ErrNoLookup)"
  using address_fold_char[of l port hosts "([], [])"] by (simp add: Addresses_def prod_eq_iff)

end
