(* ===== verification/Main_Confinement.thy ===== *)
theory Main_Confinement
  imports Main_Pins Confinement Health_Check Bandwidth_Measure
begin

text \<open>
  The startup self-check of \<open>cmd/egress-prober/main.go\<close>: the hosts it must prove unreachable,
  the explicit addresses an operator may give, and the check itself. The theorems show what a
  passed check has tested, and that it leaves out no third-party host that a tunnel of the
  process can reach.
\<close>

definition confinementPort :: string where "confinementPort = ''443''"

definition probeHosts :: "string list" where
  "probeHosts = dedup_from {[]} (SourceHosts @ DestinationHosts)"

text \<open>The repeatable flag \<open>-confinement-address\<close>.\<close>

definition addressList_String :: "string list \<Rightarrow> string" where
  "addressList_String a = Join a '' ''"

definition addressList_Set :: "stdlib \<Rightarrow> string \<Rightarrow> string list \<Rightarrow> string + string list" where
  "addressList_Set L v a =
    (case SplitHostPort v of
       None \<Rightarrow> Inl (Quote (print_table L) v @ '' is not host:port'')
     | Some (host, port) \<Rightarrow>
         if \<not> ParseIP host then Inl (Quote (print_table L) v @ '': the host part must be an ip literal, not a name'')
         else if port = [] then Inl (Quote (print_table L) v @ '': a port is required'')
         else Inr (a @ [v]))"

text \<open>
  The outcome of the check: its error, the addresses dialled, and the hosts of the DEGRADED
  warning. \<open>lookup\<close> is the resolver within the budget of one timeout per host.
\<close>

record confinement_outcome =
  co_err :: "confinement_error option"
  co_dialed :: "string list"
  co_untested :: "string list"

definition checkConfinement :: "(string \<Rightarrow> dial_outcome) option
    \<Rightarrow> (duration \<Rightarrow> string \<Rightarrow> string + string list) option \<Rightarrow> string list \<Rightarrow> duration \<Rightarrow> confinement_outcome" where
  "checkConfinement dial lookup explicitAddrs timeout =
    (let hosts = probeHosts;
         resolved = (if explicitAddrs \<noteq> [] then Inr (explicitAddrs, [])
           else Addresses (map_option (\<lambda>l. l (int64 (timeout * int (length hosts)))) lookup) hosts confinementPort)
     in case resolved of
          Inl e \<Rightarrow> \<lparr> co_err = Some e, co_dialed = [], co_untested = [] \<rparr>
        | Inr (addrs, unresolved) \<Rightarrow>
            (let (err, tried) = Verify dial addrs unresolved timeout
             in \<lparr> co_err = err, co_dialed = tried,
                  co_untested = (if unresolved \<noteq> [] \<and> addrs \<noteq> [] then unresolved else []) \<rparr>))"

subsection \<open>Explicit addresses\<close>

text \<open>What the flag accepts can be dialled without a resolver.\<close>

definition literal_address :: "string \<Rightarrow> bool" where
  "literal_address v \<longleftrightarrow> (\<exists>host port. SplitHostPort v = Some (host, port) \<and> ParseIP host \<and> port \<noteq> [])"

lemma addressList_Set_literal:
  "addressList_Set L v a = Inr b \<Longrightarrow> list_all literal_address a \<Longrightarrow> list_all literal_address b \<and> b = a @ [v]"
  by (auto simp: addressList_Set_def literal_address_def split: option.splits if_splits)

subsection \<open>The probe hosts\<close>

lemma probeHosts_set: "set probeHosts = set SourceHosts \<union> set DestinationHosts"
  by (auto simp: probeHosts_def SourceHosts_def DestinationHosts_def hosts_of_set)

text \<open>The hosts the program itself names: plain names, so their normal forms are not empty.\<close>

lemma destination_host: "h \<in> set DestinationHosts \<longleftrightarrow> h \<in> https_name ` d_URL ` set destinations"
proof -
  have "hostname (d_URL d) = Some (https_name (d_URL d)) \<and> https_name (d_URL d) \<noteq> []" if "d \<in> set destinations" for d
    using plain_https_hostname[OF destination_urls[OF that]] by (simp add: plain_name_def)
  then show ?thesis unfolding DestinationHosts_def hosts_of_set by (auto simp: image_iff)
qed

lemma destination_name: "h \<in> set DestinationHosts \<Longrightarrow> plain_name h"
  using plain_https_hostname(2)[OF destination_urls] by (auto simp: destination_host)

lemma plain_normal: "plain_name h \<Longrightarrow> normalizeHost U h = map lower_char h \<and> normalizeHost U h \<noteq> []"
  using plain_name_ok[of h] by (simp add: normalizeHost_def SplitHostPort_no_colon ToLower_ascii)

lemma cdn_host_tested: "hostname CDNTestURL = Some h \<Longrightarrow> h \<in> set DestinationHosts"
proof -
  assume h: "hostname CDNTestURL = Some h"
  have "''https://speed.cloudflare.com'' \<in> d_URL ` set site_destinations_1"
    by (simp add: site_destinations_1_def Destination.defs)
  then have "''https://speed.cloudflare.com'' \<in> d_URL ` set destinations"
    by (auto simp: destinations_def site_destinations_def)
  moreover have "h = https_name ''https://speed.cloudflare.com''"
    using h hostname_plain[OF cdn_plain(1), of "[]"] cdn_plain(2) by (simp add: query_bytes_def query_part_def https_name_def)
  ultimately show ?thesis unfolding destination_host by blast
qed

text \<open>
  C19. The allowlist of a tunnel is what the self-check covers: with pins that cover the sources,
  a tunnel that serves the geolocation sources, the health destinations and the default bandwidth
  targets can reach exactly the hosts that the self-check proves unreachable without a tunnel, and
  the host of the operator's own public api when there is one.
\<close>

theorem tunnel_hosts_checked:
  assumes "covers pins"
  shows "allowed_hosts U pins (DestinationHosts @ TargetHosts (DefaultTargets api secret)) k \<noteq> None
    \<longleftrightarrow> k \<in> normalizeHost U ` set probeHosts
      \<or> k \<noteq> [] \<and> TrimSpace api \<noteq> []
        \<and> k \<in> normalizeHost U ` set (TargetHosts [OperatorTarget api secret])"
proof -
  have pins: "normalizeHost U ` fst ` set pins = normalizeHost U ` set SourceHosts"
    using assms by (simp add: covers_def flip: set_map)
  have dest: "[] \<notin> normalizeHost U ` set DestinationHosts"
    using destination_name plain_normal by fastforce
  have targets: "set (TargetHosts (DefaultTargets api secret)) \<subseteq> set DestinationHosts
      \<union> (if TrimSpace api \<noteq> [] then set (TargetHosts [OperatorTarget api secret]) else {})"
    using cdn_host_tested
    by (auto simp: TargetHosts_def DefaultTargets_def CDNTarget_def split: if_splits option.splits)
  have operator: "TrimSpace api \<noteq> [] \<Longrightarrow> set (TargetHosts [OperatorTarget api secret]) \<subseteq> set (TargetHosts (DefaultTargets api secret))"
    by (auto simp: TargetHosts_def DefaultTargets_def split: option.splits)
  have "allowed_hosts U pins (DestinationHosts @ TargetHosts (DefaultTargets api secret)) k \<noteq> None
    \<longleftrightarrow> k \<in> normalizeHost U ` set SourceHosts
      \<or> k \<noteq> [] \<and> k \<in> normalizeHost U ` (set DestinationHosts \<union> set (TargetHosts (DefaultTargets api secret)))"
    using allowed_hosts_dom[of U pins] pins by (auto simp: domIff set_eq_iff)
  then show ?thesis
    using dest targets operator unfolding probeHosts_set image_Un by (cases "TrimSpace api = []") (simp_all, blast+)
qed

subsection \<open>What a pass has tested\<close>

lemma Verify_pass:
  assumes "Verify dial addrs unresolved timeout = (None, tried)"
  shows "\<exists>d. dial = Some d \<and> tried = addrs \<and> addrs \<noteq> [] \<and> MinTimeout \<le> timeout \<and> (\<forall>a\<in>set addrs. d a \<noteq> Connected)"
  using assms verify_loop_pass by (auto simp: Verify_def split: option.splits if_splits)

lemma checkConfinement_pass:
  assumes "co_err (checkConfinement (Some d) (Some lookup) addrs timeout) = None"
  defines "checked \<equiv> checkConfinement (Some d) (Some lookup) addrs timeout"
    and "l \<equiv> lookup (int64 (timeout * int (length probeHosts)))"
  shows "MinTimeout \<le> timeout" "co_dialed checked \<noteq> []" "\<And>a. a \<in> set (co_dialed checked) \<Longrightarrow> d a \<noteq> Connected"
    "addrs \<noteq> [] \<Longrightarrow> co_dialed checked = addrs"
    "addrs = [] \<Longrightarrow> set (co_dialed checked) = (\<Union>h\<in>set probeHosts. (\<lambda>ip. JoinHostPort ip ''443'') ` resolves_to l h)"
    "addrs = [] \<Longrightarrow> co_untested checked = filter (\<lambda>h. resolves_to l h = {}) probeHosts"
proof -
  let ?st = "fold (address_step l ''443'') probeHosts ([], [])"
  define dialled where "dialled = (if addrs = [] then fst ?st else addrs)"
  define skipped where "skipped = (if addrs = [] then snd ?st else [])"
  obtain err tried where v: "Verify (Some d) dialled skipped timeout = (err, tried)" by fastforce
  have ne: "addrs = [] \<Longrightarrow> probeHosts \<noteq> []"
    using assms(1) by (auto simp: checkConfinement_def Addresses_def)
  have eq: "checked = \<lparr> co_err = err, co_dialed = tried, co_untested = (if skipped \<noteq> [] \<and> dialled \<noteq> [] then skipped else []) \<rparr>"
    using v ne unfolding checked_def checkConfinement_def Let_def dialled_def skipped_def l_def
    by (cases "addrs = []") (simp_all add: Addresses_def confinementPort_def split_beta)
  then have "err = None" using assms(1) by (simp add: checked_def[symmetric])
  with v have pass: "tried = dialled" "dialled \<noteq> []" "MinTimeout \<le> timeout" "\<forall>a\<in>set dialled. d a \<noteq> Connected"
    using Verify_pass by fastforce+
  show "MinTimeout \<le> timeout" "co_dialed checked \<noteq> []" "\<And>a. a \<in> set (co_dialed checked) \<Longrightarrow> d a \<noteq> Connected"
    using pass by (simp_all add: eq)
  show "addrs \<noteq> [] \<Longrightarrow> co_dialed checked = addrs" by (simp add: eq pass(1) dialled_def)
  show "addrs = [] \<Longrightarrow> set (co_dialed checked) = (\<Union>h\<in>set probeHosts. (\<lambda>ip. JoinHostPort ip ''443'') ` resolves_to l h)"
    "addrs = [] \<Longrightarrow> co_untested checked = filter (\<lambda>h. resolves_to l h = {}) probeHosts"
    using address_fold_char[of l "''443''" probeHosts "([], [])"] pass(1,2)
    by (simp_all add: eq dialled_def skipped_def)
qed

text \<open>
  C18. A passed self-check is evidence: at least one address was dialled, with a meaningful
  timeout, and none answered; without explicit addresses every probe host either had all the
  addresses it resolves to dialled on port 443 or is named in the warning; with explicit
  addresses exactly those were dialled.
\<close>

theorem confinement_tested:
  assumes "co_err (checkConfinement dial (Some lookup) explicitAddrs timeout) = None"
  shows "let out = checkConfinement dial (Some lookup) explicitAddrs timeout;
             l = lookup (int64 (timeout * int (length probeHosts))) in
    MinTimeout \<le> timeout \<and> co_dialed out \<noteq> []
    \<and> (\<exists>d. dial = Some d \<and> (\<forall>a\<in>set (co_dialed out). d a \<noteq> Connected))
    \<and> (explicitAddrs \<noteq> [] \<longrightarrow> co_dialed out = explicitAddrs)
    \<and> (explicitAddrs = [] \<longrightarrow> (\<forall>h\<in>set probeHosts.
         if resolves_to l h = {} then h \<in> set (co_untested out)
         else (\<lambda>ip. JoinHostPort ip ''443'') ` resolves_to l h \<subseteq> set (co_dialed out)))"
proof (cases dial)
  case None
  then show ?thesis using assms by (auto simp: checkConfinement_def Verify_def Let_def split: sum.splits prod.splits if_splits)
next
  case (Some d)
  note pass = checkConfinement_pass[OF assms[unfolded Some]]
  have "if resolves_to (lookup (int64 (timeout * int (length probeHosts)))) h = {}
      then h \<in> set (co_untested (checkConfinement dial (Some lookup) explicitAddrs timeout))
      else (\<lambda>ip. JoinHostPort ip ''443'') ` resolves_to (lookup (int64 (timeout * int (length probeHosts)))) h
        \<subseteq> set (co_dialed (checkConfinement dial (Some lookup) explicitAddrs timeout))"
    if "explicitAddrs = []" "h \<in> set probeHosts" for h
    unfolding Some pass(5,6)[OF that(1)] using that(2) by auto
  then show ?thesis unfolding Let_def using pass(1-4) Some by blast
qed

subsection \<open>Concrete checks\<close>

theorem confinement_tested_witness:
  "co_dialed (checkConfinement (Some (\<lambda>_. Failed ''blocked'')) (Some (\<lambda>t h. Inl ''no dns''))
     [''10.0.0.1:443''] Second) = [''10.0.0.1:443'']"
proof -
  have "co_err (checkConfinement (Some (\<lambda>_. Failed ''blocked'')) (Some (\<lambda>t h. Inl ''no dns''))
     [''10.0.0.1:443''] Second) = None"
    by (simp add: checkConfinement_def Verify_def MinTimeout_def duration_units)
  from confinement_tested[OF this] show ?thesis by (simp add: Let_def)
qed

theorem tunnel_hosts_checked_witness:
  "allowed_hosts latin_unicode sample_pins (DestinationHosts @ TargetHosts (DefaultTargets [] [])) ''ipinfo.io'' \<noteq> None"
proof -
  have "''ipinfo.io'' \<in> normalizeHost latin_unicode ` set probeHosts"
    unfolding probeHosts_set SourceHosts_value using normalize_plain(1) by (metis UnI1 image_eqI list.set_intros)
  then show ?thesis using tunnel_hosts_checked[OF sample_pins_cover, of latin_unicode "[]" "[]" "''ipinfo.io''"] by blast
qed

end
