(* ===== verification/Ingest_Documents.thy ===== *)
theory Ingest_Documents
  imports Sample_Server
begin

text \<open>
  What the server receives, put together with what the other components guarantee: a confident
  location of \<open>geolocate\<close> is never refused before it is sent, the document decodes to the
  location it came from, and the document of a health run passes the server's own checks.
\<close>

subsection \<open>Reading a document\<close>

text \<open>The server's view of a document it received: the value of a member, and a value's content.\<close>

definition jget :: "string \<Rightarrow> json \<Rightarrow> json" where
  "jget k j = (case j of JObj ms \<Rightarrow> (case map_of ms k of Some v \<Rightarrow> v | None \<Rightarrow> JNull) | _ \<Rightarrow> JNull)"

definition jkeys :: "json \<Rightarrow> string list" where
  "jkeys j = (case j of JObj ms \<Rightarrow> map fst ms | _ \<Rightarrow> [])"

definition jstr :: "json \<Rightarrow> string" where
  "jstr j = (case j of JStr s \<Rightarrow> s | _ \<Rightarrow> [])"

definition jbool :: "json \<Rightarrow> bool" where
  "jbool j = (case j of JBool b \<Rightarrow> b | _ \<Rightarrow> False)"

definition jint :: "json \<Rightarrow> int" where
  "jint j = (case j of
     JNum (c # s) \<Rightarrow> if c = CHR ''-'' then - dec_val s else dec_val (c # s) | _ \<Rightarrow> 0)"

lemmas jread = jget_def jkeys_def jstr_def jbool_def

lemma jint_show [simp]: "jint (JNum (show_int n)) = n"
proof -
  obtain c s where I: "Itoa (nat n) = c # s" using Itoa_digits[of "nat n"] by (cases "Itoa (nat n)") auto
  moreover have "c \<noteq> CHR ''-''" using I Itoa_digits[of "nat n"] digit_not_sign[of c] by auto
  ultimately show ?thesis
    using Itoa_digits[of "nat n"] Itoa_digits[of "nat (- n)"] by (auto simp: jint_def show_int_def)
qed

lemma jint_Itoa [simp]: "jint (JNum (Itoa n)) = int n"
  using jint_show[of "int n"] by (simp add: show_int_def)

lemma jint_JNull [simp]: "jint JNull = 0"
  by (simp add: jint_def)

subsection \<open>Locations\<close>

text \<open>The location a server reads from a submitted document.\<close>

definition read_location :: "json \<Rightarrow> ConsensusLocation" where
  "read_location j =
    \<lparr> cl_CountryCode = jstr (jget ''country_code'' j), cl_Country = jstr (jget ''country'' j),
      cl_CountryConfident = jbool (jget ''country_confident'' j),
      cl_City = jstr (jget ''city'' j), cl_Region = jstr (jget ''region'' j),
      cl_CityConfident = jbool (jget ''city_confident'' j),
      cl_ASN = jint (jget ''asn'' j), cl_Org = jstr (jget ''org'' j),
      cl_Hosting = jbool (jget ''hosting'' j), cl_Proxy = jbool (jget ''proxy'' j),
      cl_Mobile = jbool (jget ''mobile'' j), cl_Sources = [],
      cl_ProbedAt = (case read_time (jstr (jget ''observed_at'' j)) of Some t \<Rightarrow> t | None \<Rightarrow> 0) \<rparr>"

lemma iso_names_solid: "list_all (\<lambda>(k, n). list_ex solid n) isoCountryNames"
  unfolding isoCountryNames_def isoCountryNames_A_J_def isoCountryNames_K_Z_def
  by (simp add: solid_def IsSpace_def)

lemma confident_name_kept:
  assumes "unicode_ok U" "cl_CountryConfident (consensus U ok)"
  shows "TrimSpace (cl_Country (consensus U ok)) \<noteq> []"
proof -
  have name: "cl_Country (consensus U ok) = elected_name U ok" "elected_name U ok \<noteq> []"
    using country_confident[OF assms] by auto
  consider r :: SourceResult where "elected_name U ok = TrimSpace (sr_Country r)"
    | "elected_name U ok \<in> snd ` set isoCountryNames"
    using elected_name_source[OF name(2)] by blast
  then show ?thesis
  proof cases
    case 1
    then show ?thesis using name TrimSpace_stable[of "sr_Country r"] by simp
  next
    case 2
    then obtain c where "c \<in> set (elected_name U ok)" "solid c"
      using iso_names_solid unfolding list_all_iff list_ex_iff by fastforce
    then show ?thesis using name TrimSpace_ascii by (auto simp: solid_def)
  qed
qed

lemma locate_record:
  assumes "locate U L now client srcs opt = Inr loc"
  shows "loc = (consensus U (filter sr_OK (cl_Sources loc)))\<lparr> cl_Sources := cl_Sources loc, cl_ProbedAt := now \<rparr>"
  using assms by (auto simp: locate_def Let_def split: option.splits if_splits)

lemma locate_fields:
  assumes "locate U L now client srcs opt = Inr loc"
  shows "cl_CountryCode loc = cl_CountryCode (consensus U (filter sr_OK (cl_Sources loc)))
    \<and> cl_Country loc = cl_Country (consensus U (filter sr_OK (cl_Sources loc)))
    \<and> cl_CountryConfident loc = cl_CountryConfident (consensus U (filter sr_OK (cl_Sources loc)))
    \<and> cl_ProbedAt loc = now"
  by (subst (1 3 5 7) locate_record[OF assms]) simp

lemma locate_not_refused:
  assumes "unicode_ok U" "locate U L now client srcs opt = Inr loc" "now \<noteq> 0"
  shows "submit_refusal E (Some loc) = (if cl_CountryConfident loc then None else Some (Sentinel ErrNotConfident))"
proof -
  define ok where "ok = filter sr_OK (cl_Sources loc)"
  have ok: "cl_CountryCode loc = cl_CountryCode (consensus U ok)" "cl_Country loc = cl_Country (consensus U ok)"
    "cl_CountryConfident loc = cl_CountryConfident (consensus U ok)" "cl_ProbedAt loc = now"
    using locate_fields[OF assms(2)] by (simp_all add: ok_def)
  show ?thesis
  proof (cases "cl_CountryConfident loc")
    case True
    then have "isAlpha2 (cl_CountryCode loc)" "TrimSpace (cl_Country loc) \<noteq> []"
      using ok country_confident[OF assms(1), of ok] confident_name_kept[OF assms(1), of ok]
      by (auto simp: isAlpha2_iff list_all_iff)
    then show ?thesis using ok(4) assms(3) by (simp add: submit_refusal_def)
  qed (simp add: submit_refusal_def)
qed

text \<open>
  C17. A location that \<open>Locate\<close> returns is submitted exactly when it is country-confident: the
  refusals \<open>ErrMissingProbedAt\<close> and \<open>ErrIncompleteCountry\<close> never meet one, no request is made
  for an unconfident one, and otherwise the result is decided by the server's answer alone, but
  for an instant beyond the year 9999, which cannot be sent.
\<close>

theorem submit_confident:
  assumes "unicode_ok U" and "LocateWithOptions U L now client opt = Inr loc" and "now \<noteq> 0"
  shows "Submit_location E c p (Some loc) =
    (if \<not> cl_CountryConfident loc then Some (Sentinel ErrNotConfident)
     else if marshal_error E loc \<noteq> None then marshal_error E loc
     else outcome [] (send E c (post c ''/network/provider-egress-location'' (submit_body E p loc))))"
  using locate_not_refused[OF assms(1) assms(2)[unfolded LocateWithOptions_def] assms(3)]
  by (auto simp: Submit_location_def)

text \<open>The instant is read back when the offset of its zone is a whole number of minutes.\<close>

definition zone_ok :: "ingest_env \<Rightarrow> ConsensusLocation \<Rightarrow> bool" where
  "zone_ok E loc \<longleftrightarrow> 60 dvd ie_Zone E (cl_ProbedAt loc)"

lemma submit_read:
  assumes "submit_refusal E (Some loc) = None" "marshal_error E loc = None" "zone_ok E loc"
  shows "read_location (submit_body E p loc) =
    loc\<lparr> cl_City := (if cl_CityConfident loc then cl_City loc else []),
         cl_Region := (if cl_CityConfident loc then cl_Region loc else []), cl_Sources := [] \<rparr>"
proof -
  obtain t where t: "observed_at E loc = Inr t" "read_time t = Some (cl_ProbedAt loc)"
    using assms(2,3) read_time_Marshal by (auto simp: marshal_error_def observed_at_def zone_ok_def split: sum.splits)
  have conf: "cl_CountryConfident loc" using assms by (auto simp: submit_refusal_def split: if_splits)
  have member: "map_of (omit b k v @ ms) n = (if \<not> b \<and> n = k then Some v else map_of ms n)" for b k v ms n
    by (cases b) auto
  show ?thesis
    using conf unfolding submit_body_def Let_def append_assoc
    by (cases loc) (use t in \<open>simp add: read_location_def jread member del: map_of_append\<close>)
qed

text \<open>What JSON keeps of the strings of a location: the bytes that are not UTF-8 are replaced.\<close>

definition utf8_location :: "ConsensusLocation \<Rightarrow> ConsensusLocation" where
  "utf8_location loc = loc\<lparr> cl_CountryCode := utf8_text (cl_CountryCode loc), cl_Country := utf8_text (cl_Country loc),
     cl_City := utf8_text (cl_City loc), cl_Region := utf8_text (cl_Region loc), cl_Org := utf8_text (cl_Org loc) \<rparr>"

lemma jget_clean:
  assumes "j = JObj ms" "list_all (is_ascii \<circ> fst) ms"
  shows "jget k (clean j) = clean (jget k j)"
proof -
  have "map_of (map (\<lambda>(k, v). (utf8_text k, clean v)) ms) k = map_option clean (map_of ms k)"
    using assms(2) by (induction ms) (auto simp: utf8_text_ascii)
  then show ?thesis by (simp add: assms(1) jget_def split: option.split)
qed

lemma read_clean:
  assumes "j = JObj ms" "list_all (is_ascii \<circ> fst) ms" "is_ascii (jstr (jget ''observed_at'' j))"
  shows "read_location (clean j) = utf8_location (read_location j)"
proof -
  have "jstr (clean v) = utf8_text (jstr v)" "jbool (clean v) = jbool v" "jint (clean v) = jint v" for v
    by (cases v; simp add: jstr_def jbool_def jint_def utf8_text_ascii is_ascii_def)+
  then show ?thesis using jget_clean[OF assms(1,2)] assms(3)
    by (simp add: read_location_def utf8_location_def utf8_text_ascii)
qed

lemma submit_body_plain:
  "\<exists>ms. submit_body E p loc = JObj ms \<and> list_all (is_ascii \<circ> fst) ms" "writable maxNestingDepth (submit_body E p loc)"
  by (simp_all add: submit_body_def Let_def omit_def is_ascii_def number_text_int maxNestingDepth_def)

lemma observed_ascii: "is_ascii (jstr (jget ''observed_at'' (submit_body E p loc)))"
proof -
  have "is_ascii (case observed_at E loc of Inr t \<Rightarrow> t | Inl _ \<Rightarrow> [])"
    using MarshalTime_ascii by (auto simp: observed_at_def is_ascii_def[of "[]"] split: sum.split)
  then show ?thesis by (simp add: submit_body_def Let_def jread omit_def)
qed

text \<open>
  C26. Round trip: the bytes of a submission are a JSON document, and a server that parses them
  and reads its members gets the location back, the instant of the probe included, with the city
  and the region only if the location is city-confident, and with U+FFFD for the bytes of its
  strings that are not UTF-8.
\<close>

theorem submit_roundtrip:
  assumes "submit_refusal E (Some loc) = None" and "marshal_error E loc = None" and "zone_ok E loc"
  shows "\<exists>doc. json_syntax (the (rq_Body (post c path (submit_body E p loc)))) = Some doc
    \<and> read_location doc = utf8_location (loc\<lparr> cl_City := (if cl_CityConfident loc then cl_City loc else []),
         cl_Region := (if cl_CityConfident loc then cl_Region loc else []), cl_Sources := [] \<rparr>)"
proof -
  obtain ms where "submit_body E p loc = JObj ms" "list_all (is_ascii \<circ> fst) ms" using submit_body_plain(1) by blast
  then have "read_location (clean (submit_body E p loc)) = utf8_location (read_location (submit_body E p loc))"
    using observed_ascii by (rule read_clean)
  then show ?thesis
    using json_syntax_marshal[OF submit_body_plain(2), of E p loc] submit_read[OF assms, of p]
    by (intro exI[of _ "clean (submit_body E p loc)"]) (simp only: post_def http_request.select_convs option.sel simp_thms)
qed

subsection \<open>Health\<close>

lemma sum_list_sorted:
  "distinct xs \<Longrightarrow> sum_list (map f (sort xs)) = sum f (set xs)"
  by (metis distinct_sort set_sort sum_list_distinct_conv_sum_set)

lemma class_results_keys: "map fst (class_results res) = sort (map fst (rs_ByClass res))"
  by (simp add: class_results_def comp_def)

lemma number_text_Itoa: "number_text (Itoa n)"
  using number_text_int[of "int n"] by (simp add: show_int_def)

text \<open>The classes of the document as the server parses them.\<close>

lemma health_parsed:
  "json_syntax (marshal (health_body p res)) = Some (clean (health_body p res))"
  by (rule json_syntax_marshal)
    (auto simp: health_body_def health_members_def class_members_def maxNestingDepth_def number_text_Itoa list_all_iff)

lemma health_member:
  "jget ''ok_count'' (clean (health_body p res)) = JNum (Itoa (rs_OKCount res))"
  "jget ''total_count'' (clean (health_body p res)) = JNum (Itoa (rs_Total res))"
  "jget ''class_results'' (clean (health_body p res))
     = JObj (map (\<lambda>(c, r). (utf8_text c, class_members r)) (class_results res))"
  by (simp_all add: health_body_def health_members_def jget_def class_members_def utf8_text_ascii is_ascii_def split_beta)

text \<open>
  C36. The document of a health run passes the checks of the server that parses it: its class
  results sum to its ok and total counts, its classes are in order, without repetition and all
  scored, so the reputation class is in no tally, and each class has at most as many passes as
  destinations.
\<close>

theorem health_document:
  assumes "check L ctx_err client took dests opts = Inr res" and "list_all (is_ascii \<circ> d_Class) dests"
  shows "\<exists>doc classes. json_syntax (the (rq_Body (post c path (health_body p res)))) = Some doc
    \<and> classes = jget ''class_results'' doc
    \<and> jint (jget ''ok_count'' doc) = (\<Sum>c\<leftarrow>jkeys classes. jint (jget ''ok'' (jget c classes)))
    \<and> jint (jget ''total_count'' doc) = (\<Sum>c\<leftarrow>jkeys classes. jint (jget ''total'' (jget c classes)))
    \<and> sorted (jkeys classes) \<and> distinct (jkeys classes)
    \<and> list_all (\<lambda>c. scored c \<and> jint (jget ''ok'' (jget c classes)) \<le> jint (jget ''total'' (jget c classes)))
        (jkeys classes)"
proof -
  define classes where "classes = JObj (map (\<lambda>(c, r). (utf8_text c, class_members r)) (class_results res))"
  note facts = check_facts[OF assms(1)]
  have "\<forall>c\<in>fst ` set (rs_ByClass res). is_ascii c"
    using facts(9) assms(2) by (auto simp: list_all_iff)
  then have same: "classes = JObj (map (\<lambda>c. (c, class_members \<lparr> eb_OK = cs_OK (class_get (rs_ByClass res) c),
      eb_Total = cs_Total (class_get (rs_ByClass res) c) \<rparr>)) (sort (map fst (rs_ByClass res))))"
    by (auto simp: classes_def class_results_def utf8_text_ascii)
  have keys: "jkeys classes = sort (map fst (rs_ByClass res))" by (simp add: same jkeys_def comp_def)
  have dist: "distinct (map fst (rs_ByClass res))" by (rule facts(10))
  have member: "jget c classes = JObj [(''ok'', JNum (Itoa (cs_OK (class_get (rs_ByClass res) c)))),
      (''total'', JNum (Itoa (cs_Total (class_get (rs_ByClass res) c))))]"
    if "c \<in> set (jkeys classes)" for c
    using that unfolding keys by (simp add: jget_def same class_members_def map_of_map_restrict restrict_map_def)
  have cs: "jint (jget ''ok'' (jget c classes)) = int (cs_OK (class_get (rs_ByClass res) c))"
    "jint (jget ''total'' (jget c classes)) = int (cs_Total (class_get (rs_ByClass res) c))"
    if "c \<in> set (jkeys classes)" for c
    using that by (simp_all add: member jget_def[of "''ok''"] jget_def[of "''total''"])
  have "set (jkeys classes) = fst ` set (rs_ByClass res)" by (simp add: keys)
  then have le: "scored c \<and> cs_OK (class_get (rs_ByClass res) c) \<le> cs_Total (class_get (rs_ByClass res) c)"
    if "c \<in> set (jkeys classes)" for c
    using that facts(9) check_class_sums(3)[OF assms(1), of c] by simp
  have sums: "(\<Sum>c\<leftarrow>jkeys classes. int (f c)) = int (\<Sum>c\<in>fst ` set (rs_ByClass res). f c)" for f
    using sum_list_sorted[OF dist, of "\<lambda>c. int (f c)"] by (simp add: keys)
  have "(\<Sum>c\<leftarrow>jkeys classes. jint (jget ''ok'' (jget c classes))) = int (rs_OKCount res)"
    "(\<Sum>c\<leftarrow>jkeys classes. jint (jget ''total'' (jget c classes))) = int (rs_Total res)"
    using sums by (simp_all add: cs check_class_sums(1,2)[OF assms(1)] cong: map_cong)
  moreover have "sorted (jkeys classes) \<and> distinct (jkeys classes)" using dist by (simp add: keys)
  moreover have "list_all (\<lambda>c. scored c \<and> jint (jget ''ok'' (jget c classes)) \<le> jint (jget ''total'' (jget c classes)))
        (jkeys classes)"
    using le by (simp add: list_all_iff cs)
  ultimately show ?thesis
    using health_parsed[of p res]
    by (intro exI[of _ "clean (health_body p res)"] exI[of _ classes]) (simp add: post_def health_member classes_def)
qed

subsection \<open>Concrete documents\<close>

definition operator_client :: Client where
  "operator_client = \<lparr> ic_ServerURL = ''https://op/'', ic_OperatorSecret = ''s'', ic_HTTP = None, ic_DueURL = [] \<rparr>"

definition sample_location :: ConsensusLocation where
  "sample_location = location0\<lparr> cl_CountryCode := ''de'', cl_Country := ''Germany'',
     cl_CountryConfident := True, cl_City := ''Berlin'', cl_ASN := 3320, cl_ProbedAt := 7 \<rparr>"

lemma sample_location_kept: "submit_refusal E (Some sample_location) = None"
  by (simp add: submit_refusal_def sample_location_def location0_def isAlpha2_iff in_rng_def TrimSpace_def plain_eval)

theorem submit_roundtrip_witness:
  "\<exists>doc. json_syntax (marshal (submit_body sample_env ''p'' sample_location)) = Some doc
     \<and> cl_City (read_location doc) = [] \<and> cl_Country (read_location doc) = ''Germany'' \<and> cl_ASN (read_location doc) = 3320
     \<and> cl_ProbedAt (read_location doc) = 7"
proof -
  have "marshal_error sample_env sample_location = None" "zone_ok sample_env sample_location"
    by (rule sample_marshals) (simp_all add: zone_ok_def sample_env_def sample_location_def location0_def)
  note kept = sample_location_kept this
  obtain doc where doc: "json_syntax (marshal (submit_body sample_env ''p'' sample_location)) = Some doc"
    "read_location doc = utf8_location (sample_location\<lparr> cl_City := [], cl_Region := [], cl_Sources := [] \<rparr>)"
    using submit_roundtrip[OF kept, of operator_client path "''p''" for path]
    by (auto simp: post_def sample_location_def location0_def)
  then show ?thesis
    by (simp add: utf8_location_def sample_location_def location0_def utf8_text_ascii is_ascii_def)
qed

theorem health_document_witness:
  "\<exists>r doc. check portal_lib None (Some portal_client) (\<lambda>_. 0) connectivity_destinations portal_options = Inr r
     \<and> json_syntax (marshal (health_body ''p'' r)) = Some doc \<and> sorted (jkeys (jget ''class_results'' doc))"
proof -
  obtain r where r: "check portal_lib None (Some portal_client) (\<lambda>_. 0) connectivity_destinations portal_options = Inr r"
    using portal_run by blast
  have "list_all (is_ascii \<circ> d_Class) connectivity_destinations"
    by (simp add: connectivity_destinations_def Destination.defs ClassConnectivity_def is_ascii_def)
  from health_document[OF r this, of operator_client "[]" "''p''"] show ?thesis
    using r by (auto simp: post_def)
qed

lemma sample_located: "\<exists>loc. LocateWithOptions latin_unicode sample_lib 7 (Some sample_client) opt = Inr loc"
proof -
  have "count_if (\<lambda>s. sr_OK (fetchSource sample_lib sample_client s (perSourceTimeout opt))) sources = 2"
    using sample_fetch[of "perSourceTimeout opt"] by (simp add: sources_def)
  then show ?thesis
    by (simp add: LocateWithOptions_def locate_def MinSources_def filter_map comp_def)
qed

theorem submit_confident_witness:
  "\<exists>loc. LocateWithOptions latin_unicode sample_lib 7 (Some sample_client) (per_source 0) = Inr loc
     \<and> Submit_location sample_env operator_client ''p'' (Some loc) \<noteq> Some (Sentinel ErrMissingProbedAt)"
proof -
  obtain loc where loc: "LocateWithOptions latin_unicode sample_lib 7 (Some sample_client) (per_source 0) = Inr loc"
    using sample_located by blast
  have "outcome [] (send E c req) \<noteq> Some (Sentinel ErrMissingProbedAt)" for E c req
    using send_transport[of E c req _ ErrMissingProbedAt]
    by (auto simp: outcome_def status_error_def wrapf_def split: sum.splits)
  then show ?thesis
    using loc submit_confident[OF latin_unicode_ok loc, of sample_env operator_client "''p''"]
    by (auto simp: marshal_error_def split: sum.splits)
qed

end
