(* ===== verification/Tunnel_Client.thy ===== *)
theory Tunnel_Client
  imports Main_Pins Ingest_Documents
begin

text \<open>
  The HTTP client of a tunnel: \<open>httpClientOverDialerWithHosts\<close> of \<open>providertunnel/tunnel.go\<close> as
  the \<open>http.Client\<close> that \<open>geolocate\<close> is handed. The provider under test is on the path: it
  chooses which peer an address leads to and what every peer answers. The theorems show that it
  cannot make a source say what it likes: an observation that counts came over a connection to
  a peer that holds a pinned key of that source.
\<close>

text \<open>
  The network behind the tunnel. The transport dials the address of an https URL; requests of
  another scheme go over a plain connection. A connection serves one request, since keep-alives
  and HTTP/2 are off and redirects are not followed. \<open>nw_idna\<close> maps a host name that is not
  ASCII; \<open>nw_stream\<close> is the answer to the \<open>i\<close>-th of concurrent requests whose body is timed.
\<close>

record network =
  nw_idna :: "string \<Rightarrow> string"
  nw_dial :: "string \<Rightarrow> string + peer"
  nw_answer :: "peer \<Rightarrow> duration \<Rightarrow> http_request \<Rightarrow> string + http_response"
  nw_plain :: "duration \<Rightarrow> http_request \<Rightarrow> string + http_response"
  nw_stream :: "peer \<Rightarrow> nat \<Rightarrow> http_request \<Rightarrow> string + stream_response"
  nw_plain_stream :: "nat \<Rightarrow> http_request \<Rightarrow> string + stream_response"
  nw_error :: "dial_error \<Rightarrow> string"

definition tls_address :: "network \<Rightarrow> string \<Rightarrow> string option" where
  "tls_address N url =
    (case Parse url of
       None \<Rightarrow> None
     | Some u \<Rightarrow> if u_Scheme u = ''https'' \<and> u_Host u \<noteq> [] then Some (canonicalAddr (nw_idna N) u) else None)"

text \<open>How the transport carries a request to the outside of the tunnel.\<close>

datatype carrier = InClear | OverTLS peer | NotSent dial_error

definition carry :: "unicode \<Rightarrow> crypto \<Rightarrow> network \<Rightarrow> pin_entries \<Rightarrow> string list \<Rightarrow> string \<Rightarrow> carrier" where
  "carry U C N pins extraHosts url =
    (case tls_address N url of
       None \<Rightarrow> InClear
     | Some addr \<Rightarrow>
        (case fst (DialTLSContext U C (nw_dial N) pins extraHosts addr) of
           Inl e \<Rightarrow> NotSent e
         | Inr p \<Rightarrow> OverTLS p))"

definition httpClientOverDialerWithHosts :: "unicode \<Rightarrow> crypto \<Rightarrow> network \<Rightarrow> pin_entries \<Rightarrow> string list
    \<Rightarrow> duration \<Rightarrow> http_client" where
  "httpClientOverDialerWithHosts U C N pins extraHosts timeout =
    \<lparr> do_request = (\<lambda>deadline req.
        let cap = (if 0 < timeout then min timeout deadline else deadline)
        in case carry U C N pins extraHosts (rq_URL req) of
             InClear \<Rightarrow> nw_plain N cap req
           | NotSent e \<Rightarrow> Inl (nw_error N e)
           | OverTLS p \<Rightarrow> nw_answer N p cap req) \<rparr>"

text \<open>The same client as the bandwidth measurement uses it.\<close>

definition streamsOverDialerWithHosts :: "unicode \<Rightarrow> crypto \<Rightarrow> network \<Rightarrow> pin_entries \<Rightarrow> string list \<Rightarrow> stream_client" where
  "streamsOverDialerWithHosts U C N pins extraHosts =
    \<lparr> sc_do = (\<lambda>i req. case carry U C N pins extraHosts (rq_URL req) of
         InClear \<Rightarrow> nw_plain_stream N i req
       | NotSent e \<Rightarrow> Inl (nw_error N e)
       | OverTLS p \<Rightarrow> nw_stream N p i req) \<rparr>"

definition httpClientOverDialer :: "unicode \<Rightarrow> crypto \<Rightarrow> network \<Rightarrow> pin_entries \<Rightarrow> duration \<Rightarrow> http_client" where
  "httpClientOverDialer U C N pins timeout = httpClientOverDialerWithHosts U C N pins [] timeout"

definition HTTPClientForHosts :: "unicode \<Rightarrow> crypto \<Rightarrow> network \<Rightarrow> tunnel \<Rightarrow> duration \<Rightarrow> string list \<Rightarrow> http_client" where
  "HTTPClientForHosts U C N t timeout extraHosts = httpClientOverDialerWithHosts U C N (tn_pins t) extraHosts timeout"

subsection \<open>What a provider cannot do\<close>

text \<open>
  \<open>crypto/tls\<close> reports a verified chain or an error, as its documentation says.
\<close>

definition standard_tls :: "network \<Rightarrow> bool" where
  "standard_tls N \<longleftrightarrow> (\<forall>addr p name verified. nw_dial N addr = Inr p \<and> pr_verify p name = Inr verified \<longrightarrow> verified \<noteq> [])"

lemma tls_address_plain:
  assumes "plain_https url"
  shows "tls_address N url = Some (JoinHostPort (https_name url) ''443'')"
proof -
  obtain path query where t: "plain_target ''https'' (https_name url) [] path" "query_bytes query"
    "url = plain_url ''https'' (https_name url) [] path @ query_part query"
    using plain_https_parts[OF assms] by blast
  have "Parse url = Some (plain_parsed ''https'' (https_name url) [] path query)"
    using Parse_plain[OF t(1,2)] t(3) by simp
  moreover have "https_name url \<noteq> []" using t(1) by (simp add: plain_target_def plain_name_def)
  ultimately show ?thesis
    using canonicalAddr_plain[OF t(1)] by (simp add: tls_address_def) (simp add: plain_parsed_def with_port_def)
qed

lemma source_url:
  assumes "s \<in> set sources"
  shows "hostname (src_URL s) = Some (https_name (src_URL s))" "plain_name (https_name (src_URL s))"
    "tls_address N (src_URL s) = Some (JoinHostPort (https_name (src_URL s)) ''443'')"
  using assms source_urls plain_https_hostname tls_address_plain by (auto simp: list_all_iff)

text \<open>A peer that proves, for a host, that it holds one of the keys.\<close>

definition holds_pin :: "peer \<Rightarrow> string \<Rightarrow> string list \<Rightarrow> bool" where
  "holds_pin p host allowed \<longleftrightarrow>
    (\<exists>verified. pr_verify p host = Inr verified \<and> (\<exists>chain\<in>set verified. \<exists>cert\<in>set chain. SPKIPin cert \<in> set allowed))"

lemma DialTLS_established:
  assumes "SplitHostPort addr = Some (host, port)" "is_ascii host"
    and "fst (DialTLSContext U C dial pins extra addr) = Inr p"
    and "\<And>verified. pr_verify p host = Inr verified \<Longrightarrow> verified \<noteq> []"
    and "normalizePins U pins (normalizeHost U host) = Some allowed"
  shows "dial addr = Inr p \<and> holds_pin p host allowed"
proof -
  have "host_bytes host" using SplitHostPort_parts[OF assms(1)] by blast
  then have nn: "normalizeHost U (normalizeHost U host) = normalizeHost U host"
    using normalizeHost_idem assms(2) by blast
  have d: "dial addr = Inr p" and hs: "tls_handshake (PinnedTLSConfigForHost U C pins host) p = None"
    using assms(1,3) by (auto simp: DialTLSContext_def Let_def split: if_splits sum.splits option.splits)
  obtain verified where v: "pr_verify p host = Inr verified"
    using hs by (cases "pr_verify p host") (auto simp: tls_handshake_def PinnedTLSConfigForHost_def)
  then show ?thesis
    using hs d assms(4)[OF v] assms(5) nn
    by (auto simp: tls_handshake_def PinnedTLSConfigForHost_def PinVerifier_def checkPin_def pin_in_def
        list_ex_iff holds_pin_def split: if_splits)
qed

lemma covered_pin:
  assumes "covers pins" "s \<in> set sources" "hostname (src_URL s) = Some h" "h \<noteq> []"
  shows "\<exists>allowed. normalizePins U pins (normalizeHost U h) = Some allowed \<and> full_pin allowed"
proof -
  have "h \<in> set SourceHosts"
    using assms(2,3,4) unfolding SourceHosts_def hosts_of_set by auto
  then have "normalizeHost U h \<in> dom (normalizePins U pins)"
    using assms(1) unfolding normalizePins_dom covers_def by (metis image_eqI list.set_map)
  then obtain allowed where a: "normalizePins U pins (normalizeHost U h) = Some allowed" by blast
  then show ?thesis
    using normalizePins_entry[OF a] assms(1) by (auto simp: covers_def list_all_iff)
qed

subsection \<open>The channel that \<open>Locate\<close> needs\<close>

lemma locate_sources:
  assumes "locate U L now (Some c) srcs d = Inr loc" "r \<in> set (cl_Sources loc)"
  shows "\<exists>s\<in>set srcs. r = fetchSource L c s (perSourceTimeout d)"
  using assms by (auto simp: locate_def Let_def split: if_splits)

lemma locate_errors: "locate U L now (Some c) srcs d = Inl e \<Longrightarrow> e = ErrNoConsensus"
  by (auto simp: locate_def Let_def split: if_splits)

lemma locate_quorum:
  "locate U L now (Some c) srcs d = Inr loc \<Longrightarrow> MinSources \<le> length (filter sr_OK (cl_Sources loc))"
  by (auto simp: locate_def Let_def split: if_splits)

text \<open>
  What a location rests on: a client for which every answer to the request of a source has some
  property, whatever the deadline. Then every source that counts in a location was parsed from an
  answer with it, and without such an answer there is no location.
\<close>

locale source_channel =
  fixes client :: http_client and genuine :: "source \<Rightarrow> http_response \<Rightarrow> bool"
  assumes channel: "s \<in> set sources \<Longrightarrow> do_request client d (GET (src_URL s) []) = Inr resp \<Longrightarrow> genuine s resp"
begin

lemma fetched:
  assumes "s \<in> set sources" "sr_OK (fetchSource L client s d)"
  shows "\<exists>resp parsed. genuine s resp \<and> src_Parse s L (bd_data (hr_Body resp)) = Inr parsed
    \<and> fetchSource L client s d = parsed\<lparr> sr_Name := src_Name s, sr_OK := True \<rparr>"
proof -
  obtain resp parsed where r: "answered client d s resp" "src_Parse s L (bd_data (hr_Body resp)) = Inr parsed"
    "fetchSource L client s d = parsed\<lparr> sr_Name := src_Name s, sr_OK := True \<rparr>"
    using assms(2) fetchSource_spec by blast
  then show ?thesis using channel[OF assms(1)] unfolding answered_def by blast
qed

lemma located:
  assumes "LocateWithOptions U L now (Some client) d = Inr loc"
  shows "list_all (\<lambda>r. \<exists>s\<in>set sources. \<exists>resp parsed. genuine s resp \<and> src_Parse s L (bd_data (hr_Body resp)) = Inr parsed
    \<and> r = parsed\<lparr> sr_Name := src_Name s, sr_OK := True \<rparr>) (filter sr_OK (cl_Sources loc))"
proof -
  have "\<exists>s\<in>set sources. \<exists>resp parsed. genuine s resp \<and> src_Parse s L (bd_data (hr_Body resp)) = Inr parsed
      \<and> r = parsed\<lparr> sr_Name := src_Name s, sr_OK := True \<rparr>" if r: "r \<in> set (cl_Sources loc)" "sr_OK r" for r
  proof -
    obtain s where "s \<in> set sources" "r = fetchSource L client s (perSourceTimeout d)"
      using locate_sources[OF assms[unfolded LocateWithOptions_def] r(1)] by blast
    then show ?thesis using fetched[of s L "perSourceTimeout d"] r(2) by blast
  qed
  then show ?thesis by (simp add: list_all_iff)
qed

lemma needs_genuine:
  assumes "LocateWithOptions U L now (Some client) d = Inr loc"
  shows "\<exists>s\<in>set sources. \<exists>resp. genuine s resp"
proof -
  have "filter sr_OK (cl_Sources loc) \<noteq> []"
    using locate_quorum[OF assms[unfolded LocateWithOptions_def]] by (auto simp: MinSources_def)
  then show ?thesis using located[OF assms] by (cases "filter sr_OK (cl_Sources loc)") auto
qed

end

text \<open>
  The client of a tunnel is such a channel: with pins that cover the sources, an answer comes from
  a peer that holds a pinned key of the source's host.
\<close>

definition pinned_answer :: "unicode \<Rightarrow> network \<Rightarrow> pin_entries \<Rightarrow> source \<Rightarrow> http_response \<Rightarrow> bool" where
  "pinned_answer U N pins s resp \<longleftrightarrow>
    (\<exists>host allowed p cap. hostname (src_URL s) = Some host
     \<and> normalizePins U pins (normalizeHost U host) = Some allowed \<and> full_pin allowed
     \<and> nw_dial N (JoinHostPort host ''443'') = Inr p \<and> holds_pin p host allowed
     \<and> nw_answer N p cap (GET (src_URL s) []) = Inr resp)"

lemma answer_pinned:
  assumes "covers pins" "standard_tls N" "s \<in> set sources"
    and "do_request (httpClientOverDialerWithHosts U C N pins extra timeout) d (GET (src_URL s) []) = Inr resp"
  shows "pinned_answer U N pins s resp"
proof -
  obtain h where h: "hostname (src_URL s) = Some h" "h \<noteq> []" "is_ascii h" "host_bytes h"
    "tls_address N (src_URL s) = Some (JoinHostPort h ''443'')"
    using source_url[OF assms(3)] plain_name_ok by blast
  define cap where "cap = (if 0 < timeout then min timeout d else d)"
  obtain p where p: "fst (DialTLSContext U C (nw_dial N) pins extra (JoinHostPort h ''443'')) = Inr p"
    "nw_answer N p cap (GET (src_URL s) []) = Inr resp"
    using assms(4) h(5) by (auto simp: httpClientOverDialerWithHosts_def carry_def Let_def GET_def cap_def split: sum.splits)
  have sp: "SplitHostPort (JoinHostPort h ''443'') = Some (h, ''443'')"
    using SplitHostPort_Join[OF h(4), of "''443''"] by (simp add: port_bytes_def)
  obtain allowed where a: "normalizePins U pins (normalizeHost U h) = Some allowed" "full_pin allowed"
    using covered_pin[OF assms(1,3) h(1,2)] by blast
  have dial: "nw_dial N (JoinHostPort h ''443'') = Inr p"
    using p(1) sp by (auto simp: DialTLSContext_def Let_def split: if_splits sum.splits option.splits)
  then have "pr_verify p h = Inr verified \<Longrightarrow> verified \<noteq> []" for verified
    using assms(2) by (auto simp: standard_tls_def)
  from DialTLS_established[OF sp h(3) p(1) this a(1)] have "holds_pin p h allowed" by blast
  then show ?thesis unfolding pinned_answer_def using h(1) a dial p(2) by blast
qed

interpretation tunnel_channel: source_channel "httpClientOverDialerWithHosts U C N pins extra timeout"
  "\<lambda>s resp. covers pins \<and> standard_tls N \<longrightarrow> pinned_answer U N pins s resp"
  by unfold_locales (blast intro: answer_pinned)

text \<open>An observation of a source that came from a peer with a pinned key of the source's host.\<close>

definition authentic :: "unicode \<Rightarrow> stdlib \<Rightarrow> network \<Rightarrow> pin_entries \<Rightarrow> SourceResult \<Rightarrow> bool" where
  "authentic U L N pins r \<longleftrightarrow>
    (\<exists>s\<in>set sources. \<exists>resp parsed. pinned_answer U N pins s resp
     \<and> src_Parse s L (bd_data (hr_Body resp)) = Inr parsed \<and> r = parsed\<lparr> sr_Name := src_Name s, sr_OK := True \<rparr>)"

lemma located_authentic:
  assumes "covers pins" "standard_tls N"
    and "LocateWithOptions U L now (Some (httpClientOverDialerWithHosts U C N pins extra timeout)) d = Inr loc"
  shows "list_all (authentic U L N pins) (filter sr_OK (cl_Sources loc))"
  using tunnel_channel.located[OF assms(3)] assms(1,2) unfolding authentic_def list_all_iff by blast

text \<open>A provider none of whose peers holds a pinned key of a source.\<close>

definition forging :: "unicode \<Rightarrow> network \<Rightarrow> pin_entries \<Rightarrow> bool" where
  "forging U N pins \<longleftrightarrow>
    (\<forall>s\<in>set sources. \<forall>host p allowed. hostname (src_URL s) = Some host \<and> nw_dial N (JoinHostPort host ''443'') = Inr p
       \<and> normalizePins U pins (normalizeHost U host) = Some allowed \<longrightarrow> \<not> holds_pin p host allowed)"

lemma forging_no_answer: "forging U N pins \<Longrightarrow> s \<in> set sources \<Longrightarrow> \<not> pinned_answer U N pins s resp"
  by (auto simp: forging_def pinned_answer_def)

text \<open>
  C5. A provider cannot forge its location: every source that counts in a location found through
  a tunnel, with pins that cover the sources, answered over a connection to a peer that holds one
  of the pinned keys of the source's host on a chain that TLS verified, whichever peers the
  provider connects the tunnel to. If it offers no such peer the location is not determined.
\<close>

theorem location_unforgeable:
  assumes "covers pins" and "standard_tls N"
  shows "case LocateWithOptions U L now (Some (httpClientOverDialerWithHosts U C N pins extra timeout)) d of
      Inl e \<Rightarrow> e = ErrNoConsensus
    | Inr loc \<Rightarrow> list_all (authentic U L N pins) (filter sr_OK (cl_Sources loc))
        \<and> \<not> forging U N pins"
proof (cases "LocateWithOptions U L now (Some (httpClientOverDialerWithHosts U C N pins extra timeout)) d")
  case (Inl e)
  then show ?thesis using locate_errors by (simp add: LocateWithOptions_def)
next
  case (Inr loc)
  then show ?thesis
    using tunnel_channel.needs_genuine[OF Inr] assms located_authentic[OF assms Inr] forging_no_answer by fastforce
qed

subsection \<open>A forging provider\<close>

text \<open>It terminates every connection itself, with a certificate of some trusted CA.\<close>

definition forged_network :: network where
  "forged_network = \<lparr> nw_idna = id, nw_dial = (\<lambda>_. Inr forging_peer),
     nw_answer = (\<lambda>p t req. Inr \<lparr> hr_StatusCode = 200, hr_Header = Map.empty,
        hr_Body = \<lparr> bd_data = ''{}'', bd_err = None \<rparr> \<rparr>),
     nw_plain = (\<lambda>t req. Inl ''plain''), nw_stream = (\<lambda>p i req. Inl ''reset''),
     nw_plain_stream = (\<lambda>i req. Inl ''plain''), nw_error = (\<lambda>_. ''tls'') \<rparr>"

text \<open>The provider's certificate carries none of the pins.\<close>

lemma sample_pins_entry: "normalizePins U sample_pins k = Some allowed \<Longrightarrow> allowed = [good_pin, spare_pin]"
  using normalizePins_entry[of U sample_pins k allowed] by (auto simp: sample_pins_def)

theorem location_unforgeable_witness:
  "LocateWithOptions latin_unicode sample_lib 7 (Some (httpClientOverDialerWithHosts latin_unicode sample_crypto
      forged_network sample_pins [] Second)) (per_source Second) = Inl ErrNoConsensus"
proof -
  have tls: "standard_tls forged_network"
    by (auto simp: standard_tls_def forged_network_def forging_peer_def)
  have "forging latin_unicode forged_network sample_pins"
    by (auto simp: forging_def forged_network_def forging_peer_def holds_pin_def SPKIPin_def elim: forged_pin[THEN notE]
        dest!: sample_pins_entry)
  then show ?thesis
    using location_unforgeable[OF sample_pins_cover tls, where U = latin_unicode and L = sample_lib and now = 7
        and C = sample_crypto and extra = "[]" and timeout = Second and d = "per_source Second"]
    by (auto split: sum.splits)
qed

end
