(* ===== verification/Main_Allowlist.thy ===== *)
theory Main_Allowlist
  imports Main_Confinement Tunnel_Client
begin

text \<open>
  The URLs of a probe: those of the source table, of the destination table and of the sized
  bandwidth targets. Each makes the transport dial the address of a host that one of these tables
  names; which requests carry the operator's secret, and how they leave the tunnel.
\<close>

definition probe_urls :: "(string \<Rightarrow> string) \<Rightarrow> Target list \<Rightarrow> string set" where
  "probe_urls urlText targets = src_URL ` set sources \<union> d_URL ` set destinations
     \<union> {u. \<exists>t\<in>set targets. sizedURL urlText (tg_URL t) StreamBytes = Inr u}"

text \<open>The bandwidth targets whose URLs are plain.\<close>

definition plain_tg :: "Target \<Rightarrow> bool" where
  "plain_tg t \<longleftrightarrow> (\<exists>scheme h port path. plain_target scheme h port path \<and> tg_URL t = plain_url scheme h port path)"

lemma operator_plain: "plain_base api \<Longrightarrow> plain_tg (OperatorTarget api secret)"
  using plain_base_target[of api "''/network/provider-bandwidth-test''"]
  by (auto simp: plain_tg_def OperatorTarget_def url_eval)

lemma cdn_plain_tg: "plain_tg CDNTarget"
  unfolding plain_tg_def CDNTarget_def using cdn_plain by auto

lemma default_plain: "(TrimSpace api \<noteq> [] \<Longrightarrow> plain_base api) \<Longrightarrow> list_all plain_tg (DefaultTargets api secret)"
  using operator_plain cdn_plain_tg by (auto simp: DefaultTargets_def)

subsection \<open>Where a request goes\<close>

lemma port_plain: "list_all is_digit_char port \<Longrightarrow> port_bytes port"
  using plain_port_free[of port] by (auto simp: port_bytes_def)

lemma SplitHostPort_plain:
  "plain_name h \<Longrightarrow> list_all is_digit_char port \<Longrightarrow> SplitHostPort (JoinHostPort h port) = Some (h, port)"
  using SplitHostPort_Join plain_name_ok port_plain by blast

lemma digits_443: "list_all is_digit_char ''443''" "list_all is_digit_char ''80''"
  by (simp_all add: is_digit_char_def in_rng_def)

lemma sized_request:
  assumes "plain_tg t" "sizedURL urlText (tg_URL t) StreamBytes = Inr url"
  shows "NewRequest urlText url = None
    \<and> (\<exists>h port. plain_name h \<and> list_all is_digit_char port \<and> hostname (tg_URL t) = Some h
        \<and> (tls_address N url = None \<or> tls_address N url = Some (JoinHostPort h port)))"
proof -
  obtain scheme h port path where t: "plain_target scheme h port path" "tg_URL t = plain_url scheme h port path"
    using assms(1) by (auto simp: plain_tg_def)
  have parsed: "Parse url = Some (plain_parsed scheme h port path (''bytes='' @ Itoa StreamBytes))"
    using sized_plain[OF t(1), where n = StreamBytes] assms(2) t(2) by simp
  have names: "plain_name h" "list_all is_digit_char port" using t(1) by (simp_all add: plain_target_def)
  have "hostname (tg_URL t) = Some h"
    using hostname_plain[OF t(1), of "[]"] t(2) by (simp add: query_bytes_def query_part_def)
  moreover have "tls_address N url = None
      \<or> tls_address N url = Some (JoinHostPort h (if port \<noteq> [] then port else if scheme = ''https'' then ''443'' else ''80''))"
    using canonicalAddr_plain[OF t(1)] by (simp add: tls_address_def parsed)
  moreover have "list_all is_digit_char (if port \<noteq> [] then port else if scheme = ''https'' then ''443'' else ''80'')"
    using names(2) digits_443 by simp
  ultimately show ?thesis using names(1) parsed by auto
qed

lemma probe_request:
  assumes "list_all plain_tg targets" "url \<in> probe_urls urlText targets"
  shows "NewRequest urlText url = None
    \<and> (tls_address N url = None
      \<or> (\<exists>h port. plain_name h \<and> list_all is_digit_char port \<and> tls_address N url = Some (JoinHostPort h port)
          \<and> h \<in> set (SourceHosts @ DestinationHosts @ TargetHosts targets)))"
proof -
  consider (table) "plain_https url" "https_name url \<in> set (SourceHosts @ DestinationHosts)"
    | (target) t where "t \<in> set targets" "sizedURL urlText (tg_URL t) StreamBytes = Inr url"
  proof -
    have "plain_https u \<and> https_name u \<in> set SourceHosts" if "u \<in> src_URL ` set sources" for u
    proof -
      have "plain_https u" using that source_urls by (auto simp: list_all_iff)
      moreover have "https_name u \<in> set SourceHosts"
        unfolding SourceHosts_def hosts_of_set using that plain_https_hostname[OF calculation] by (auto simp: plain_name_def)
      ultimately show ?thesis by blast
    qed
    moreover have "plain_https u \<and> https_name u \<in> set DestinationHosts" if "u \<in> d_URL ` set destinations" for u
      using that destination_urls by (auto simp: destination_host)
    ultimately show thesis using that assms(2) by (auto simp: probe_urls_def)
  qed
  then show ?thesis
  proof cases
    case table
    have "https_name url \<in> set (SourceHosts @ DestinationHosts @ TargetHosts targets)" using table(2) by auto
    moreover have "NewRequest urlText url = None" using plain_https_parsed[OF table(1)] by (simp add: NewRequest_None)
    ultimately show ?thesis
      using tls_address_plain[OF table(1), of N] plain_https_hostname(2)[OF table(1)] digits_443(1) by blast
  next
    case target
    then have p: "plain_tg t" using assms(1) by (simp add: list_all_iff)
    obtain h port where h: "plain_name h" "list_all is_digit_char port" "hostname (tg_URL t) = Some h"
      "tls_address N url = None \<or> tls_address N url = Some (JoinHostPort h port)" "NewRequest urlText url = None"
      using sized_request[OF p target(2), of N] by blast
    have "h \<in> set (TargetHosts targets)"
      using target(1) h(1,3) by (auto simp: TargetHosts_def List.map_filter_def plain_name_def intro!: image_eqI[of _ _ t])
    then show ?thesis using h by auto
  qed
qed

subsection \<open>Who sees the operator's secret\<close>

definition scheme_of :: "string \<Rightarrow> string option" where
  "scheme_of url = map_option u_Scheme (Parse url)"

lemma DialTLS_verified:
  assumes "SplitHostPort addr = Some (host, port)" "fst (DialTLSContext U C dial pins extra addr) = Inr p"
  shows "dial addr = Inr p \<and> (\<exists>verified. pr_verify p host = Inr verified)"
  using assms by (auto simp: DialTLSContext_def tls_handshake_def PinnedTLSConfigForHost_def Let_def
      split: if_splits sum.splits option.splits)

lemma sized_carrier:
  assumes "plain_target scheme h port path" "tg_URL t = plain_url scheme h port path"
    and "sizedURL urlText (tg_URL t) n = Inr url"
  shows "scheme_of url = Some scheme \<and> (carry U C N pins extra url = InClear \<longleftrightarrow> scheme = ''http'')
    \<and> (\<forall>p. carry U C N pins extra url = OverTLS p \<longrightarrow> (\<exists>verified. pr_verify p h = Inr verified))"
proof -
  have parsed: "Parse url = Some (plain_parsed scheme h port path (''bytes='' @ Itoa n))"
    using sized_plain[OF assms(1), where n = n] assms(2,3) by simp
  have names: "plain_name h" "list_all is_digit_char port" "web_scheme scheme" using assms(1) by (simp_all add: plain_target_def)
  then have host: "with_port h port \<noteq> []" by (auto simp: with_port_def plain_name_def)
  let ?port = "if port \<noteq> [] then port else if scheme = ''https'' then ''443'' else ''80''"
  have fields: "u_Scheme (plain_parsed scheme h port path q) = scheme" "u_Host (plain_parsed scheme h port path q) = with_port h port" for q
    by (simp_all add: plain_parsed_def)
  have addr: "tls_address N url = (if scheme = ''https'' then Some (JoinHostPort h ?port) else None)"
    unfolding tls_address_def parsed option.case fields canonicalAddr_plain[OF assms(1)]
    by (simp only: host simp_thms not_False_eq_True)
  have split: "SplitHostPort (JoinHostPort h ?port) = Some (h, ?port)"
    using names digits_443 by (intro SplitHostPort_plain) simp_all
  have "scheme_of url = Some scheme" by (simp add: scheme_of_def parsed fields)
  moreover have "carry U C N pins extra url = InClear \<longleftrightarrow> scheme = ''http''"
    using names(3) by (auto simp: carry_def addr web_scheme_def split: sum.splits)
  moreover have "\<exists>verified. pr_verify p h = Inr verified" if "carry U C N pins extra url = OverTLS p" for p
    using that DialTLS_verified[OF split] by (auto simp: carry_def addr split: if_splits sum.splits)
  ultimately show ?thesis by blast
qed

lemma no_secret_elsewhere:
  "''X-Ur-Operator-Secret'' \<notin> fst ` set (tg_Header CDNTarget)"
  "d \<in> set destinations \<Longrightarrow> ''X-Ur-Operator-Secret'' \<notin> fst ` set (rq_Header (check_request d))"
proof -
  have rows: "list_all (\<lambda>d. ''X-Ur-Operator-Secret'' \<notin> fst ` set (d_Headers d)) ds"
    if "ds \<in> {dns_destinations, connectivity_destinations, cdn_destinations, site_destinations_1, site_destinations_2,
        site_destinations_3, site_destinations_4, site_destinations_5, reputation_destinations}" for ds
    using that by (auto simp: destination_rows Destination.make_def)
  show "''X-Ur-Operator-Secret'' \<notin> fst ` set (tg_Header CDNTarget)" by (simp add: CDNTarget_def)
  show "''X-Ur-Operator-Secret'' \<notin> fst ` set (rq_Header (check_request d))" if "d \<in> set destinations"
    using that rows by (auto simp: check_request_def GET_def destination_parts list_all_iff)
qed

end
