(* ===== verification/Genuine_Tunnel.thy ===== *)
theory Genuine_Tunnel
  imports Tunnel_Client
begin

text \<open>
  A concrete tunnel through an honest provider, for the witnesses of the process: every address
  leads to a peer that holds a pinned key, two of the three sources answer with the same country,
  and the location that the consensus finds through it is confident.
\<close>

definition genuine_lib :: stdlib where
  "genuine_lib = \<lparr> json_text = (\<lambda>_. ''invalid''), url_text = id, print_table = (\<lambda>_. False) \<rparr>"

definition genuine_doc :: json where
  "genuine_doc = JObj [(''countryCode'', JStr ''DE''), (''countryName'', JStr ''Germany''), (''country'', JStr ''DE'')]"

definition genuine_text :: string where
  "genuine_text = marshal genuine_doc"

definition genuine_peer :: peer where
  "genuine_peer = \<lparr> pr_rawCerts = [''abc''], pr_verify = (\<lambda>_. Inr [[\<lparr> RawSubjectPublicKeyInfo = ''abc'' \<rparr>]]) \<rparr>"

definition genuine_network :: network where
  "genuine_network = \<lparr> nw_idna = id, nw_dial = (\<lambda>_. Inr genuine_peer),
     nw_answer = (\<lambda>p t req. Inr \<lparr> hr_StatusCode = (if rq_URL req = ''https://api.i.pn/json'' then 503 else 200),
        hr_Header = Map.empty, hr_Body = \<lparr> bd_data = genuine_text, bd_err = None \<rparr> \<rparr>),
     nw_plain = (\<lambda>t req. Inl ''plain''), nw_stream = (\<lambda>p i req. Inl ''reset''),
     nw_plain_stream = (\<lambda>i req. Inl ''plain''), nw_error = (\<lambda>_. ''tls'') \<rparr>"

lemma genuine_standard: "standard_tls genuine_network"
  by (auto simp: standard_tls_def genuine_network_def genuine_peer_def)

lemma genuine_carry:
  assumes "s \<in> set sources"
  shows "carry latin_unicode sample_crypto genuine_network sample_pins extra (src_URL s) = OverTLS genuine_peer"
proof -
  define h where "h = https_name (src_URL s)"
  have h: "hostname (src_URL s) = Some h" "plain_name h" "tls_address genuine_network (src_URL s) = Some (JoinHostPort h ''443'')"
    using source_url[OF assms] by (simp_all add: h_def)
  then have hp: "h \<noteq> []" "host_bytes h" using plain_name_ok by blast+
  have split: "SplitHostPort (JoinHostPort h ''443'') = Some (h, ''443'')"
    using SplitHostPort_Join[OF hp(2), of "''443''"] by (simp add: port_bytes_def)
  obtain allowed where a: "normalizePins latin_unicode sample_pins (normalizeHost latin_unicode h) = Some allowed"
    using covered_pin[OF sample_pins_cover assms h(1) hp(1)] by blast
  then have al: "allowed = [good_pin, spare_pin]" by (rule sample_pins_entry)
  have "is_ascii h" using plain_name_ok[OF h(2)] by blast
  then have nn: "normalizeHost latin_unicode (normalizeHost latin_unicode h) = normalizeHost latin_unicode h"
    using normalizeHost_idem hp(2) by blast
  have "tls_handshake (PinnedTLSConfigForHost latin_unicode sample_crypto sample_pins h) genuine_peer = None"
    by (simp add: tls_handshake_def PinnedTLSConfigForHost_def genuine_peer_def PinVerifier_def checkPin_def nn a al
        pin_in_def SPKIPin_def good_pin_key)
  moreover have "allowed_hosts latin_unicode sample_pins extra (normalizeHost latin_unicode h) \<noteq> None"
    using allowed_hosts_pinned[OF a] by simp
  ultimately have "fst (DialTLSContext latin_unicode sample_crypto (nw_dial genuine_network) sample_pins extra
      (JoinHostPort h ''443'')) = Inr genuine_peer"
    by (simp add: DialTLSContext_def split genuine_network_def Let_def)
  then show ?thesis by (simp add: carry_def h(3))
qed

abbreviation genuine_client :: "string list \<Rightarrow> duration \<Rightarrow> http_client" where
  "genuine_client extra timeout \<equiv>
    httpClientOverDialerWithHosts latin_unicode sample_crypto genuine_network sample_pins extra timeout"

lemma genuine_do:
  assumes "s \<in> set sources"
  shows "do_request (genuine_client extra timeout) d (GET (src_URL s) hs)
    = Inr \<lparr> hr_StatusCode = (if src_URL s = ''https://api.i.pn/json'' then 503 else 200), hr_Header = Map.empty,
        hr_Body = \<lparr> bd_data = genuine_text, bd_err = None \<rparr> \<rparr>"
  using genuine_carry[OF assms, of extra]
  by (simp add: httpClientOverDialerWithHosts_def Let_def GET_def) (simp add: genuine_network_def)

lemma genuine_keys:
  "key_is ''countryCode'' ''countryCode''" "\<not> key_is ''countryCode'' ''countryName''" "\<not> key_is ''countryCode'' ''country''"
  "key_is ''country'' ''country''" "\<not> key_is ''country'' ''countryCode''" "\<not> key_is ''country'' ''countryName''"
  by (simp_all add: key_is_def fold_key_def plain_eval)

lemma genuine_other_keys:
  "k \<in> {''cityName'', ''regionName'', ''isProxy'', ''city'', ''region'', ''org''} \<Longrightarrow>
    \<not> key_is k ''countryCode'' \<and> \<not> key_is k ''countryName'' \<and> \<not> key_is k ''country''"
  by (auto simp: key_is_def fold_key_def plain_eval)

lemma genuine_read: "json_syntax genuine_text = Some genuine_doc"
proof -
  have "writable maxNestingDepth genuine_doc" by (simp add: genuine_doc_def maxNestingDepth_def)
  moreover have "clean genuine_doc = genuine_doc" by (simp add: genuine_doc_def utf8_text_ascii is_ascii_def)
  ultimately show ?thesis using json_syntax_marshal by (simp add: genuine_text_def)
qed

lemma genuine_short: "length genuine_text \<le> MaxResponseBytes"
  by (simp add: genuine_text_def genuine_doc_def marshal_string_def chunks_is_ascii is_ascii_def escape_chunk_def
      escape_ascii_def MaxResponseBytes_def)

lemma genuine_parse:
  "\<exists>r. parseFreeIpApi genuine_lib genuine_text = Inr r \<and> sr_CountryCode r = ''DE''"
  "\<exists>r. parseIpInfo genuine_lib genuine_text = Inr r \<and> sr_CountryCode r = ''DE''"
  unfolding parseFreeIpApi_def parseIpInfo_def unmarshal_def genuine_read using genuine_keys genuine_other_keys
  by (simp_all add: genuine_doc_def struct_members_def well_typed_def members_def str_member_def str_type_def bool_type_def Let_def split_beta)

lemma genuine_results:
  "\<exists>r1 r2. filter sr_OK (map (\<lambda>s. fetchSource genuine_lib (genuine_client extra timeout) s d) sources) = [r1, r2]
    \<and> sr_CountryCode r1 = ''DE'' \<and> sr_CountryCode r2 = ''DE''"
proof -
  obtain a b where p: "parseFreeIpApi genuine_lib genuine_text = Inr a" "sr_CountryCode a = ''DE''"
    "parseIpInfo genuine_lib genuine_text = Inr b" "sr_CountryCode b = ''DE''"
    using genuine_parse by blast
  have f: "fetchSource genuine_lib (genuine_client extra timeout) s d =
      (if src_URL s = ''https://api.i.pn/json'' then failed (src_Name s) (''status '' @ Itoa 503)
       else case src_Parse s genuine_lib genuine_text of
         Inl err \<Rightarrow> failed (src_Name s) err | Inr parsed \<Rightarrow> parsed\<lparr> sr_Name := src_Name s, sr_OK := True \<rparr>)"
    if "s \<in> set sources" for s
  proof -
    have "NewRequest (url_text genuine_lib) (src_URL s) = None"
      using that source_urls plain_https_parsed by (auto simp: list_all_iff NewRequest_None)
    then show ?thesis using genuine_do[OF that, of extra timeout d "[]"] genuine_short
      by (simp add: fetchSource_def read_limited_def)
  qed
  have "map (\<lambda>s. fetchSource genuine_lib (genuine_client extra timeout) s d) sources
      = map (\<lambda>s. if src_URL s = ''https://api.i.pn/json'' then failed (src_Name s) (''status '' @ Itoa 503)
       else case src_Parse s genuine_lib genuine_text of
         Inl err \<Rightarrow> failed (src_Name s) err | Inr parsed \<Rightarrow> parsed\<lparr> sr_Name := src_Name s, sr_OK := True \<rparr>) sources"
    by (rule map_cong[OF refl]) (rule f)
  then show ?thesis using p by (simp add: sources_def failed_fields)
qed

lemma genuine_votes:
  assumes "sr_CountryCode r1 = ''DE''" "sr_CountryCode r2 = ''DE''"
  shows "cl_CountryConfident (consensus latin_unicode [r1, r2])"
proof -
  have n: "normalizeCountry latin_unicode ''DE'' = ''de''"
    by (simp add: normalizeCountry_def ToLower_def TrimSpace_def plain_eval)
  have v: "country_votes latin_unicode [r1, r2] c = (if c = ''de'' then 2 else 0)" for c
    using assms n by (auto simp: country_votes_def)
  have e: "en_code (elected latin_unicode [r1, r2]) = ''de''" "en_votes (elected latin_unicode [r1, r2]) = 2"
    using elected_if[of "''de''" latin_unicode "[r1, r2]"] v by (auto simp: MinSources_def isAlpha2_iff in_rng_def)
  then show ?thesis
    using elected_name_iso[of latin_unicode "[r1, r2]"] Germany_named
    unfolding consensus_def consensus_country_elected_eq flag_fold_fields consensus_asn_fields consensus_city_fields
    by (simp add: consensus_def consensus_country_elected_eq MinSources_def isAlpha2_iff in_rng_def)
qed

lemma genuine_located:
  "\<exists>loc. LocateWithOptions latin_unicode genuine_lib 7 (Some (genuine_client extra timeout)) d = Inr loc
    \<and> cl_CountryConfident loc"
proof -
  obtain r1 r2 where r: "filter sr_OK (map (\<lambda>s. fetchSource genuine_lib (genuine_client extra timeout) s (perSourceTimeout d)) sources)
      = [r1, r2]" "sr_CountryCode r1 = ''DE''" "sr_CountryCode r2 = ''DE''"
    using genuine_results by blast
  then show ?thesis
    using genuine_votes[OF r(2,3)] by (simp add: LocateWithOptions_def locate_def Let_def MinSources_def)
qed

end
