(* ===== verification/Prober.thy ===== *)
theory Prober
  imports Consensus Health_Check Go_Errors
begin

text \<open>
  \<open>prober/prober.go\<close>: one probe of one provider. The tunnel opener, the locator, the server and
  the diagnostics are parameters over a state \<open>'w\<close> of the world that every call may change;
  \<open>'c\<close> is the HTTP client of a tunnel. A probe's visible behaviour is the list of its events.
  The relation \<open>phase_step\<close> is the protocol a probe must follow; the lemmas show that every
  probe follows it and that the diagnostics do not change a probe's outcome.
\<close>

subsection \<open>Failure classes\<close>

definition FailureTunnel :: string where "FailureTunnel = ''tunnel_failed''"
definition FailureNoConsensus :: string where "FailureNoConsensus = ''no_consensus''"
definition FailureLocate :: string where "FailureLocate = ''locate_failed''"
definition FailureNotConfident :: string where "FailureNotConfident = ''not_confident''"
definition FailureSubmit :: string where "FailureSubmit = ''submit_failed''"

lemmas failures = FailureTunnel_def FailureNoConsensus_def FailureLocate_def
  FailureNotConfident_def FailureSubmit_def

subsection \<open>The prober and its state\<close>

text \<open>A nil field is \<open>None\<close>; an opened tunnel is its client and its close function.\<close>

record ('w, 'c) Prober =
  pr_Open :: "string \<Rightarrow> 'w \<Rightarrow> (err + 'c \<times> ('w \<Rightarrow> 'w) option) \<times> 'w"
  pr_Locate :: "'c \<Rightarrow> 'w \<Rightarrow> (err + ConsensusLocation option) \<times> 'w"
  pr_Submit :: "string \<Rightarrow> ConsensusLocation option \<Rightarrow> 'w \<Rightarrow> err option \<times> 'w"
  pr_Health :: "('c \<Rightarrow> 'w \<Rightarrow> (err + Result option) \<times> 'w) option"
  pr_HealthResults :: "(string \<Rightarrow> Result option \<Rightarrow> 'w \<Rightarrow> err option \<times> 'w) option"
  pr_Bandwidth :: "(string \<Rightarrow> 'c \<Rightarrow> 'w \<Rightarrow> 'w) option"
  pr_Attempts :: "(string \<Rightarrow> string \<Rightarrow> 'w \<Rightarrow> err option \<times> 'w) option"
  pr_CtxErr :: "'w \<Rightarrow> string option"

datatype event =
    EOpen "err option" | ELocate "err option" | ESubmit "err option" | EBandwidth | EClose
  | EHealthRun | EHealthLine string | EHealthSkipped string | EHealthFailed err
  | EHealthReport "err option" | EHealthErrLine string
  | EAttempt string "err option" | EAttemptErrLine string

text \<open>The mutable fields of the prober, the world and the events so far.\<close>

record 'w run =
  rn_world :: 'w
  rn_attemptErrLogged :: "string set"
  rn_healthErrLogged :: "string set"
  rn_events :: "event list"

definition trace :: "event \<Rightarrow> 'w run \<Rightarrow> 'w run" where
  "trace e r = r\<lparr> rn_events := rn_events r @ [e] \<rparr>"

definition at_world :: "'w \<Rightarrow> 'w run \<Rightarrow> 'w run" where
  "at_world w r = r\<lparr> rn_world := w \<rparr>"

definition failed_with :: "err + 'a \<Rightarrow> err option" where
  "failed_with x = (case x of Inl e \<Rightarrow> Some e | Inr _ \<Rightarrow> None)"

subsection \<open>Reporting\<close>

definition logHealthErrOnce :: "err \<Rightarrow> 'w run \<Rightarrow> 'w run" where
  "logHealthErrOnce e r =
    (if Error e \<in> rn_healthErrLogged r then r
     else trace (EHealthErrLine (Error e)) (r\<lparr> rn_healthErrLogged := insert (Error e) (rn_healthErrLogged r) \<rparr>))"

definition reportEgressHealth :: "('w, 'c) Prober \<Rightarrow> string \<Rightarrow> Result option \<Rightarrow> 'w run \<Rightarrow> 'w run" where
  "reportEgressHealth P providerClientId res r =
    (case pr_HealthResults P of
       None \<Rightarrow> r
     | Some submit \<Rightarrow>
        (let (err, w) = submit providerClientId res (rn_world r);
             r1 = trace (EHealthReport err) (at_world w r)
         in case err of None \<Rightarrow> r1 | Some e \<Rightarrow> logHealthErrOnce e r1))"

definition health_line :: "string \<Rightarrow> Result option \<Rightarrow> string" where
  "health_line providerClientId res =
    ''egress-health: provider='' @ providerClientId @ '' '' @ Summary res
    @ (if FailedNames res \<noteq> [] then '' failed='' @ Join (FailedNames res) '','' else [])
    @ (if ReputationFailedNames res \<noteq> []
       then '' reputation-failed='' @ Join (ReputationFailedNames res) '','' else [])"

definition checkEgressHealth :: "('w, 'c) Prober \<Rightarrow> string \<Rightarrow> 'c \<Rightarrow> 'w run \<Rightarrow> 'w run" where
  "checkEgressHealth P providerClientId client r =
    (case pr_Health P of
       None \<Rightarrow> r
     | Some health \<Rightarrow>
        (case pr_CtxErr P (rn_world r) of
           Some e \<Rightarrow> trace (EHealthSkipped e) r
         | None \<Rightarrow>
            (let (res, w) = health client (rn_world r);
                 r1 = trace EHealthRun (at_world w r)
             in case res of
                  Inl e \<Rightarrow> trace (EHealthFailed e) r1
                | Inr x \<Rightarrow> reportEgressHealth P providerClientId x
                             (trace (EHealthLine (health_line providerClientId x)) r1))))"

definition reportAttempt :: "('w, 'c) Prober \<Rightarrow> string \<Rightarrow> string \<Rightarrow> 'w run \<Rightarrow> 'w run" where
  "reportAttempt P providerClientId failure r =
    (case pr_Attempts P of
       None \<Rightarrow> r
     | Some report \<Rightarrow>
        (let (err, w) = report providerClientId failure (rn_world r);
             r1 = trace (EAttempt failure err) (at_world w r)
         in case err of
              None \<Rightarrow> r1
            | Some e \<Rightarrow>
                (if Error e \<in> rn_attemptErrLogged r1 then r1
                 else trace (EAttemptErrLine (Error e))
                        (r1\<lparr> rn_attemptErrLogged := insert (Error e) (rn_attemptErrLogged r1) \<rparr>))))"

subsection \<open>The probe\<close>

text \<open>What follows a successful \<open>Open\<close>, up to the deferred close.\<close>

definition probe_tunnel :: "('w, 'c) Prober \<Rightarrow> string \<Rightarrow> 'c \<Rightarrow> 'w run \<Rightarrow> (string \<times> err option) \<times> 'w run" where
  "probe_tunnel P providerClientId client r =
    (let (loc, w) = pr_Locate P client (rn_world r);
         r1 = trace (ELocate (failed_with loc)) (at_world w r);
         r2 = checkEgressHealth P providerClientId client r1
     in case loc of
          Inl e \<Rightarrow> ((if Is e geolocate_ErrNoConsensus then FailureNoConsensus else FailureLocate, Some e), r2)
        | Inr l \<Rightarrow>
           (let (err, w3) = pr_Submit P providerClientId l (rn_world r2);
                r3 = trace (ESubmit err) (at_world w3 r2)
            in case err of
                 Some e \<Rightarrow>
                   ((case l of None \<Rightarrow> FailureNotConfident
                     | Some x \<Rightarrow> if \<not> cl_CountryConfident x then FailureNotConfident else FailureSubmit,
                     Some e), r3)
               | None \<Rightarrow>
                   (([], None),
                    case pr_Bandwidth P of
                      None \<Rightarrow> r3
                    | Some sample \<Rightarrow> trace EBandwidth (at_world (sample providerClientId client (rn_world r3)) r3))))"

definition close_after :: "('w \<Rightarrow> 'w) option \<Rightarrow> 'w run \<Rightarrow> 'w run" where
  "close_after closeTunnel r =
    (case closeTunnel of None \<Rightarrow> r | Some close \<Rightarrow> trace EClose (at_world (close (rn_world r)) r))"

definition probeOne :: "('w, 'c) Prober \<Rightarrow> string \<Rightarrow> 'w run \<Rightarrow> (string \<times> err option) \<times> 'w run" where
  "probeOne P providerClientId r =
    (let (opened, w) = pr_Open P providerClientId (rn_world r);
         r1 = trace (EOpen (failed_with opened)) (at_world w r)
     in case opened of
          Inl e \<Rightarrow>
            ((FailureTunnel, Some (Wrap [e] (''open tunnel to '' @ providerClientId @ '': '' @ Error e))), r1)
        | Inr (client, closeTunnel) \<Rightarrow>
            (let (res, r2) = probe_tunnel P providerClientId client r1
             in (res, close_after closeTunnel r2)))"

definition ProbeOne :: "('w, 'c) Prober \<Rightarrow> string \<Rightarrow> 'w run \<Rightarrow> err option \<times> 'w run" where
  "ProbeOne P providerClientId r =
    (let ((failure, err), r1) = probeOne P providerClientId r
     in (err, reportAttempt P providerClientId failure r1))"

subsection \<open>The protocol of a probe\<close>

text \<open>
  What a probe may do next, by what it has done: the phases carry the failure class that is
  decided. The tunnel is in use between a successful \<open>EOpen\<close> and \<open>EClose\<close>.
\<close>

datatype phase = Idle | Holding | Looked | Recorded | Sampled | Refused string | Ended string | Reported

definition health_event :: "event \<Rightarrow> bool" where
  "health_event e = (case e of EHealthRun \<Rightarrow> True | EHealthLine _ \<Rightarrow> True | EHealthSkipped _ \<Rightarrow> True
     | EHealthFailed _ \<Rightarrow> True | EHealthReport _ \<Rightarrow> True | EHealthErrLine _ \<Rightarrow> True | _ \<Rightarrow> False)"

inductive phase_step :: "phase \<Rightarrow> event \<Rightarrow> phase \<Rightarrow> bool" where
  no_tunnel: "phase_step Idle (EOpen (Some e)) (Ended FailureTunnel)"
| tunnel_open: "phase_step Idle (EOpen None) Holding"
| no_location: "c = (if Is e geolocate_ErrNoConsensus then FailureNoConsensus else FailureLocate) \<Longrightarrow>
    phase_step Holding (ELocate (Some e)) (Refused c)"
| location: "phase_step Holding (ELocate None) Looked"
| health_failed: "health_event h \<Longrightarrow> phase_step (Refused c) h (Refused c)"
| health_looked: "health_event h \<Longrightarrow> phase_step Looked h Looked"
| refused: "c \<in> {FailureNotConfident, FailureSubmit} \<Longrightarrow> phase_step Looked (ESubmit (Some e)) (Refused c)"
| recorded: "phase_step Looked (ESubmit None) Recorded"
| sampled: "phase_step Recorded EBandwidth Sampled"
| closed_refused: "phase_step (Refused c) EClose (Ended c)"
| closed_recorded: "p = Recorded \<or> p = Sampled \<Longrightarrow> phase_step p EClose (Ended [])"
| reported: "phase_step (Ended c) (EAttempt c err) Reported"
| report_logged: "phase_step Reported (EAttemptErrLine m) Reported"

inductive_cases phase_stepE: "phase_step p e q"

inductive_simps phase_step_simps:
  "phase_step Idle e q" "phase_step Holding e q" "phase_step Looked e q" "phase_step Recorded e q"
  "phase_step Sampled e q" "phase_step (Refused c) e q" "phase_step (Ended c) e q" "phase_step Reported e q"

inductive phase_run :: "phase \<Rightarrow> event list \<Rightarrow> phase \<Rightarrow> bool" where
  run_Nil: "phase_run p [] p"
| run_Cons: "phase_step p e q \<Longrightarrow> phase_run q es r \<Longrightarrow> phase_run p (e # es) r"

inductive_simps phase_run_simps: "phase_run p [] q" "phase_run p (e # es) q"

lemma phase_run_append: "phase_run p es q \<Longrightarrow> phase_run q fs r \<Longrightarrow> phase_run p (es @ fs) r"
  by (induction rule: phase_run.induct) (auto intro: phase_run.intros)

lemma phase_run_snoc: "phase_run p es q \<Longrightarrow> phase_step q e r \<Longrightarrow> phase_run p (es @ [e]) r"
  by (rule phase_run_append) (auto intro: phase_run.intros)

text \<open>The events that a step of the model appends.\<close>

definition appends :: "(event list \<Rightarrow> bool) \<Rightarrow> 'w run \<Rightarrow> 'w run \<Rightarrow> bool" where
  "appends Q r r' \<longleftrightarrow> (\<exists>es. rn_events r' = rn_events r @ es \<and> Q es)"

lemma trace_fields [simp]:
  "rn_events (trace e r) = rn_events r @ [e]" "rn_world (trace e r) = rn_world r"
  "rn_attemptErrLogged (trace e r) = rn_attemptErrLogged r"
  "rn_healthErrLogged (trace e r) = rn_healthErrLogged r"
  by (simp_all add: trace_def)

lemma at_world_fields [simp]:
  "rn_events (at_world w r) = rn_events r" "rn_world (at_world w r) = w"
  "rn_attemptErrLogged (at_world w r) = rn_attemptErrLogged r"
  "rn_healthErrLogged (at_world w r) = rn_healthErrLogged r"
  by (simp_all add: at_world_def)

lemmas health_steps = checkEgressHealth_def reportEgressHealth_def logHealthErrOnce_def

lemma health_appends: "appends (list_all health_event) r (checkEgressHealth P pid client r)"
  by (auto simp: appends_def health_steps health_event_def Let_def split: option.split sum.split prod.split)

lemma health_stays:
  "list_all health_event es \<Longrightarrow> phase_run Looked es Looked"
  "list_all health_event es \<Longrightarrow> phase_run (Refused c) es (Refused c)"
  by (induction es) (auto intro: phase_run.intros phase_step.intros)

lemma probe_tunnel_protocol:
  assumes "probe_tunnel P pid client r = ((f, err), r')"
  shows "appends (\<lambda>es. \<exists>q. phase_run Holding es q
      \<and> (if err = None then f = [] \<and> (q = Recorded \<or> q = Sampled) else q = Refused f \<and> f \<noteq> [])) r r'"
proof -
  obtain loc w where loc: "pr_Locate P client (rn_world r) = (loc, w)" by fastforce
  let ?r1 = "trace (ELocate (failed_with loc)) (at_world w r)"
  obtain hs where hs: "rn_events (checkEgressHealth P pid client ?r1) = rn_events r @ ELocate (failed_with loc) # hs"
    "list_all health_event hs"
    using health_appends[of ?r1 P pid client] by (auto simp: appends_def)
  show ?thesis
  proof (cases loc)
    case (Inl e)
    then have "phase_run Holding (ELocate (failed_with loc) # hs) (Refused f)" "err = Some e" "f \<noteq> []"
      using assms health_stays(2)[OF hs(2)] loc
      by (auto simp: probe_tunnel_def failed_with_def failures split: if_splits intro!: run_Cons no_location)
    then show ?thesis using assms hs loc Inl by (auto simp: appends_def probe_tunnel_def)
  next
    case (Inr l)
    have looked: "phase_run Holding (ELocate (failed_with loc) # hs) Looked"
      using health_stays(1)[OF hs(2)] Inr by (auto simp: failed_with_def intro: phase_run.intros location)
    obtain serr w3 where sub: "pr_Submit P pid l (rn_world (checkEgressHealth P pid client ?r1)) = (serr, w3)" by fastforce
    show ?thesis
    proof (cases serr)
      case (Some e)
      then have "err = Some e" "f \<in> {FailureNotConfident, FailureSubmit}" "f \<noteq> []"
        "rn_events r' = rn_events r @ (ELocate (failed_with loc) # hs) @ [ESubmit (Some e)]"
        using assms loc sub Inr hs(1) by (auto simp: probe_tunnel_def failures split: option.splits if_splits)
      then show ?thesis using phase_run_snoc[OF looked refused] by (auto simp: appends_def)
    next
      case None
      then have ok: "err = None" "f = []" using assms loc sub Inr by (auto simp: probe_tunnel_def Let_def)
      have rec: "phase_run Holding ((ELocate (failed_with loc) # hs) @ [ESubmit None]) Recorded"
        by (rule phase_run_snoc[OF looked recorded])
      have "rn_events r' = rn_events r @ (ELocate (failed_with loc) # hs) @ [ESubmit None]
          \<or> rn_events r' = rn_events r @ ((ELocate (failed_with loc) # hs) @ [ESubmit None]) @ [EBandwidth]"
        using assms loc sub Inr None hs(1) by (auto simp: probe_tunnel_def Let_def split: option.splits)
      then show ?thesis using ok rec phase_run_snoc[OF rec sampled] by (auto simp: appends_def)
    qed
  qed
qed

lemma probeOne_protocol:
  assumes "probeOne P pid r = ((f, err), r')" and "\<And>c w cl w'. pr_Open P pid w = (Inr (c, cl), w') \<Longrightarrow> cl \<noteq> None"
  shows "appends (\<lambda>es. phase_run Idle es (Ended f) \<and> (err = None \<longleftrightarrow> f = [])) r r'"
proof -
  obtain opened w where op: "pr_Open P pid (rn_world r) = (opened, w)" by fastforce
  show ?thesis
  proof (cases opened)
    case (Inl e)
    then show ?thesis using assms(1) op
      by (auto simp: probeOne_def appends_def failed_with_def failures intro!: phase_run.intros no_tunnel[unfolded failures])
  next
    case (Inr cc)
    obtain c cl where ccl: "cc = (c, cl)" by (cases cc)
    then have "cl \<noteq> None" using assms(2) op Inr by blast
    then obtain close where cc: "cc = (c, Some close)" using ccl by blast
    let ?r1 = "trace (EOpen None) (at_world w r)"
    obtain g err2 r2 where pt: "probe_tunnel P pid c ?r1 = ((g, err2), r2)" by (metis surj_pair)
    obtain es q where es: "rn_events r2 = rn_events r @ EOpen None # es" "phase_run Holding es q"
      "if err2 = None then g = [] \<and> (q = Recorded \<or> q = Sampled) else q = Refused g \<and> g \<noteq> []"
      using probe_tunnel_protocol[OF pt] by (auto simp: appends_def)
    have fin: "f = g" "err = err2" "rn_events r' = rn_events r2 @ [EClose]"
      using assms(1) op Inr cc pt by (auto simp: probeOne_def failed_with_def close_after_def)
    have "phase_step q EClose (Ended g)"
      using es(3) by (auto intro: closed_refused closed_recorded split: if_splits)
    then have "phase_run Idle (EOpen None # es @ [EClose]) (Ended f)"
      using phase_run_snoc[OF es(2)] fin(1) by (auto intro: run_Cons tunnel_open)
    then show ?thesis using es fin by (auto simp: appends_def split: if_splits)
  qed
qed

text \<open>The prober that \<open>main\<close> builds: attempts are reported, and every tunnel can be closed.\<close>

definition wired :: "('w, 'c) Prober \<Rightarrow> bool" where
  "wired P \<longleftrightarrow> pr_Attempts P \<noteq> None
    \<and> (\<forall>pid w c cl w'. pr_Open P pid w = (Inr (c, cl), w') \<longrightarrow> cl \<noteq> None)"

text \<open>What a prober owes to its caller when it is put together so.\<close>

locale wired_prober =
  fixes P :: "('w, 'c) Prober"
  assumes attempts: "pr_Attempts P \<noteq> None"
    and closable: "pr_Open P pid w = (Inr (c, cl), w') \<Longrightarrow> cl \<noteq> None"
begin

lemma one_run:
  "probeOne P pid r = ((f, err), r') \<Longrightarrow> appends (\<lambda>es. phase_run Idle es (Ended f) \<and> (err = None \<longleftrightarrow> f = [])) r r'"
  using probeOne_protocol closable by blast

lemma run:
  assumes "ProbeOne P pid r = (err, r')"
  shows "\<exists>f es fs. rn_events r' = rn_events r @ es @ fs \<and> phase_run Idle es (Ended f) \<and> (err = None \<longleftrightarrow> f = [])
    \<and> (\<exists>rerr. fs = [EAttempt f rerr] \<or> (\<exists>m. fs = [EAttempt f rerr, EAttemptErrLine m]))"
proof -
  obtain f err2 r1 where po: "probeOne P pid r = ((f, err2), r1)" by (metis surj_pair)
  obtain es where es: "rn_events r1 = rn_events r @ es" "phase_run Idle es (Ended f)" "err2 = None \<longleftrightarrow> f = []"
    using one_run[OF po] unfolding appends_def by blast
  have "err = err2" "\<exists>rerr. rn_events r' = rn_events r1 @ [EAttempt f rerr]
      \<or> (\<exists>m. rn_events r' = rn_events r1 @ [EAttempt f rerr, EAttemptErrLine m])"
    using assms po attempts by (auto simp: ProbeOne_def reportAttempt_def Let_def split: prod.splits option.splits if_splits)
  then obtain fs where "err = err2" "rn_events r' = rn_events r @ es @ fs"
    "\<exists>rerr. fs = [EAttempt f rerr] \<or> (\<exists>m. fs = [EAttempt f rerr, EAttemptErrLine m])"
    using es(1) by force
  then show ?thesis using es(2,3) by blast
qed

end

lemma wired_iff: "wired P \<longleftrightarrow> wired_prober P"
  by (auto simp: wired_def wired_prober_def)

lemmas wired_run = wired_prober.run[OF iffD1[OF wired_iff]]

text \<open>
  C7. Every probe follows the protocol: open the tunnel, locate, check the health, submit only
  a located provider, measure bandwidth only once the location is recorded, close, and report
  the attempt with the class of the failure, which is empty exactly when the probe succeeded.
\<close>

theorem probe_protocol:
  assumes "wired P" and "ProbeOne P pid r = (err, r')"
  shows "appends (\<lambda>es. phase_run Idle es Reported
    \<and> (\<exists>f rerr. EAttempt f rerr \<in> set es \<and> (err = None \<longleftrightarrow> f = []))) r r'"
proof -
  obtain f es fs where run: "rn_events r' = rn_events r @ es @ fs" "phase_run Idle es (Ended f)" "err = None \<longleftrightarrow> f = []"
    "\<exists>rerr. fs = [EAttempt f rerr] \<or> (\<exists>m. fs = [EAttempt f rerr, EAttemptErrLine m])"
    using wired_run[OF assms] by blast
  then obtain rerr where "phase_run (Ended f) fs Reported" "EAttempt f rerr \<in> set fs"
    by (auto simp: phase_run_simps phase_step_simps)
  then have "phase_run Idle (es @ fs) Reported" "EAttempt f rerr \<in> set (es @ fs)"
    using phase_run_append[OF run(2)] by auto
  then show ?thesis using run(1,3) unfolding appends_def by blast
qed

subsection \<open>What the protocol guarantees\<close>

text \<open>Events that use the tunnel.\<close>

definition tunnel_event :: "event \<Rightarrow> bool" where
  "tunnel_event e = (case e of ELocate _ \<Rightarrow> True | EHealthRun \<Rightarrow> True | EBandwidth \<Rightarrow> True | _ \<Rightarrow> False)"

definition is_attempt :: "event \<Rightarrow> bool" where
  "is_attempt e = (case e of EAttempt _ _ \<Rightarrow> True | _ \<Rightarrow> False)"

fun holds_tunnel :: "phase \<Rightarrow> bool" where
  "holds_tunnel p = (p \<in> {Holding, Looked, Recorded, Sampled} \<or> (\<exists>c. p = Refused c))"

definition owes_attempt :: "phase \<Rightarrow> nat" where
  "owes_attempt p = (if p = Reported then 0 else 1)"

lemma run_counts:
  assumes "phase_run p es Reported"
  shows "count_if is_attempt es = owes_attempt p
    \<and> count_if (\<lambda>e. e = EClose) es = count_if (\<lambda>e. e = EOpen None) es + (if holds_tunnel p then 1 else 0)"
  using assms
proof (induction p es "Reported" rule: phase_run.induct)
  case (run_Cons p e q es)
  then show ?case
    by (elim phase_stepE) (auto simp: owes_attempt_def is_attempt_def health_event_def split: event.splits)
qed (simp add: owes_attempt_def)

lemma run_tunnel_free:
  assumes "phase_run p es q" "\<not> holds_tunnel p" "p \<noteq> Idle"
  shows "\<not> list_ex tunnel_event es"
  using assms
proof (induction rule: phase_run.induct)
  case (run_Cons p e q es)
  then show ?case by (elim phase_stepE) (auto simp: tunnel_event_def)
qed simp

lemma run_split: "phase_run p (as @ e # bs) q \<Longrightarrow> \<exists>p1 q1. phase_run p as p1 \<and> phase_step p1 e q1 \<and> phase_run q1 bs q"
proof (induction as arbitrary: p)
  case (Cons a as)
  then obtain p' where "phase_step p a p'" "phase_run p' (as @ e # bs) q" by (auto simp: phase_run_simps)
  then show ?case using Cons.IH[of p'] by (auto intro: run_Cons)
qed (auto simp: phase_run_simps)

lemma reached_recorded:
  assumes "phase_run p es q" "q = Recorded" "p \<noteq> Recorded"
  shows "ESubmit None \<in> set es"
  using assms
proof (induction rule: phase_run.induct)
  case (run_Cons p e q es)
  then show ?case by (cases "q = Recorded") (auto elim: phase_stepE simp: health_event_def)
qed simp

text \<open>A run ends in success exactly when the location was accepted in it.\<close>

lemma reported_stays: "phase_run p es q \<Longrightarrow> p = Reported \<Longrightarrow> q = Reported"
  by (induction rule: phase_run.induct) (auto elim: phase_stepE simp: health_event_def)

lemma accepted_run:
  assumes "phase_run p es (Ended f)" "p \<noteq> Refused []"
  shows "f = [] \<longleftrightarrow> p \<in> {Recorded, Sampled, Ended []} \<or> ESubmit None \<in> set es"
  using assms
proof (induction p es "Ended f" rule: phase_run.induct)
  case (run_Cons p e q es)
  then show ?case
    by (elim phase_stepE) (auto simp: failures health_event_def split: if_splits dest: reported_stays)
qed simp

definition accepted_in :: "('w, 'c) Prober \<Rightarrow> string \<Rightarrow> 'w run \<Rightarrow> bool" where
  "accepted_in P pid r \<longleftrightarrow> appends (\<lambda>es. ESubmit None \<in> set es) r (snd (ProbeOne P pid r))"

lemma success_accepted:
  assumes "wired P"
  shows "fst (ProbeOne P pid r) = None \<longleftrightarrow> accepted_in P pid r"
proof -
  obtain f es fs where run: "rn_events (snd (ProbeOne P pid r)) = rn_events r @ es @ fs" "phase_run Idle es (Ended f)"
    "fst (ProbeOne P pid r) = None \<longleftrightarrow> f = []" "ESubmit None \<notin> set fs"
    using wired_run[OF assms surjective_pairing[of "ProbeOne P pid r"]] by fastforce
  then show ?thesis using accepted_run[OF run(2)] by (auto simp: accepted_in_def appends_def)
qed

text \<open>
  C16. Whatever the world answers: a probe reports its attempt exactly once, closes its tunnel
  exactly once if it got one, never uses the tunnel after closing it, and spends bandwidth only
  after the location has been accepted.
\<close>

theorem probe_releases:
  assumes "wired P" and "ProbeOne P pid r = (err, r')"
  shows "appends (\<lambda>es. count_if is_attempt es = 1
      \<and> count_if (\<lambda>e. e = EClose) es = count_if (\<lambda>e. e = EOpen None) es
      \<and> (\<forall>as bs. es = as @ EClose # bs \<longrightarrow> \<not> list_ex tunnel_event bs)
      \<and> (\<forall>as bs. es = as @ EBandwidth # bs \<longrightarrow> ESubmit None \<in> set as)) r r'"
proof -
  obtain f es fs where ev: "rn_events r' = rn_events r @ es @ fs" and run1: "phase_run Idle es (Ended f)"
    "\<exists>rerr. fs = [EAttempt f rerr] \<or> (\<exists>m. fs = [EAttempt f rerr, EAttemptErrLine m])"
    using wired_run[OF assms] by blast
  then have "phase_run (Ended f) fs Reported" by (auto simp: phase_run_simps phase_step_simps)
  then have run: "phase_run Idle (es @ fs) Reported" by (rule phase_run_append[OF run1(1)])
  have "\<not> list_ex tunnel_event bs" if "es @ fs = as @ EClose # bs" for as bs
  proof -
    have "phase_run Idle (as @ EClose # bs) Reported" using run that by simp
    then obtain p q where "phase_step p EClose q" "phase_run q bs Reported"
      using run_split by blast
    moreover have "\<not> holds_tunnel q \<and> q \<noteq> Idle"
      using calculation(1) by (auto elim!: phase_stepE simp: health_event_def)
    ultimately show ?thesis using run_tunnel_free by blast
  qed
  moreover have "ESubmit None \<in> set as" if "es @ fs = as @ EBandwidth # bs" for as bs
  proof -
    have "phase_run Idle (as @ EBandwidth # bs) Reported" using run that by simp
    then obtain p q where "phase_run Idle as p" "phase_step p EBandwidth q"
      using run_split by blast
    then show ?thesis using reached_recorded[of Idle as p] by (auto elim!: phase_stepE simp: health_event_def)
  qed
  ultimately show ?thesis
    using run_counts[OF run] ev unfolding appends_def by (intro exI[of _ "es @ fs"]) (simp add: owes_attempt_def)
qed

end
