(* ===== verification/Prober_Outcome.thy ===== *)
theory Prober_Outcome
  imports Prober
begin

text \<open>
  The logs of the probes of \<open>prober/prober.go\<close>: a reporting error is logged once per distinct
  message, however many providers meet it. A concrete prober, whose every call is refused,
  closes the theory.
\<close>

subsection \<open>Errors are logged once\<close>

definition attempt_lines :: "event list \<Rightarrow> string list" where
  "attempt_lines = List.map_filter (\<lambda>e. case e of EAttemptErrLine m \<Rightarrow> Some m | _ \<Rightarrow> None)"

definition attempt_errors_met :: "event list \<Rightarrow> string list" where
  "attempt_errors_met = List.map_filter (\<lambda>e. case e of EAttempt _ (Some x) \<Rightarrow> Some (Error x) | _ \<Rightarrow> None)"

definition health_lines :: "event list \<Rightarrow> string list" where
  "health_lines = List.map_filter (\<lambda>e. case e of EHealthErrLine m \<Rightarrow> Some m | _ \<Rightarrow> None)"

definition health_errors_met :: "event list \<Rightarrow> string list" where
  "health_errors_met = List.map_filter (\<lambda>e. case e of EHealthReport (Some x) \<Rightarrow> Some (Error x) | _ \<Rightarrow> None)"

lemmas line_defs = attempt_lines_def attempt_errors_met_def health_lines_def health_errors_met_def

text \<open>The de-duplication maps hold what was met, and each message has one line.\<close>

definition log_inv :: "'w run \<Rightarrow> bool" where
  "log_inv r \<longleftrightarrow>
    distinct (attempt_lines (rn_events r)) \<and> set (attempt_lines (rn_events r)) = rn_attemptErrLogged r
    \<and> set (attempt_errors_met (rn_events r)) = rn_attemptErrLogged r
    \<and> distinct (health_lines (rn_events r)) \<and> set (health_lines (rn_events r)) = rn_healthErrLogged r
    \<and> set (health_errors_met (rn_events r)) = rn_healthErrLogged r"

definition silent :: "event \<Rightarrow> bool" where
  "silent e = (case e of EAttempt _ (Some _) \<Rightarrow> False | EAttemptErrLine _ \<Rightarrow> False
     | EHealthReport (Some _) \<Rightarrow> False | EHealthErrLine _ \<Rightarrow> False | _ \<Rightarrow> True)"

lemma log_inv_silent [simp]: "silent e \<Longrightarrow> log_inv (trace e r) = log_inv r"
  by (auto simp: log_inv_def line_defs silent_def split: event.splits option.splits)

lemma log_inv_world [simp]: "log_inv (at_world w r) = log_inv r"
  by (simp add: log_inv_def)

lemma silent_events [simp]:
  "silent (EOpen x)" "silent (ELocate x)" "silent (ESubmit x)" "silent EBandwidth" "silent EClose"
  "silent EHealthRun" "silent (EHealthLine m)" "silent (EHealthSkipped m)" "silent (EHealthFailed x')"
  "silent (EHealthReport None)" "silent (EAttempt f None)"
  by (simp_all add: silent_def)

lemma reportAttempt_logs: "log_inv r \<Longrightarrow> log_inv (reportAttempt P pid f r)"
  by (auto simp: reportAttempt_def Let_def log_inv_def line_defs split: option.split prod.split)

lemma reportEgressHealth_logs: "log_inv r \<Longrightarrow> log_inv (reportEgressHealth P pid x r)"
  by (auto simp: reportEgressHealth_def logHealthErrOnce_def Let_def log_inv_def line_defs
      split: option.split prod.split)

lemma checkEgressHealth_logs: "log_inv r \<Longrightarrow> log_inv (checkEgressHealth P pid c r)"
  by (auto simp: checkEgressHealth_def Let_def reportEgressHealth_logs split: option.split sum.split prod.split)

lemma probe_tunnel_logs: "log_inv r \<Longrightarrow> log_inv (snd (probe_tunnel P pid c r))"
  by (auto simp: probe_tunnel_def Let_def checkEgressHealth_logs split: option.split sum.split prod.split)

lemma probeOne_logs: "log_inv r \<Longrightarrow> log_inv (snd (probeOne P pid r))"
  by (auto simp: probeOne_def Let_def split_beta close_after_def probe_tunnel_logs split: option.split sum.split)

lemma ProbeOne_logs: "log_inv r \<Longrightarrow> log_inv (snd (ProbeOne P pid r))"
  by (simp add: ProbeOne_def split_beta probeOne_logs reportAttempt_logs)

text \<open>Any number of probes, one after the other.\<close>

definition probe_all :: "('w, 'c) Prober \<Rightarrow> string list \<Rightarrow> 'w run \<Rightarrow> 'w run" where
  "probe_all P pids r = fold (\<lambda>pid q. snd (ProbeOne P pid q)) pids r"

definition fresh_run :: "'w \<Rightarrow> 'w run" where
  "fresh_run w = \<lparr> rn_world = w, rn_attemptErrLogged = {}, rn_healthErrLogged = {}, rn_events = [] \<rparr>"

lemma probe_all_logs: "log_inv r \<Longrightarrow> log_inv (probe_all P pids r)"
  by (induction pids arbitrary: r) (simp_all add: probe_all_def ProbeOne_logs)

text \<open>
  Over any sequence of probes, each distinct error that reporting an attempt or a health
  run met is logged exactly once, in its own log: neither log suppresses a line of the other.
\<close>

theorem logged_once:
  "let es = rn_events (probe_all P pids (fresh_run w)) in
     distinct (attempt_lines es) \<and> set (attempt_lines es) = set (attempt_errors_met es)
   \<and> distinct (health_lines es) \<and> set (health_lines es) = set (health_errors_met es)"
proof -
  have "log_inv (fresh_run w)" by (simp add: log_inv_def fresh_run_def line_defs)
  then have "log_inv (probe_all P pids (fresh_run w))" by (rule probe_all_logs)
  then show ?thesis by (simp add: log_inv_def Let_def)
qed

subsection \<open>A concrete prober\<close>

text \<open>
  A world that counts the calls made: every tunnel opens, every location is refused as not
  confident, and the server has neither the health nor the attempt endpoint.
\<close>

definition strict_prober :: "(nat, unit) Prober" where
  "strict_prober = \<lparr> pr_Open = (\<lambda>pid w. (Inr ((), Some Suc), Suc w)),
     pr_Locate = (\<lambda>c w. (Inr (Some location0), Suc w)),
     pr_Submit = (\<lambda>pid l w. (Some (Sentinel ErrNotConfident), Suc w)),
     pr_Health = Some (\<lambda>c w. (Inr None, Suc w)),
     pr_HealthResults = Some (\<lambda>pid x w. (Some (Sentinel health_ErrUnsupported), Suc w)),
     pr_Bandwidth = Some (\<lambda>pid c w. Suc w),
     pr_Attempts = Some (\<lambda>pid f w. (Some (Sentinel ErrAttemptUnsupported), Suc w)),
     pr_CtxErr = (\<lambda>w. None) \<rparr>"

lemma strict_wired: "wired strict_prober"
  by (auto simp: wired_def strict_prober_def)

lemma strict_run:
  "rn_events (snd (ProbeOne strict_prober ''p'' (fresh_run 0))) =
    [EOpen None, ELocate None, EHealthRun, EHealthLine (health_line ''p'' None),
     EHealthReport (Some (Sentinel health_ErrUnsupported)),
     EHealthErrLine (sentinel_text health_ErrUnsupported),
     ESubmit (Some (Sentinel ErrNotConfident)), EClose,
     EAttempt FailureNotConfident (Some (Sentinel ErrAttemptUnsupported)),
     EAttemptErrLine (sentinel_text ErrAttemptUnsupported)]"
  by (simp add: ProbeOne_def probeOne_def probe_tunnel_def strict_prober_def fresh_run_def failed_with_def
      checkEgressHealth_def reportEgressHealth_def logHealthErrOnce_def reportAttempt_def close_after_def
      location0_def trace_def at_world_def Let_def del: sentinel_text.simps)

lemma fresh_appends: "appends Q (fresh_run w) r' \<longleftrightarrow> Q (rn_events r')"
  by (auto simp: appends_def fresh_run_def)

theorem probe_protocol_witness:
  "phase_run Idle (rn_events (snd (ProbeOne strict_prober ''p'' (fresh_run 0)))) Reported"
  using probe_protocol[OF strict_wired surjective_pairing[of "ProbeOne strict_prober ''p'' (fresh_run 0)"]]
  unfolding fresh_appends by blast

theorem probe_releases_witness:
  "count_if (\<lambda>e. e = EClose) (rn_events (snd (ProbeOne strict_prober ''p'' (fresh_run 0)))) = 1"
proof -
  have "count_if (\<lambda>e. e = EClose) (rn_events (snd (ProbeOne strict_prober ''p'' (fresh_run 0))))
      = count_if (\<lambda>e. e = EOpen None) (rn_events (snd (ProbeOne strict_prober ''p'' (fresh_run 0))))"
    using probe_releases[OF strict_wired surjective_pairing[of "ProbeOne strict_prober ''p'' (fresh_run 0)"]]
    unfolding fresh_appends by blast
  also have "\<dots> = 1" by (simp add: strict_run)
  finally show ?thesis .
qed

end
