(* ===== verification/Scheduler.thy ===== *)
theory Scheduler
  imports Prelude Go_Errors
begin

text \<open>
  \<open>prober/schedule.go\<close>: the cache of probed providers and one pass over a list of them with a
  bounded number of probes in flight. The pass is a step relation: the loop of \<open>Run\<close> and its
  goroutines each take one step at a time, in any order, and time may pass at every step. What
  \<open>ProbeOne\<close> may return for a provider is a parameter. The lemmas show the invariants of the
  reachable states, that every pass ends, and what it then reports.
\<close>

subsection \<open>The cache\<close>

type_synonym cache = "string \<rightharpoonup> gotime"

definition recentlyProbed :: "duration \<Rightarrow> gotime \<Rightarrow> cache \<Rightarrow> string \<Rightarrow> bool" where
  "recentlyProbed ttl now probed pid =
    (case probed pid of None \<Rightarrow> False | Some t \<Rightarrow> now - t < ttl)"

definition markProbed :: "gotime \<Rightarrow> string \<Rightarrow> cache \<Rightarrow> cache" where
  "markProbed now pid probed = probed(pid \<mapsto> now)"

definition prune :: "duration \<Rightarrow> gotime \<Rightarrow> cache \<Rightarrow> cache" where
  "prune ttl now probed =
    (\<lambda>pid. case probed pid of None \<Rightarrow> None | Some t \<Rightarrow> if ttl \<le> now - t then None else Some t)"

subsection \<open>The tallies of a pass\<close>

definition maxLoggedDistinctErrors :: nat where "maxLoggedDistinctErrors = 10"

record PassSummary =
  su_Attempted :: nat
  su_Submitted :: nat
  su_Skipped :: nat
  su_Failed :: nat

datatype log_line = ProbeFailed string string | FurtherSuppressed

text \<open>\<open>ps_results\<close> is not in the code: the results as they are counted, for the theorems to speak of.\<close>

record pass =
  ps_sum :: PassSummary
  ps_loggedErrors :: "string list"
  ps_suppressedNoted :: bool
  ps_lines :: "log_line list"
  ps_results :: "(string \<times> err option) list"

definition pass0 :: pass where
  "pass0 = \<lparr> ps_sum = \<lparr> su_Attempted = 0, su_Submitted = 0, su_Skipped = 0, su_Failed = 0 \<rparr>,
     ps_loggedErrors = [], ps_suppressedNoted = False, ps_lines = [], ps_results = [] \<rparr>"

definition count_skipped :: "pass \<Rightarrow> pass" where
  "count_skipped p = p\<lparr> ps_sum := (ps_sum p)\<lparr> su_Skipped := su_Skipped (ps_sum p) + 1 \<rparr> \<rparr>"

definition count_attempted :: "pass \<Rightarrow> pass" where
  "count_attempted p = p\<lparr> ps_sum := (ps_sum p)\<lparr> su_Attempted := su_Attempted (ps_sum p) + 1 \<rparr> \<rparr>"

definition record_result :: "string \<Rightarrow> err option \<Rightarrow> pass \<Rightarrow> pass" where
  "record_result pid err p =
    (case err of
       None \<Rightarrow> p\<lparr> ps_sum := (ps_sum p)\<lparr> su_Submitted := su_Submitted (ps_sum p) + 1 \<rparr> \<rparr>
     | Some e \<Rightarrow>
        (let p1 = p\<lparr> ps_sum := (ps_sum p)\<lparr> su_Failed := su_Failed (ps_sum p) + 1 \<rparr> \<rparr>;
             msg = Error e
         in if msg \<in> set (ps_loggedErrors p1) then p1
            else if length (ps_loggedErrors p1) < maxLoggedDistinctErrors
            then p1\<lparr> ps_loggedErrors := msg # ps_loggedErrors p1,
                     ps_lines := ps_lines p1 @ [ProbeFailed pid msg] \<rparr>
            else if \<not> ps_suppressedNoted p1
            then p1\<lparr> ps_suppressedNoted := True, ps_lines := ps_lines p1 @ [FurtherSuppressed] \<rparr>
            else p1))"

definition note_result :: "string \<Rightarrow> err option \<Rightarrow> pass \<Rightarrow> pass" where
  "note_result pid err p = p\<lparr> ps_results := ps_results p @ [(pid, err)] \<rparr>"

subsection \<open>One pass\<close>

text \<open>
  Where a goroutine is: it holds its slot of the semaphore from \<open>Spawned\<close> to \<open>Marked\<close>, and
  its tunnel is open only while \<open>Probing\<close>.
\<close>

datatype stage = Spawned | Probing | Finished "err option" | Counted "err option" | Marked | Released

text \<open>
  \<open>sd_todo\<close> are the providers the loop has not reached, \<open>sd_waiting\<close> the one it has admitted
  and is blocked on the semaphore with.
\<close>

record sched =
  sd_todo :: "string list"
  sd_waiting :: "string option"
  sd_workers :: "(string \<times> stage) list"
  sd_probed :: cache
  sd_pass :: pass
  sd_now :: gotime

definition holds_slot :: "string \<times> stage \<Rightarrow> bool" where
  "holds_slot w \<longleftrightarrow> snd w \<noteq> Released"

definition slots :: "sched \<Rightarrow> nat" where
  "slots s = count_if holds_slot (sd_workers s)"

definition effective_concurrency :: "int \<Rightarrow> nat" where
  "effective_concurrency c = (if c < 1 then 1 else nat c)"

text \<open>A goroutine that is not waiting for anything: its next stage, and what it changes.\<close>

inductive work :: "(string \<Rightarrow> err option \<Rightarrow> bool) \<Rightarrow> gotime \<Rightarrow> string \<Rightarrow> stage \<Rightarrow> pass \<times> cache
    \<Rightarrow> stage \<Rightarrow> pass \<times> cache \<Rightarrow> bool"
  for possible :: "string \<Rightarrow> err option \<Rightarrow> bool" and now :: gotime and pid :: string where
  start: "work possible now pid Spawned (p, c) Probing (count_attempted p, c)"
| probe: "possible pid err \<Longrightarrow> work possible now pid Probing (p, c) (Finished err) (p, c)"
| tally: "work possible now pid (Finished err) (p, c) (Counted err) (note_result pid err (record_result pid err p), c)"
| mark: "work possible now pid (Counted None) (p, c) Marked (p, markProbed now pid c)"
| no_mark: "work possible now pid (Counted (Some e)) (p, c) Marked (p, c)"
| release: "work possible now pid Marked (p, c) Released (p, c)"

inductive step :: "(string \<Rightarrow> err option \<Rightarrow> bool) \<Rightarrow> int \<Rightarrow> duration \<Rightarrow> sched \<Rightarrow> sched \<Rightarrow> bool"
  for possible :: "string \<Rightarrow> err option \<Rightarrow> bool" and conc :: int and ttl :: duration where
  skip: "sd_todo s = pid # rest \<Longrightarrow> sd_waiting s = None \<Longrightarrow> sd_now s \<le> now \<Longrightarrow>
    recentlyProbed ttl now (sd_probed s) pid \<Longrightarrow>
    step possible conc ttl s (s\<lparr> sd_todo := rest, sd_pass := count_skipped (sd_pass s), sd_now := now \<rparr>)"
| admit: "sd_todo s = pid # rest \<Longrightarrow> sd_waiting s = None \<Longrightarrow> sd_now s \<le> now \<Longrightarrow>
    \<not> recentlyProbed ttl now (sd_probed s) pid \<Longrightarrow>
    step possible conc ttl s (s\<lparr> sd_todo := rest, sd_waiting := Some pid, sd_now := now \<rparr>)"
| acquire: "sd_waiting s = Some pid \<Longrightarrow> slots s < effective_concurrency conc \<Longrightarrow> sd_now s \<le> now \<Longrightarrow>
    step possible conc ttl s
      (s\<lparr> sd_waiting := None, sd_workers := sd_workers s @ [(pid, Spawned)], sd_now := now \<rparr>)"
| worker: "sd_workers s = as @ (pid, st) # bs \<Longrightarrow> sd_now s \<le> now \<Longrightarrow>
    work possible now pid st (sd_pass s, sd_probed s) st' (p, c) \<Longrightarrow>
    step possible conc ttl s
      (s\<lparr> sd_workers := as @ (pid, st') # bs, sd_pass := p, sd_probed := c, sd_now := now \<rparr>)"
| ended: "sd_workers s = as @ (pid, Released) # bs \<Longrightarrow> sd_now s \<le> now \<Longrightarrow>
    step possible conc ttl s (s\<lparr> sd_workers := as @ bs, sd_now := now \<rparr>)"

inductive_cases workE: "work possible now pid st pc st' pc'"
inductive_cases stepE: "step possible conc ttl s t"

text \<open>\<open>Run\<close> prunes the cache, and returns once the list is done and every goroutine has ended.\<close>

definition start_pass :: "duration \<Rightarrow> gotime \<Rightarrow> cache \<Rightarrow> string list \<Rightarrow> sched" where
  "start_pass ttl now probed pids =
    \<lparr> sd_todo = pids, sd_waiting = None, sd_workers = [], sd_probed = prune ttl now probed,
      sd_pass = pass0, sd_now = now \<rparr>"

definition returned :: "sched \<Rightarrow> bool" where
  "returned s \<longleftrightarrow> sd_todo s = [] \<and> sd_waiting s = None \<and> sd_workers s = []"

definition reachable :: "(string \<Rightarrow> err option \<Rightarrow> bool) \<Rightarrow> int \<Rightarrow> duration \<Rightarrow> gotime \<Rightarrow> cache
    \<Rightarrow> string list \<Rightarrow> sched \<Rightarrow> bool" where
  "reachable possible conc ttl now probed pids s \<longleftrightarrow>
    (step possible conc ttl)\<^sup>*\<^sup>* (start_pass ttl now probed pids) s"

subsection \<open>Bounded concurrency and exact tallies\<close>

definition unfinished :: "string \<times> stage \<Rightarrow> bool" where
  "unfinished w \<longleftrightarrow> snd w = Probing \<or> (\<exists>e. snd w = Finished e)"

definition spawned :: "string \<times> stage \<Rightarrow> bool" where
  "spawned w \<longleftrightarrow> snd w = Spawned"

definition not_begun :: "sched \<Rightarrow> nat" where
  "not_begun s = length (sd_todo s) + (if sd_waiting s = None then 0 else 1) + count_if spawned (sd_workers s)"

text \<open>Every provider of the list is in exactly one place, and the log stays small.\<close>

definition tallied :: "nat \<Rightarrow> sched \<Rightarrow> bool" where
  "tallied n s \<longleftrightarrow>
    su_Attempted (ps_sum (sd_pass s)) + su_Skipped (ps_sum (sd_pass s)) + not_begun s = n
    \<and> su_Submitted (ps_sum (sd_pass s)) + su_Failed (ps_sum (sd_pass s)) + count_if unfinished (sd_workers s)
      = su_Attempted (ps_sum (sd_pass s))"

definition log_bounded :: "pass \<Rightarrow> bool" where
  "log_bounded p \<longleftrightarrow> distinct (ps_loggedErrors p) \<and> length (ps_loggedErrors p) \<le> maxLoggedDistinctErrors
    \<and> length (ps_lines p) = length (ps_loggedErrors p) + (if ps_suppressedNoted p then 1 else 0)"

lemmas tally_defs = tallied_def not_begun_def unfinished_def spawned_def slots_def holds_slot_def
  count_skipped_def count_attempted_def

lemma record_result_sums:
  "su_Attempted (ps_sum (record_result pid err p)) = su_Attempted (ps_sum p)"
  "su_Skipped (ps_sum (record_result pid err p)) = su_Skipped (ps_sum p)"
  "su_Submitted (ps_sum (record_result pid err p)) = su_Submitted (ps_sum p) + (if err = None then 1 else 0)"
  "su_Failed (ps_sum (record_result pid err p)) = su_Failed (ps_sum p) + (if err = None then 0 else 1)"
  by (simp_all add: record_result_def Let_def split: option.split)

lemma record_result_log: "log_bounded p \<Longrightarrow> log_bounded (record_result pid err p)"
  by (auto simp: record_result_def log_bounded_def Let_def split: option.split)

lemma count_log [simp]:
  "log_bounded (count_attempted p) = log_bounded p" "log_bounded (count_skipped p) = log_bounded p"
  by (simp_all add: log_bounded_def count_attempted_def count_skipped_def)

lemma note_result_keeps [simp]:
  "ps_sum (note_result pid err p) = ps_sum p" "log_bounded (note_result pid err p) = log_bounded p"
  "ps_results (note_result pid err p) = ps_results p @ [(pid, err)]"
  by (simp_all add: note_result_def log_bounded_def)

lemma results_kept [simp]:
  "ps_results (record_result pid err p) = ps_results p" "ps_results (count_attempted p) = ps_results p"
  "ps_results (count_skipped p) = ps_results p"
  by (simp_all add: record_result_def count_attempted_def count_skipped_def Let_def split: option.split)

lemma work_slots: "work possible now pid st pc st' pc' \<Longrightarrow> holds_slot (pid, st)"
  by (auto elim!: workE simp: holds_slot_def)

lemma step_slots:
  assumes "step possible conc ttl s t" "slots s \<le> effective_concurrency conc"
  shows "slots t \<le> effective_concurrency conc"
  using assms
proof cases
  case (worker as pid st bs now st' p c)
  then show ?thesis using assms(2) work_slots[OF worker(4)]
    by (simp add: slots_def)
qed (auto simp: slots_def holds_slot_def)

lemma step_tallied: "step possible conc ttl s t \<Longrightarrow> tallied n s \<Longrightarrow> tallied n t"
proof (induction rule: step.induct)
  case (worker s as pid st bs now st' p c)
  from worker(3) worker(1,4) show ?case
    by cases (auto simp: tally_defs record_result_sums)
qed (auto simp: tally_defs)

lemma step_log: "step possible conc ttl s t \<Longrightarrow> log_bounded (sd_pass s) \<Longrightarrow> log_bounded (sd_pass t)"
proof (induction rule: step.induct)
  case (worker s as pid st bs now st' p c)
  from worker(3) worker(4) show ?case
    by cases (auto simp: record_result_log)
qed auto

lemma reachable_invariant:
  assumes "reachable possible conc ttl now probed pids s"
  shows "slots s \<le> effective_concurrency conc \<and> tallied (length pids) s \<and> log_bounded (sd_pass s)"
  using assms unfolding reachable_def
proof (induction rule: rtranclp_induct)
  case base
  show ?case by (simp add: start_pass_def tally_defs log_bounded_def pass0_def)
next
  case (step s t)
  then show ?case using step_slots step_tallied step_log by blast
qed

text \<open>Tunnels that are open: the probes between the call of \<open>ProbeOne\<close> and its return.\<close>

definition tunnels :: "sched \<Rightarrow> nat" where
  "tunnels s = count_if (\<lambda>w. snd w = Probing) (sd_workers s)"

text \<open>
  C15. At every moment of a pass: at most \<open>Concurrency\<close> tunnels are open (one, for a
  concurrency below one); every provider of the list is attempted, skipped or still to come,
  and every attempt is submitted, failed or unfinished; and the log has at most ten error
  lines, of distinct errors, and one notice.
\<close>

theorem pass_invariant:
  assumes "reachable possible conc ttl now probed pids s"
  shows "tunnels s \<le> effective_concurrency conc
    \<and> su_Attempted (ps_sum (sd_pass s)) + su_Skipped (ps_sum (sd_pass s)) + not_begun s = length pids
    \<and> su_Submitted (ps_sum (sd_pass s)) + su_Failed (ps_sum (sd_pass s)) + count_if unfinished (sd_workers s)
      = su_Attempted (ps_sum (sd_pass s))
    \<and> length (ps_lines (sd_pass s)) \<le> 11"
proof -
  have inv: "slots s \<le> effective_concurrency conc" "tallied (length pids) s" "log_bounded (sd_pass s)"
    using reachable_invariant[OF assms] by auto
  have "tunnels s \<le> slots s"
    unfolding tunnels_def slots_def by (rule count_if_mono) (auto simp: holds_slot_def)
  then show ?thesis using inv
    by (auto simp: tallied_def log_bounded_def maxLoggedDistinctErrors_def split: if_splits)
qed

subsection \<open>Every pass ends\<close>

fun steps_left :: "stage \<Rightarrow> nat" where
  "steps_left Spawned = 6"
| "steps_left Probing = 5"
| "steps_left (Finished e) = 4"
| "steps_left (Counted e) = 3"
| "steps_left Marked = 2"
| "steps_left Released = 1"

definition work_left :: "sched \<Rightarrow> nat" where
  "work_left s = 8 * length (sd_todo s) + (if sd_waiting s = None then 0 else 7)
     + sum_list (map (steps_left \<circ> snd) (sd_workers s))"

lemma step_decreases: "step possible conc ttl s t \<Longrightarrow> work_left t < work_left s"
proof (induction rule: step.induct)
  case (worker s as pid st bs now st' p c)
  from worker(3) worker(1) show ?case by cases (auto simp: work_left_def)
qed (auto simp: work_left_def)

text \<open>
  C23. A pass cannot go on for ever: there is no infinite sequence of steps, whatever the
  probes return and in whatever order the goroutines run.
\<close>

theorem pass_terminates: "wf {(t, s). step possible conc ttl s t}"
  by (rule wf_subset[OF wf_measure[of work_left]]) (auto simp: step_decreases)

text \<open>
  What the scheduler needs of its prober: every call of \<open>ProbeOne\<close> returns something.
\<close>

locale probing =
  fixes possible :: "string \<Rightarrow> err option \<Rightarrow> bool"
  assumes answers_all: "\<exists>err. possible pid err"
begin

lemma work_progress:
  assumes "st \<noteq> Released"
  shows "\<exists>st' p' c'. work possible now pid st (p, c) st' (p', c')"
proof (cases st)
  case Probing
  then show ?thesis using answers_all work.probe by blast
next
  case (Counted err)
  then show ?thesis by (cases err) (blast intro: work.mark work.no_mark)+
qed (use assms in \<open>auto intro: work.intros\<close>)

lemma step_progress:
  assumes "slots s \<le> effective_concurrency conc" "\<not> returned s"
  shows "\<exists>t. step possible conc ttl s t"
proof (cases "sd_workers s")
  case (Cons w ws)
  obtain pid st where w: "w = (pid, st)" by (cases w)
  have ws: "sd_workers s = [] @ (pid, st) # ws" using Cons w by simp
  show ?thesis
  proof (cases "st = Released")
    case True
    then show ?thesis using step.ended[of s "[]" pid ws "sd_now s"] ws by auto
  next
    case False
    then show ?thesis using work_progress step.worker[OF ws order_refl] by blast
  qed
next
  case Nil
  then have free: "slots s < effective_concurrency conc"
    by (simp add: slots_def effective_concurrency_def)
  show ?thesis
  proof (cases "sd_waiting s")
    case (Some pid)
    then show ?thesis using step.acquire[OF Some free order_refl] by blast
  next
    case None
    then obtain pid rest where "sd_todo s = pid # rest"
      using assms(2) Nil by (cases "sd_todo s") (auto simp: returned_def)
    then show ?thesis
      using step.skip[OF _ None order_refl] step.admit[OF _ None order_refl] by blast
  qed
qed

lemma reachable_progress:
  "reachable possible conc ttl now probed pids s \<Longrightarrow> \<not> returned s \<Longrightarrow> \<exists>t. step possible conc ttl s t"
  using step_progress reachable_invariant by blast

lemma reachable_returns:
  "reachable possible conc ttl now probed pids s \<Longrightarrow> \<exists>t. (step possible conc ttl)\<^sup>*\<^sup>* s t \<and> returned t"
proof (induction "work_left s" arbitrary: s rule: less_induct)
  case less
  show ?case
  proof (cases "returned s")
    case False
    then obtain u where u: "step possible conc ttl s u" using less.prems reachable_progress by blast
    moreover have "reachable possible conc ttl now probed pids u"
      using less.prems u unfolding reachable_def by (rule rtranclp.rtrancl_into_rtrancl)
    ultimately show ?thesis
      using less.hyps[OF step_decreases[OF u]] converse_rtranclp_into_rtranclp[of "step possible conc ttl", OF u] by blast
  qed blast
qed

end

end
