(* ===== verification/Scheduler_Outcome.thy ===== *)
theory Scheduler_Outcome
  imports Scheduler
begin

text \<open>
  What a pass of \<open>prober/schedule.go\<close> comes to, whatever the interleaving of its goroutines:
  its summary refines the counts over the list, and the cache gains exactly the providers that
  succeeded. Pruning the cache changes no decision of a later moment.
\<close>

subsection \<open>Pruning\<close>

text \<open>
  Pruning is invisible: at every later moment the pruned cache skips exactly the providers
  that the unpruned one skips, and it holds no entry older than the window.
\<close>

theorem prune_inert:
  assumes "now \<le> now'"
  shows "recentlyProbed ttl now' (prune ttl now probed) = recentlyProbed ttl now' probed
    \<and> dom (prune ttl now probed) = {pid. recentlyProbed ttl now probed pid}"
proof (intro conjI ext)
  show "recentlyProbed ttl now' (prune ttl now probed) pid = recentlyProbed ttl now' probed pid" for pid
    using assms by (simp add: recentlyProbed_def prune_def split: option.split)
  show "dom (prune ttl now probed) = {pid. recentlyProbed ttl now probed pid}"
    by (auto simp: recentlyProbed_def prune_def dom_def not_le split: option.splits)
qed

subsection \<open>The outcome of a pass\<close>

text \<open>The providers whose result is not counted yet, and those whose success is not cached yet.\<close>

fun not_counted :: "stage \<Rightarrow> bool" where
  "not_counted Spawned = True"
| "not_counted Probing = True"
| "not_counted (Finished e) = True"
| "not_counted _ = False"

fun not_marked :: "stage \<Rightarrow> bool" where
  "not_marked (Counted None) = True"
| "not_marked st = not_counted st"

definition uncounted :: "sched \<Rightarrow> string list" where
  "uncounted s = sd_todo s @ (case sd_waiting s of None \<Rightarrow> [] | Some pid \<Rightarrow> [pid])
     @ map fst (filter (\<lambda>w. not_counted (snd w)) (sd_workers s))"

definition unmarked :: "sched \<Rightarrow> string \<Rightarrow> bool" where
  "unmarked s pid \<longleftrightarrow> pid \<in> set (sd_todo s) \<or> sd_waiting s = Some pid
     \<or> (\<exists>st. (pid, st) \<in> set (sd_workers s) \<and> not_marked st)"

text \<open>A pass over providers whose result is the function \<open>f\<close>; the cache holds past instants.\<close>

definition results_agree :: "(string \<Rightarrow> err option) \<Rightarrow> sched \<Rightarrow> bool" where
  "results_agree f s \<longleftrightarrow>
    (\<forall>pid err. (pid, Finished err) \<in> set (sd_workers s) \<or> (pid, Counted err) \<in> set (sd_workers s) \<longrightarrow> err = f pid)"

definition past :: "sched \<Rightarrow> bool" where
  "past s \<longleftrightarrow> (\<forall>pid t. sd_probed s pid = Some t \<longrightarrow> t \<le> sd_now s)"

definition counts :: "(string \<Rightarrow> err option) \<Rightarrow> string list \<Rightarrow> sched \<Rightarrow> bool" where
  "counts f pids s \<longleftrightarrow>
    su_Skipped (ps_sum (sd_pass s)) = 0 \<longrightarrow>
      su_Submitted (ps_sum (sd_pass s)) + count_if (\<lambda>q. f q = None) (uncounted s) = count_if (\<lambda>q. f q = None) pids
      \<and> su_Failed (ps_sum (sd_pass s)) + count_if (\<lambda>q. f q \<noteq> None) (uncounted s) = count_if (\<lambda>q. f q \<noteq> None) pids"

definition cached :: "(string \<Rightarrow> err option) \<Rightarrow> cache \<Rightarrow> string list \<Rightarrow> sched \<Rightarrow> bool" where
  "cached f c0 pids s \<longleftrightarrow> (\<forall>pid. (unmarked s pid \<longrightarrow> pid \<in> set pids)
     \<and> (pid \<in> dom (sd_probed s) \<or> unmarked s pid \<and> f pid = None
          \<longleftrightarrow> pid \<in> dom c0 \<or> pid \<in> set pids \<and> f pid = None))"

abbreviation answers :: "(string \<Rightarrow> err option) \<Rightarrow> string \<Rightarrow> err option \<Rightarrow> bool" where
  "answers f \<equiv> (\<lambda>q r. r = f q)"

lemma step_past:
  "step (possible) conc ttl s t \<Longrightarrow> past s \<Longrightarrow> past t"
proof (induction rule: step.induct)
  case (worker s as pid st bs now st' p c)
  from worker(3) worker(2,4) show ?case
    by cases (auto simp: past_def markProbed_def split: if_splits intro: order_trans)
qed (auto simp: past_def intro: order_trans)

lemma step_agree: "step (answers f) conc ttl s t \<Longrightarrow> results_agree f s \<Longrightarrow> results_agree f t"
proof (induction rule: step.induct)
  case (worker s as pid st bs now st' p c)
  from worker(3) worker(1,4) show ?case
    by cases (auto simp: results_agree_def)
qed (auto simp: results_agree_def)

lemma step_counts:
  "step (answers f) conc ttl s t \<Longrightarrow> results_agree f s \<Longrightarrow> counts f pids s \<Longrightarrow> counts f pids t"
proof (induction rule: step.induct)
  case (worker s as pid st bs now st' p c)
  from worker(3) worker(1,4,5) show ?case
    by cases (auto simp: counts_def uncounted_def results_agree_def record_result_sums count_attempted_def)
qed (auto simp: counts_def uncounted_def count_skipped_def)

lemma unmarked_update [simp]:
  "unmarked (s\<lparr> sd_pass := p \<rparr>) q = unmarked s q"
  "unmarked (s\<lparr> sd_probed := c \<rparr>) q = unmarked s q"
  "unmarked (s\<lparr> sd_now := now \<rparr>) q = unmarked s q"
  by (simp_all add: unmarked_def)

lemma worker_unmarked:
  assumes "sd_workers s = as @ (pid, st) # bs"
  shows "unmarked (s\<lparr> sd_workers := as @ (pid, st') # bs \<rparr>) q \<longleftrightarrow>
    q \<in> set (sd_todo s) \<or> sd_waiting s = Some q \<or> (\<exists>st. (q, st) \<in> set (as @ bs) \<and> not_marked st)
      \<or> q = pid \<and> not_marked st'"
  and "unmarked s q \<longleftrightarrow>
    q \<in> set (sd_todo s) \<or> sd_waiting s = Some q \<or> (\<exists>st. (q, st) \<in> set (as @ bs) \<and> not_marked st)
      \<or> q = pid \<and> not_marked st"
  using assms by (auto simp: unmarked_def)

lemma cached_same:
  "cached f c0 pids s \<Longrightarrow> (\<And>q. unmarked t q = unmarked s q) \<Longrightarrow> sd_probed t = sd_probed s \<Longrightarrow> cached f c0 pids t"
  by (simp add: cached_def)

lemma cached_drop:
  assumes "cached f c0 pids s" "\<And>q. unmarked t q \<Longrightarrow> unmarked s q"
    "\<And>q. unmarked s q \<Longrightarrow> f q = None \<Longrightarrow> unmarked t q \<or> q \<in> dom (sd_probed t)"
    "\<And>q. q \<in> dom (sd_probed s) \<Longrightarrow> q \<in> dom (sd_probed t)"
    "\<And>q. q \<in> dom (sd_probed t) \<Longrightarrow> q \<in> dom (sd_probed s) \<or> unmarked s q \<and> f q = None"
  shows "cached f c0 pids t"
  using assms unfolding cached_def by blast

lemma step_cached:
  "step (answers f) conc ttl s t \<Longrightarrow> results_agree f s \<Longrightarrow> cached f c0 pids s \<Longrightarrow> cached f c0 pids t"
proof (induction rule: step.induct)
  case (skip s pid rest now)
  then have "pid \<in> dom (sd_probed s)" by (auto simp: recentlyProbed_def split: option.splits)
  then show ?case using skip(1,2,6) by (elim cached_drop) (auto simp: unmarked_def)
next
  case (worker s as pid st bs now st' p c)
  from worker(3) show ?case
  proof cases
    case mark
    then have "f pid = None" using worker(1,4) by (auto simp: results_agree_def)
    then show ?thesis using worker(5) mark(1,2,4)
      by (elim cached_drop) (auto simp: worker_unmarked[OF worker(1)] markProbed_def)
  next
    case no_mark
    then have "f pid \<noteq> None" using worker(1,4) by (auto simp: results_agree_def)
    then show ?thesis using worker(5) no_mark(1,2,4)
      by (elim cached_drop) (auto simp: worker_unmarked[OF worker(1)])
  next
    case (tally err)
    then have "err = f pid" using worker(1,4) by (auto simp: results_agree_def)
    then show ?thesis using worker(5) tally(1,2,4)
      by (elim cached_drop) (cases err; auto simp: worker_unmarked[OF worker(1)])+
  next
    case start
    then show ?thesis using start(1,2,4) by (intro cached_same[OF worker(5)]) (auto simp: worker_unmarked[OF worker(1)])
  next
    case (probe err)
    then show ?thesis using probe(1,2,4) by (intro cached_same[OF worker(5)]) (auto simp: worker_unmarked[OF worker(1)])
  next
    case release
    then show ?thesis using release(1,2,4) by (intro cached_same[OF worker(5)]) (auto simp: worker_unmarked[OF worker(1)])
  qed
next
  case (admit s pid rest now)
  show ?case by (rule cached_same[OF admit(6)]) (use admit(1,2) in \<open>auto simp: unmarked_def\<close>)
next
  case (acquire s pid now)
  show ?case by (rule cached_same[OF acquire(5)]) (use acquire(1) in \<open>auto simp: unmarked_def\<close>)
next
  case (ended s as pid bs now)
  show ?case by (rule cached_same[OF ended(4)]) (use ended(1) in \<open>auto simp: unmarked_def\<close>)
qed

lemma step_no_skip:
  "step (possible) conc ttl s t \<Longrightarrow> ttl \<le> 0 \<Longrightarrow> past s \<Longrightarrow> su_Skipped (ps_sum (sd_pass s)) = 0 \<Longrightarrow>
    su_Skipped (ps_sum (sd_pass t)) = 0"
proof (induction rule: step.induct)
  case (skip s pid rest now)
  then show ?case by (fastforce simp: recentlyProbed_def past_def split: option.splits)
next
  case (worker s as pid st bs now st' p c)
  from worker(3) worker(6) show ?case by cases (auto simp: record_result_sums count_attempted_def)
qed auto

lemma reachable_past:
  assumes "reachable possible conc ttl now probed pids s" and "\<And>q t. probed q = Some t \<Longrightarrow> t \<le> now"
  shows "past s \<and> now \<le> sd_now s \<and> (ttl \<le> 0 \<longrightarrow> su_Skipped (ps_sum (sd_pass s)) = 0)"
  using assms(1) unfolding reachable_def
proof (induction rule: rtranclp_induct)
  case base
  show ?case
    using assms(2) by (auto simp: past_def start_pass_def prune_def pass0_def split: option.splits if_splits)
next
  case (step s t)
  have "sd_now s \<le> sd_now t" using step(2) by cases auto
  then show ?case using step_past[OF step(2)] step_no_skip[OF step(2)] step(3) by fastforce
qed

text \<open>What a pass counted is what its probes, of providers of its list, returned.\<close>

definition results_sound :: "(string \<Rightarrow> err option \<Rightarrow> bool) \<Rightarrow> string list \<Rightarrow> sched \<Rightarrow> bool" where
  "results_sound possible pids s \<longleftrightarrow>
    set (sd_todo s) \<subseteq> set pids \<and> set_option (sd_waiting s) \<subseteq> set pids \<and> fst ` set (sd_workers s) \<subseteq> set pids
    \<and> (\<forall>pid err. (pid, Finished err) \<in> set (sd_workers s) \<longrightarrow> possible pid err)
    \<and> list_all (\<lambda>(pid, err). pid \<in> set pids \<and> possible pid err) (ps_results (sd_pass s))
    \<and> su_Submitted (ps_sum (sd_pass s)) = count_if (\<lambda>x. snd x = None) (ps_results (sd_pass s))
    \<and> su_Failed (ps_sum (sd_pass s)) = count_if (\<lambda>x. snd x \<noteq> None) (ps_results (sd_pass s))"

lemma step_results_sound: "step possible conc ttl s t \<Longrightarrow> results_sound possible pids s \<Longrightarrow> results_sound possible pids t"
proof (induction rule: step.induct)
  case (worker s as pid st bs now st' p c)
  from worker(3) worker(1,4) show ?case
    by cases (auto simp: results_sound_def record_result_sums count_attempted_def split: if_splits)
qed (auto simp: results_sound_def count_skipped_def)

lemma reachable_results:
  assumes "reachable possible conc ttl now probed pids s"
  shows "results_sound possible pids s"
  using assms unfolding reachable_def
proof (induction rule: rtranclp_induct)
  case base
  show ?case by (simp add: results_sound_def start_pass_def pass0_def)
next
  case (step s t)
  then show ?case using step_results_sound by blast
qed

lemma reachable_outcome:
  assumes "reachable (answers f) conc ttl now probed pids s" and "\<And>q t. probed q = Some t \<Longrightarrow> t \<le> now"
  shows "past s \<and> results_agree f s \<and> counts f pids s \<and> cached f (prune ttl now probed) pids s
    \<and> (ttl \<le> 0 \<longrightarrow> su_Skipped (ps_sum (sd_pass s)) = 0)"
  using assms(1) unfolding reachable_def
proof (induction rule: rtranclp_induct)
  case base
  have "past (start_pass ttl now probed pids)"
    using assms(2) by (auto simp: past_def start_pass_def prune_def split: option.splits if_splits)
  then show ?case
    by (auto simp: start_pass_def results_agree_def counts_def cached_def uncounted_def unmarked_def pass0_def)
next
  case (step s t)
  then show ?case
    using step_past[OF step(2)] step_agree[OF step(2)] step_counts[OF step(2)] step_cached[OF step(2)]
      step_no_skip[OF step(2)] by blast
qed

text \<open>With a fresh cache only a provider that succeeded in the pass itself is ever skipped.\<close>

definition fresh_sound :: "sched \<Rightarrow> bool" where
  "fresh_sound s \<longleftrightarrow>
    (dom (sd_probed s) \<noteq> {} \<or> Counted None \<in> snd ` set (sd_workers s) \<or> 0 < su_Skipped (ps_sum (sd_pass s))
      \<longrightarrow> 0 < su_Submitted (ps_sum (sd_pass s)))"

lemma step_fresh: "step possible conc ttl s t \<Longrightarrow> fresh_sound s \<Longrightarrow> fresh_sound t"
proof (induction rule: step.induct)
  case (worker s as pid st bs now st' p c)
  from worker(3) worker(1,4) show ?case
    by cases (auto simp: fresh_sound_def record_result_sums count_attempted_def markProbed_def split: if_splits)
next
  case (skip s pid rest now)
  then show ?case
    by (auto simp: fresh_sound_def count_skipped_def recentlyProbed_def split: option.splits)
qed (auto simp: fresh_sound_def)

lemma reachable_fresh:
  assumes "reachable possible conc ttl now (\<lambda>_. None) pids s" and "returned s" "pids \<noteq> []"
  shows "0 < su_Submitted (ps_sum (sd_pass s)) \<or> 0 < su_Failed (ps_sum (sd_pass s))"
proof -
  have "fresh_sound s"
    using assms(1) unfolding reachable_def
  proof (induction rule: rtranclp_induct)
    case base
    show ?case by (simp add: fresh_sound_def start_pass_def pass0_def prune_def)
  next
    case (step s t)
    then show ?case using step_fresh by blast
  qed
  moreover have "su_Submitted (ps_sum (sd_pass s)) + su_Failed (ps_sum (sd_pass s)) + su_Skipped (ps_sum (sd_pass s)) = length pids"
    using reachable_invariant[OF assms(1)] assms(2) by (auto simp: tallied_def not_begun_def returned_def)
  ultimately show ?thesis using assms(3) by (cases pids) (auto simp: fresh_sound_def)
qed

text \<open>More answers only allow more passes.\<close>

lemma step_mono:
  assumes "\<And>q e. A q e \<Longrightarrow> B q e" "step A conc ttl s t"
  shows "step B conc ttl s t"
  using assms(2)
proof cases
  case (worker as pid st bs now st' p c)
  from worker(4) have "work B now pid st (sd_pass s, sd_probed s) st' (p, c)"
    by cases (auto intro: work.intros assms(1))
  then show ?thesis using step.worker[OF worker(2,3)] worker(1) by blast
qed (auto intro: step.intros)

lemma reachable_mono:
  assumes "\<And>q e. A q e \<Longrightarrow> B q e" "reachable A conc ttl now probed pids s"
  shows "reachable B conc ttl now probed pids s"
  using assms(2) unfolding reachable_def
proof (induction rule: rtranclp_induct)
  case (step s t)
  then show ?case using step_mono[OF assms(1)] rtranclp.rtrancl_into_rtrancl by meson
qed simp

text \<open>The specification of a pass: counts over its list.\<close>

definition pass_spec :: "(string \<Rightarrow> err option) \<Rightarrow> string list \<Rightarrow> PassSummary" where
  "pass_spec f pids =
    \<lparr> su_Attempted = length pids, su_Submitted = count_if (\<lambda>q. f q = None) pids, su_Skipped = 0,
      su_Failed = count_if (\<lambda>q. f q \<noteq> None) pids \<rparr>"

text \<open>
  C14. However its goroutines are interleaved, a pass that returns has cached exactly the
  providers that succeeded in it, beside the entries it started with, so a failed provider is
  tried again by the next pass; every provider was submitted, failed or skipped; and without a
  cache window (the pass the server schedules) none was skipped and the summary is the counts
  over the list.
\<close>

theorem pass_outcome:
  assumes "reachable (answers f) conc ttl now probed pids s" and "returned s"
    and "\<And>q t. probed q = Some t \<Longrightarrow> t \<le> now"
  shows "dom (sd_probed s) = dom (prune ttl now probed) \<union> {pid \<in> set pids. f pid = None}
    \<and> su_Submitted (ps_sum (sd_pass s)) + su_Failed (ps_sum (sd_pass s)) + su_Skipped (ps_sum (sd_pass s)) = length pids
    \<and> (ttl \<le> 0 \<longrightarrow> ps_sum (sd_pass s) = pass_spec f pids)"
proof -
  have inv: "counts f pids s" "cached f (prune ttl now probed) pids s"
      "ttl \<le> 0 \<Longrightarrow> su_Skipped (ps_sum (sd_pass s)) = 0"
    using reachable_outcome[OF assms(1,3)] by auto
  have none: "uncounted s = []" "\<not> unmarked s q" for q
    using assms(2) by (auto simp: returned_def uncounted_def unmarked_def)
  have tl: "su_Attempted (ps_sum (sd_pass s)) + su_Skipped (ps_sum (sd_pass s)) = length pids"
    "su_Submitted (ps_sum (sd_pass s)) + su_Failed (ps_sum (sd_pass s)) = su_Attempted (ps_sum (sd_pass s))"
    using reachable_invariant[OF assms(1)] assms(2) by (auto simp: tallied_def not_begun_def returned_def)
  have "ps_sum (sd_pass s) = pass_spec f pids" if "ttl \<le> 0"
    using inv(1) inv(3)[OF that] tl none(1)
    by (cases "ps_sum (sd_pass s)") (simp add: counts_def pass_spec_def)
  moreover have "dom (sd_probed s) = dom (prune ttl now probed) \<union> {pid \<in> set pids. f pid = None}"
    using inv(2) none(2) unfolding cached_def by blast
  ultimately show ?thesis using tl by auto
qed

subsection \<open>A concrete pass\<close>

text \<open>Two providers, one of which fails, through one slot; the cached third is not asked again.\<close>

definition even_ok :: "string \<Rightarrow> err option" where
  "even_ok pid = (if pid = ''a'' then None else Some (ErrorString ''refused''))"

lemma work_run:
  assumes "sd_todo s = pid # rest" "sd_waiting s = None" "sd_workers s = []"
    "\<not> recentlyProbed ttl (sd_now s) (sd_probed s) pid"
  shows "(step (answers f) conc ttl)\<^sup>*\<^sup>* s
    (s\<lparr> sd_todo := rest, sd_pass := note_result pid (f pid) (record_result pid (f pid) (count_attempted (sd_pass s))),
        sd_probed := (if f pid = None then markProbed (sd_now s) pid (sd_probed s) else sd_probed s) \<rparr>)"
    (is "(?st)\<^sup>*\<^sup>* s ?t")
proof -
  let ?w = "\<lambda>st. s\<lparr> sd_todo := rest, sd_waiting := None, sd_workers := [(pid, st)] \<rparr>"
  let ?p1 = "count_attempted (sd_pass s)"
  let ?p = "note_result pid (f pid) (record_result pid (f pid) ?p1)"
  let ?c = "if f pid = None then markProbed (sd_now s) pid (sd_probed s) else sd_probed s"
  have w: "?st (x\<lparr> sd_workers := [(pid, st)] \<rparr>) (x\<lparr> sd_workers := [(pid, st')], sd_pass := p, sd_probed := c \<rparr>)"
    if "work (answers f) (sd_now x) pid st (sd_pass x, sd_probed x) st' (p, c)" for x st st' p c
    using step.worker[of "x\<lparr> sd_workers := [(pid, st)] \<rparr>" "[]" pid st "[]" "sd_now x"] that by simp
  note rtranclp.rtrancl_into_rtrancl[trans]
  have "(?st)\<^sup>*\<^sup>* s (s\<lparr> sd_todo := rest, sd_waiting := Some pid \<rparr>)"
    using step.admit[OF assms(1,2) order_refl assms(4)] by (intro r_into_rtranclp) simp
  also have "?st \<dots> (?w Spawned)"
    using step.acquire[of "s\<lparr> sd_todo := rest, sd_waiting := Some pid \<rparr>" pid conc "sd_now s"] assms(3)
    by (simp add: slots_def effective_concurrency_def)
  also have "?st \<dots> ((?w Probing)\<lparr> sd_pass := ?p1 \<rparr>)"
    using w[of "?w Spawned", OF work.start] by (cases s) simp
  also have "?st \<dots> ((?w (Finished (f pid)))\<lparr> sd_pass := ?p1 \<rparr>)"
    using w[of "(?w Probing)\<lparr> sd_pass := ?p1 \<rparr>", OF work.probe] by (cases s) simp
  also have "?st \<dots> ((?w (Counted (f pid)))\<lparr> sd_pass := ?p \<rparr>)"
    using w[of "(?w (Finished (f pid)))\<lparr> sd_pass := ?p1 \<rparr>", OF work.tally] by (cases s) simp
  also have "?st \<dots> ((?w Marked)\<lparr> sd_pass := ?p, sd_probed := ?c \<rparr>)"
    using w[of "(?w (Counted (f pid)))\<lparr> sd_pass := ?p \<rparr>", OF work.mark]
      w[of "(?w (Counted (f pid)))\<lparr> sd_pass := ?p \<rparr>", OF work.no_mark]
    by (cases s; cases "f pid") simp_all
  also have "?st \<dots> ((?w Released)\<lparr> sd_pass := ?p, sd_probed := ?c \<rparr>)"
    using w[of "(?w Marked)\<lparr> sd_pass := ?p, sd_probed := ?c \<rparr>", OF work.release] by (cases s) simp
  also have "?st \<dots> ?t"
    using step.ended[of "(?w Released)\<lparr> sd_pass := ?p, sd_probed := ?c \<rparr>" "[]" pid "[]" "sd_now s"] assms(2,3)
    by (cases s) simp
  finally show ?thesis .
qed

lemma seq_pass:
  "\<exists>s. reachable (answers f) conc 0 now (\<lambda>_. None) pids s \<and> returned s"
proof -
  have "\<exists>t. (step (answers f) conc 0)\<^sup>*\<^sup>* s t \<and> returned t"
    if "sd_todo s = ps" "sd_waiting s = None" "sd_workers s = []" "past s" for ps s
    using that
  proof (induction ps arbitrary: s)
    case (Cons pid rest)
    let ?t = "s\<lparr> sd_todo := rest, sd_pass := note_result pid (f pid) (record_result pid (f pid) (count_attempted (sd_pass s))),
        sd_probed := (if f pid = None then markProbed (sd_now s) pid (sd_probed s) else sd_probed s) \<rparr>"
    have "\<not> recentlyProbed 0 (sd_now s) (sd_probed s) pid"
      using Cons.prems(4) by (fastforce simp: recentlyProbed_def past_def split: option.splits)
    then have "(step (answers f) conc 0)\<^sup>*\<^sup>* s ?t"
      using work_run Cons.prems by blast
    moreover have "past ?t" using Cons.prems(4) by (simp add: past_def markProbed_def)
    ultimately show ?case using Cons.IH[of ?t] Cons.prems by (auto intro: rtranclp_trans)
  qed (auto simp: returned_def)
  then show ?thesis
    by (force simp: reachable_def start_pass_def past_def prune_def)
qed

lemma seq_success:
  assumes "pids \<noteq> []"
  shows "\<exists>s. reachable (\<lambda>q r. r = None) conc 0 now (\<lambda>_. None) pids s \<and> returned s \<and> 0 < su_Submitted (ps_sum (sd_pass s))"
proof -
  obtain s where s: "reachable (answers (\<lambda>_. None)) conc 0 now (\<lambda>_. None) pids s" "returned s"
    using seq_pass[where f = "\<lambda>_. None"] by blast
  have "counts (\<lambda>_. None) pids s" "su_Skipped (ps_sum (sd_pass s)) = 0"
    using reachable_outcome[where f = "\<lambda>_. None", OF s(1)] by auto
  moreover have "uncounted s = []" using s(2) by (simp add: returned_def uncounted_def)
  ultimately show ?thesis using s assms by (auto simp: counts_def)
qed

theorem pass_outcome_witness:
  "\<exists>s. reachable (answers even_ok) 1 0 5 (\<lambda>_. None) [''a'', ''b''] s
     \<and> dom (sd_probed s) = {''a''} \<and> su_Failed (ps_sum (sd_pass s)) = 1"
proof -
  obtain s where s: "reachable (answers even_ok) 1 0 5 (\<lambda>_. None) [''a'', ''b''] s" "returned s"
    using seq_pass by blast
  have "dom (prune 0 5 (\<lambda>_. None)) = {}" by (simp add: prune_def)
  then have "dom (sd_probed s) = {''a''} \<and> su_Failed (ps_sum (sd_pass s)) = 1"
    using pass_outcome[OF s] by (auto simp: pass_spec_def even_ok_def)
  then show ?thesis using s(1) by blast
qed

theorem pass_invariant_witness:
  "\<exists>s. reachable (answers even_ok) 1 0 5 (\<lambda>_. None) [''a'', ''b''] s \<and> tunnels s \<le> 1"
proof -
  obtain s where s: "reachable (answers even_ok) 1 0 5 (\<lambda>_. None) [''a'', ''b''] s" "returned s"
    using seq_pass by blast
  then show ?thesis using pass_invariant[OF s(1)] by (auto simp: effective_concurrency_def)
qed

theorem prune_inert_witness:
  "recentlyProbed 10 20 (prune 10 8 [''a'' \<mapsto> 3, ''b'' \<mapsto> -9]) ''a'' = recentlyProbed 10 20 [''a'' \<mapsto> 3, ''b'' \<mapsto> -9] ''a''"
  using prune_inert[of 8 20 10 "[''a'' \<mapsto> 3, ''b'' \<mapsto> -9]"] by simp

end
