(* ===== verification/Pass.thy ===== *)
theory Pass
  imports Prober_Outcome Scheduler_Outcome
begin

text \<open>
  The scheduler of \<open>prober/schedule.go\<close> over the prober of \<open>prober/prober.go\<close>: what
  \<open>ProbeOne\<close> may return, over all the states of the world it can be called in, is what the
  scheduler's steps range over, and the contract the scheduler needs of it holds.
\<close>

definition prober_answers :: "('w, 'c) Prober \<Rightarrow> string \<Rightarrow> err option \<Rightarrow> bool" where
  "prober_answers P pid err \<longleftrightarrow> (\<exists>r :: 'w run. fst (ProbeOne P pid r) = err)"

interpretation prober_pass: probing "prober_answers P"
  by unfold_locales (auto simp: prober_answers_def)

text \<open>
  A scheduler: its prober and its two settings. Its cache is part of the state of a pass and of
  the process, its clock the readings that the steps see.
\<close>

record ('w, 'c) Scheduler =
  sch_Prober :: "('w, 'c) Prober"
  sch_Concurrency :: int
  sch_CacheTTL :: duration

text \<open>A state that \<open>Run\<close> can reach, from the time and the cache it starts with.\<close>

definition runs :: "('w, 'c) Scheduler \<Rightarrow> gotime \<Rightarrow> cache \<Rightarrow> string list \<Rightarrow> sched \<Rightarrow> bool" where
  "runs S now probed pids s \<longleftrightarrow>
    reachable (prober_answers (sch_Prober S)) (sch_Concurrency S) (sch_CacheTTL S) now probed pids s"

text \<open>
  C22. No deadlock: whatever the world answers to the probes, a pass can be continued from
  every reachable state until it returns, and any way of continuing it that stops has returned.
\<close>

theorem pass_returns:
  assumes "reachable (prober_answers P) conc ttl now probed pids s"
  shows "(\<exists>t. (step (prober_answers P) conc ttl)\<^sup>*\<^sup>* s t \<and> returned t)
    \<and> (\<forall>t. (step (prober_answers P) conc ttl)\<^sup>*\<^sup>* s t \<and> (\<nexists>u. step (prober_answers P) conc ttl t u) \<longrightarrow> returned t)"
proof -
  have "reachable (prober_answers P) conc ttl now probed pids t" if "(step (prober_answers P) conc ttl)\<^sup>*\<^sup>* s t" for t
    using assms that unfolding reachable_def by (rule rtranclp_trans)
  then show ?thesis using prober_pass.reachable_returns[OF assms] prober_pass.reachable_progress by blast
qed

theorem pass_returns_witness:
  "\<exists>t. (step (prober_answers strict_prober) 4 0)\<^sup>*\<^sup>* (start_pass 0 5 (\<lambda>_. None) [''a'', ''b'']) t \<and> returned t"
proof -
  have "reachable (prober_answers strict_prober) 4 0 5 (\<lambda>_. None) [''a'', ''b'']
      (start_pass 0 5 (\<lambda>_. None) [''a'', ''b''])"
    by (simp add: reachable_def)
  then show ?thesis using pass_returns by blast
qed

end
