(* ===== verification/Health_Budget.thy ===== *)
theory Health_Budget
  imports Health_Check
begin

text \<open>
  The arithmetic of the run's time. \<open>check\<close> starts one goroutine per destination behind a
  semaphore of \<open>concurrency\<close> slots; a slot that becomes free takes some waiting destination at
  once, so for any order in which they get their slots the run is list scheduling.
  \<open>slot_schedule\<close> computes when each request ends, and the theorems show that the budget
  \<open>BudgetForAllDestinations\<close> gives is enough for the whole table, and what it comes to.
\<close>

subsection \<open>The code\<close>

definition BudgetForAllDestinations :: "duration \<Rightarrow> duration \<times> nat" where
  "BudgetForAllDestinations perRequest =
    (let concurrency = 10; rounds = (length destinations + concurrency - 1) div concurrency
     in (int64 (int rounds * perRequest), concurrency))"

text \<open>
  The ends of the requests, in the order in which they get a slot: \<open>free\<close> lists the times at
  which the slots become free, earliest first, and each request takes the earliest.
\<close>

fun slot_schedule :: "duration list \<Rightarrow> duration list \<Rightarrow> duration list" where
  "slot_schedule free [] = []"
| "slot_schedule [] (t # ts) = []"
| "slot_schedule (f # free) (t # ts) = (f + t) # slot_schedule (insort (f + t) free) ts"

definition run_ends :: "nat \<Rightarrow> duration list \<Rightarrow> duration list" where
  "run_ends slots ts = slot_schedule (replicate slots 0) ts"

subsection \<open>List scheduling\<close>

lemma insort_bounded:
  fixes xs :: "duration list" and b :: "nat \<Rightarrow> duration"
  assumes "mono b" "\<forall>i<length xs. xs ! i \<le> b i" "t \<le> b (length xs)"
  shows "i \<le> length xs \<Longrightarrow> insort t xs ! i \<le> b i"
  using assms
proof (induction xs arbitrary: b i)
  case (Cons x xs)
  have mono: "mono (\<lambda>i. b (Suc i))" using Cons.prems(2) by (auto simp: mono_def)
  have x: "x \<le> b 0" using Cons.prems(3) by (metis length_greater_0_conv list.distinct(1) nth_Cons_0)
  have xs: "\<forall>i<length xs. xs ! i \<le> b (Suc i)" using Cons.prems(3) by (metis Suc_less_eq length_Cons nth_Cons_Suc)
  have b0: "b 0 \<le> b i" for i using Cons.prems(2) by (simp add: monoD)
  show ?case
  proof (cases "t \<le> x")
    case True
    then have "(t # x # xs) ! i \<le> b i"
    proof (cases i)
      case (Suc k)
      then have "(x # xs) ! k \<le> b k" using Cons.prems(1,3) by simp
      then show ?thesis using Suc monoD[OF Cons.prems(2), of k "Suc k"] by simp
    qed (use True x in simp)
    then show ?thesis using True by simp
  next
    case False
    then show ?thesis
    proof (cases i)
      case (Suc k)
      then have "insort t xs ! k \<le> b (Suc k)"
        using Cons.IH[OF _ mono xs, of k] Cons.prems(1,4) by simp
      then show ?thesis using False Suc by simp
    qed (use False x in simp)
  qed
qed simp

lemma next_round: "0 < c \<Longrightarrow> (k + c) div c = k div c + (1::nat)"
  by (subst div_add_self2) auto

lemma slot_schedule_bound:
  fixes p :: duration
  assumes "0 < c" "0 \<le> p"
  shows "length free = c \<Longrightarrow> \<forall>i<c. free ! i \<le> int ((k + i) div c) * p \<Longrightarrow> \<forall>t\<in>set ts. t \<le> p \<Longrightarrow>
    length (slot_schedule free ts) = length ts
    \<and> (\<forall>i<length ts. slot_schedule free ts ! i \<le> (int ((k + i) div c) + 1) * p)"
proof (induction ts arbitrary: free k)
  case (Cons t ts)
  obtain f fs where free: "free = f # fs" "length fs = c - 1" using Cons.prems(1) assms(1) by (cases free) auto
  have f: "f \<le> int (k div c) * p" using Cons.prems(2) assms(1) free(1) by (metis add_0_right nth_Cons_0)
  have ft: "f + t \<le> (int (k div c) + 1) * p" using f Cons.prems(3) by (simp add: algebra_simps)
  define b where "b i = int ((Suc k + i) div c) * p" for i
  have "mono b" using assms(2) by (auto simp: mono_def b_def div_le_mono intro!: mult_right_mono)
  moreover have "\<forall>i<length fs. fs ! i \<le> b i"
    using Cons.prems(2) free by (auto simp: b_def) (metis Suc_less_eq Suc_pred add_Suc_right assms(1) nth_Cons_Suc)
  moreover have "f + t \<le> b (length fs)"
    using ft assms(1) free(2) next_round[OF assms(1), of k] by (simp add: b_def add.commute)
  ultimately have "\<forall>i<c. insort (f + t) fs ! i \<le> int ((Suc k + i) div c) * p"
    using insort_bounded[of b fs "f + t"] free(2) assms(1) by (auto simp: b_def)
  then have IH: "length (slot_schedule (insort (f + t) fs) ts) = length ts"
    "\<forall>i<length ts. slot_schedule (insort (f + t) fs) ts ! i \<le> (int ((Suc k + i) div c) + 1) * p"
    using Cons.IH[of "insort (f + t) fs" "Suc k"] Cons.prems(3) free(2) assms(1) by auto
  show ?case
  proof (intro conjI allI impI)
    fix i assume i: "i < length (t # ts)"
    show "slot_schedule free (t # ts) ! i \<le> (int ((k + i) div c) + 1) * p"
      using i ft IH(2) by (cases i) (auto simp: free(1))
  qed (simp add: free(1) IH(1))
qed simp

lemma run_ends_bound:
  assumes "0 < c" "0 \<le> p" "\<forall>t\<in>set ts. t \<le> p"
  shows "length (run_ends c ts) = length ts \<and> (\<forall>e\<in>set (run_ends c ts). e \<le> int (ceil_div (length ts) c) * p)"
proof -
  have all: "length (run_ends c ts) = length ts"
    "\<forall>i<length ts. run_ends c ts ! i \<le> (int (i div c) + 1) * p"
    using slot_schedule_bound[OF assms(1,2), of "replicate c 0" 0 ts] assms
    by (simp_all add: run_ends_def)
  have "run_ends c ts ! i \<le> int (ceil_div (length ts) c) * p" if "i < length ts" for i
  proof -
    have "i div c + 1 = (i + c) div c" using next_round[OF assms(1), of i] by simp
    also have "\<dots> \<le> ceil_div (length ts) c" unfolding ceil_div_def using that by (intro div_le_mono) simp
    finally have "int (i div c) + 1 \<le> int (ceil_div (length ts) c)" by linarith
    then have "(int (i div c) + 1) * p \<le> int (ceil_div (length ts) c) * p"
      using assms(2) by (intro mult_right_mono)
    then show ?thesis using all(2) that by fastforce
  qed
  then show ?thesis using all(1) by (auto simp: in_set_conv_nth)
qed

lemma BudgetForAllDestinations_value: "BudgetForAllDestinations p = (int64 (14 * p), 10)"
  by (simp add: BudgetForAllDestinations_def destination_count Let_def)

text \<open>
  The budget for the whole table is enough: whatever the order in which the 139 requests
  get one of the 10 slots and however long each takes within its timeout, every request ends
  within \<open>BudgetForAllDestinations\<close>, so none is cut off by the budget of the run, as long as
  the product does not leave \<open>int64\<close>.
\<close>

theorem full_table_budget:
  assumes "0 \<le> p" and "int64_ok (14 * p)" and "length ts = length destinations" and "\<forall>t\<in>set ts. t \<le> p"
  shows "length (run_ends (snd (BudgetForAllDestinations p)) ts) = length destinations
    \<and> (\<forall>e\<in>set (run_ends (snd (BudgetForAllDestinations p)) ts). e \<le> fst (BudgetForAllDestinations p))"
  using run_ends_bound[of 10 p ts] assms
  by (simp add: BudgetForAllDestinations_value int64_exact destination_count ceil_div_def)

theorem full_table_budget_witness:
  "list_all (\<lambda>e. e \<le> 168 * Second) (run_ends 10 (replicate 139 (12 * Second)))"
  using full_table_budget[of "12 * Second" "replicate 139 (12 * Second)"]
  by (simp add: list_all_iff BudgetForAllDestinations_value int64_exact int64_ok_def destination_count duration_units)

end
