(* ===== verification/Main_Prober.thy ===== *)
theory Main_Prober
  imports Main_Allowlist Genuine_Tunnel Pass Health_Budget
begin

text \<open>
  \<open>newProber\<close>, \<open>egressHealthOptions\<close> and \<open>newSchedulers\<close> of \<open>cmd/egress-prober/main.go\<close>: the
  prober of production, wired from the tunnel, the geolocation consensus, the health check, the
  bandwidth sampler and the operator's server. Its world is any state \<open>'w\<close>; the record
  \<open>production\<close> says what each library does in it. The theorems lift the guarantees of the parts
  to the whole: a probe that succeeds has recorded a country-confident location.
\<close>

subsection \<open>The bounds of a health run\<close>

definition egressHealthOptions :: "duration \<Rightarrow> Options" where
  "egressHealthOptions probeTimeout =
    (let rounds0 = (SamplePerRun + DefaultConcurrency - 1) div DefaultConcurrency;
         rounds = (if rounds0 < 1 then 1 else rounds0);
         perRequest0 = probeTimeout div rounds;
         perRequest = (if perRequest0 \<le> 0 then probeTimeout else perRequest0)
     in \<lparr> op_PerRequestTimeout = perRequest, op_Budget = probeTimeout, op_Concurrency = 0,
          op_AllDestinations = False \<rparr>)"

definition health_options :: "duration \<Rightarrow> bool \<Rightarrow> Options" where
  "health_options probeTimeout allDestinations =
    (let opts = egressHealthOptions probeTimeout
     in if allDestinations
        then (let (b, c) = BudgetForAllDestinations (op_PerRequestTimeout opts)
              in opts\<lparr> op_AllDestinations := True, op_Budget := b, op_Concurrency := int c \<rparr>)
        else opts)"

lemma health_options_values:
  assumes "5 \<le> p" "int64_ok (14 * (p div 5))"
  shows "op_PerRequestTimeout (health_options p a) = p div 5" "perRequestTimeout (health_options p a) = p div 5"
    "budget (health_options p a) = (if a then 14 * (p div 5) else p)"
    "concurrency (health_options p a) = (if a then 10 else 6)"
    "op_AllDestinations (health_options p a) = a"
proof -
  have "0 < p div 5" using assms by simp
  then show "op_PerRequestTimeout (health_options p a) = p div 5" "perRequestTimeout (health_options p a) = p div 5"
    "budget (health_options p a) = (if a then 14 * (p div 5) else p)"
    "concurrency (health_options p a) = (if a then 10 else 6)"
    "op_AllDestinations (health_options p a) = a"
    using assms by (simp_all add: health_options_def egressHealthOptions_def SamplePerRun_value
        DefaultConcurrency_def BudgetForAllDestinations_value int64_exact perRequestTimeout_def budget_def concurrency_def Let_def)
qed

text \<open>
  C24. The bounds of a health run: every request of a run ends within the budget of the run,
  whatever order the requests get their slots in, for a \<open>-probe-timeout\<close> whose budget an
  \<open>int64\<close> of nanoseconds holds (104 years). A sampled run costs at most one more
  \<open>-probe-timeout\<close>; a run over the whole table, the default, may cost up to 2.8 of them, and
  more than two whenever the timeout is at least 15 ns.
\<close>

theorem health_run_bounds:
  assumes "15 \<le> p" and "int64_ok (14 * (p div 5))" and "length ts = (if a then length destinations else SamplePerRun)"
    and "\<forall>t\<in>set ts. t \<le> perRequestTimeout (health_options p a)"
  shows "(\<forall>e\<in>set (run_ends (nat (concurrency (health_options p a))) ts). e \<le> budget (health_options p a))
    \<and> (\<not> a \<longrightarrow> budget (health_options p a) = p)
    \<and> (a \<longrightarrow> 2 * p < budget (health_options p a) \<and> 5 * budget (health_options p a) \<le> 14 * p)"
proof -
  have p5: "5 \<le> p" using assms(1) by simp
  note v = health_options_values[OF p5 assms(2), of a]
  have pr: "0 \<le> p div 5" "\<forall>t\<in>set ts. t \<le> p div 5" using assms(1,4) v by simp_all
  have "\<forall>e\<in>set (run_ends (if a then 10 else 6) ts). e \<le> (if a then 14 * (p div 5) else p)"
  proof (cases a)
    case True
    then show ?thesis using run_ends_bound[of 10 "p div 5" ts] pr assms(3)
      by (simp add: destination_count ceil_div_def)
  next
    case False
    then have "\<forall>e\<in>set (run_ends 6 ts). e \<le> 5 * (p div 5)"
      using run_ends_bound[of 6 "p div 5" ts] pr assms(3) by (simp add: SamplePerRun_value ceil_div_def)
    moreover have "5 * (p div 5) \<le> p" by presburger
    ultimately show ?thesis using False by fastforce
  qed
  moreover have "2 * p < 14 * (p div 5)" using assms(1) by presburger
  moreover have "5 * (14 * (p div 5)) \<le> 14 * p" by presburger
  ultimately show ?thesis using v by (cases a) simp_all
qed

theorem health_run_bounds_witness:
  "budget (health_options (60 * Second) True) = 168 * Second
   \<and> list_all (\<lambda>e. e \<le> 168 * Second) (run_ends 10 (replicate 139 (12 * Second)))"
  using health_run_bounds[of "60 * Second" "replicate 139 (12 * Second)" True]
    health_options_values[of "60 * Second" True]
  by (simp add: duration_units destination_count list_all_iff int64_ok_def)

text \<open>
  Beyond it the product wraps around. A \<open>-probe-timeout\<close> of 1,000,000 hours is accepted, and a run
  over the whole table then has the default budget of one minute.
\<close>

lemma health_budget_wraps:
  "budget (health_options (3600000000 * Second) True) = 60 * Second"
  "perRequestTimeout (health_options (3600000000 * Second) True) = 720000000 * Second"
  by (simp_all add: health_options_def egressHealthOptions_def SamplePerRun_value DefaultConcurrency_def
      BudgetForAllDestinations_value perRequestTimeout_def budget_def DefaultBudget_def int64_def duration_units)

subsection \<open>The prober of production\<close>

text \<open>
  The libraries and the process's own shared state, as functions of the world: \<open>connect.ParseId\<close>
  (its error), the tun, the network behind an open tunnel, the clock, the context, the pin set,
  and the request environment of the server's client. \<open>pd_next\<close> is the world after a call.
\<close>

record 'w production =
  pd_unicode :: unicode
  pd_lib :: stdlib
  pd_crypto :: crypto
  pd_ParseId :: "string \<Rightarrow> string option"
  pd_cfg :: Config
  pd_createTun :: "'w \<Rightarrow> resolver_settings \<Rightarrow> string option"
  pd_resolver :: resolver_settings
  pd_network :: "tunnel \<Rightarrow> 'w \<Rightarrow> network"
  pd_now :: "'w \<Rightarrow> gotime"
  pd_ctxErr :: "'w \<Rightarrow> string option"
  pd_took :: "'w \<Rightarrow> Destination \<Rightarrow> duration"
  pd_intn :: "'w intn"
  pd_pins :: "'w \<Rightarrow> pinSet"
  pd_env :: "'w \<Rightarrow> ingest_env"
  pd_context :: "'w \<Rightarrow> context_view"
  pd_clock :: "'w \<Rightarrow> clock"
  pd_moved :: "Target \<Rightarrow> duration \<Rightarrow> 'w \<Rightarrow> 'w"
  pd_next :: "'w \<Rightarrow> 'w"

text \<open>
  The one client of a tunnel: what the geolocation lookups and the health check are handed, and
  what the bandwidth measurement sees of it.
\<close>

definition tunnel_client :: "'w production \<Rightarrow> tunnel \<Rightarrow> string list \<Rightarrow> duration \<Rightarrow> 'w \<Rightarrow> http_client" where
  "tunnel_client D t extraHosts timeout w =
    HTTPClientForHosts (pd_unicode D) (pd_crypto D) (pd_network D t w) t timeout extraHosts"

definition tunnel_link :: "'w production \<Rightarrow> tunnel \<Rightarrow> string list \<Rightarrow> 'w link" where
  "tunnel_link D t extraHosts =
    \<lparr> lk_context = pd_context D, lk_url_text = url_text (pd_lib D), lk_clock = pd_clock D,
      lk_client = (\<lambda>w. streamsOverDialerWithHosts (pd_unicode D) (pd_crypto D) (pd_network D t w) (tn_pins t) extraHosts),
      lk_after = pd_moved D \<rparr>"

definition open_err :: "open_error \<Rightarrow> err" where
  "open_err e = ErrorString (case e of
     ErrPinsRequired \<Rightarrow> ''providertunnel: Config.Pins must not be empty; ''
       @ ''a tunnel with no pins cannot safely carry a geolocation probe''
   | ErrCreateTun s \<Rightarrow> s)"

definition locate_err :: "locate_error \<Rightarrow> err" where
  "locate_err e = (case e of ErrNilClient \<Rightarrow> ErrorString ''geolocate: client must not be nil''
     | ErrNoConsensus \<Rightarrow> Sentinel geolocate_ErrNoConsensus)"

definition check_err :: "check_error \<Rightarrow> err" where
  "check_err e = (case e of CheckNilClient \<Rightarrow> ErrorString ''egresshealth: client must not be nil''
     | ErrNoDestinations \<Rightarrow> ErrorString ''egresshealth: at least one destination is required''
     | ErrNoBudget s \<Rightarrow> wrapf health_ErrNoBudget ('': '' @ s))"

text \<open>An operation of the server's client, in the world.\<close>

definition served :: "'w production \<Rightarrow> (ingest_env \<Rightarrow> 'a) \<Rightarrow> 'w \<Rightarrow> 'a \<times> 'w" where
  "served D f w = (f (pd_env D w), pd_next D w)"

definition newProber :: "'w production \<Rightarrow> duration \<Rightarrow> Client \<Rightarrow> bool \<Rightarrow> 'w Sampler option \<Rightarrow> string list
    \<Rightarrow> ('w, tunnel) Prober" where
  "newProber D probeTimeout operator allDestinations bandwidthSampler bandwidthHosts =
    (let extraHosts = DestinationHosts @ bandwidthHosts
     in \<lparr> pr_Open = (\<lambda>pid w. case pd_ParseId D pid of
             Some e \<Rightarrow> (Inl (ErrorString e), w)
           | None \<Rightarrow>
              (case fst (open_tunnel (pd_createTun D w) (pd_resolver D) ((pd_cfg D)\<lparr> cf_Pins := pins_get (pd_pins D w) \<rparr>) pid) of
                 Inl e \<Rightarrow> (Inl (open_err e), pd_next D w)
               | Inr t \<Rightarrow> (Inr (t, Some (pd_next D)), pd_next D w))),
          pr_Locate = (\<lambda>t w.
            (case LocateWithOptions (pd_unicode D) (pd_lib D) (pd_now D w)
                 (Some (tunnel_client D t extraHosts probeTimeout w)) (per_source probeTimeout) of
               Inl e \<Rightarrow> Inl (locate_err e) | Inr loc \<Rightarrow> Inr (Some loc), pd_next D w)),
          pr_Submit = (\<lambda>pid loc. served D (\<lambda>E. Submit_location E operator pid loc)),
          pr_Health = Some (\<lambda>t w.
            (case Check (pd_lib D) (pd_intn D) w (pd_ctxErr D w)
                 (Some (tunnel_client D t extraHosts probeTimeout w)) (pd_took D w)
                 (health_options probeTimeout allDestinations) of
               Inl e \<Rightarrow> Inl (check_err e) | Inr res \<Rightarrow> Inr (Some res), pd_next D w)),
          pr_HealthResults = Some (\<lambda>pid res. served D (\<lambda>E. SubmitEgressHealth E operator pid res)),
          pr_Bandwidth = map_option (\<lambda>s pid t w.
            snd (snd (SampleAll s (tunnel_link D t extraHosts) pid w))) bandwidthSampler,
          pr_Attempts = Some (\<lambda>pid failure. served D (\<lambda>E. ReportAttempt E operator pid failure)),
          pr_CtxErr = pd_ctxErr D \<rparr>)"

text \<open>The sampler of \<open>main\<close>: reservations and submissions go to the operator's server.\<close>

definition bandwidth_targets :: "string \<Rightarrow> string \<Rightarrow> string \<Rightarrow> Target list" where
  "bandwidth_targets publicAPIURL operatorSecret cdnURL =
    (let cdn = \<lparr> tg_Name = ''cdn'', tg_Source = SourceCDN, tg_URL = cdnURL, tg_Header = [] \<rparr>
     in if TrimSpace publicAPIURL \<noteq> [] then [OperatorTarget publicAPIURL operatorSecret] @ [cdn] else [cdn])"

definition newSampler :: "'w production \<Rightarrow> Client \<Rightarrow> bool \<Rightarrow> string \<Rightarrow> string \<Rightarrow> duration
    \<Rightarrow> 'w Sampler option \<times> Target list" where
  "newSampler D operator skipBandwidth publicAPIURL cdnURL bandwidthTimeout =
    (if skipBandwidth then (None, [])
     else (let targets = bandwidth_targets publicAPIURL (ic_OperatorSecret operator) cdnURL
       in (Some \<lparr> sl_Targets = targets,
             sl_Reserve = Some (\<lambda>pid n. served D (\<lambda>E. ReserveBandwidth E operator pid n)),
             sl_Submit = Some (\<lambda>pid source rate n. served D (\<lambda>E. SubmitBandwidth E operator pid source rate n)),
             sl_Timeout = bandwidthTimeout \<rparr>, targets)))"

lemma bandwidth_targets_default: "bandwidth_targets api secret CDNTestURL = DefaultTargets api secret"
  by (simp add: bandwidth_targets_def DefaultTargets_def CDNTarget_def)

text \<open>The two schedulers: the prober, the concurrency and the cache window of each.\<close>

definition newSchedulers :: "('w, 'c) Prober \<Rightarrow> int \<Rightarrow> duration
    \<Rightarrow> ('w, 'c) Scheduler \<times> ('w, 'c) Scheduler" where
  "newSchedulers p conc cacheTTL =
    (\<lparr> sch_Prober = p, sch_Concurrency = conc, sch_CacheTTL = 0 \<rparr>,
     \<lparr> sch_Prober = p, sch_Concurrency = conc, sch_CacheTTL = cacheTTL \<rparr>)"

subsection \<open>The prober is wired\<close>

lemma newProber_wired: "wired (newProber D p c a s hs)"
  by (auto simp: wired_def newProber_def Let_def split: option.splits sum.splits)

interpretation production_prober: wired_prober "newProber D p c a s hs"
  using newProber_wired by (simp flip: wired_iff)

text \<open>How a probe over an open tunnel ends.\<close>

lemma probe_tunnel_end:
  assumes "probe_tunnel P pid c r = ((f, err), r')"
  shows "\<exists>loc w r2. pr_Locate P c (rn_world r) = (loc, w)
    \<and> r2 = checkEgressHealth P pid c (trace (ELocate (failed_with loc)) (at_world w r))
    \<and> (case loc of
         Inl e \<Rightarrow> err = Some e \<and> f \<in> {FailureNoConsensus, FailureLocate}
       | Inr l \<Rightarrow> err = fst (pr_Submit P pid l (rn_world r2))
           \<and> f = (if err = None then [] else if l \<noteq> None \<and> cl_CountryConfident (the l) then FailureSubmit
                  else FailureNotConfident)
           \<and> (\<exists>es. rn_events r' = rn_events r @ ELocate None # es \<and> ESubmit err \<in> set es))"
proof -
  obtain loc w where loc: "pr_Locate P c (rn_world r) = (loc, w)" by fastforce
  let ?r2 = "checkEgressHealth P pid c (trace (ELocate (failed_with loc)) (at_world w r))"
  show ?thesis
  proof (cases loc)
    case (Inl e)
    then show ?thesis using assms loc by (auto simp: probe_tunnel_def)
  next
    case (Inr l)
    obtain se w3 where sub: "pr_Submit P pid l (rn_world ?r2) = (se, w3)" by fastforce
    obtain hs where "rn_events ?r2 = rn_events r @ ELocate None # hs"
      using health_appends[of "trace (ELocate (failed_with loc)) (at_world w r)" P pid c] Inr
      by (auto simp: appends_def failed_with_def)
    then have "\<exists>es. rn_events r' = rn_events r @ ELocate None # es \<and> ESubmit se \<in> set es"
      using assms loc sub Inr by (auto simp: probe_tunnel_def Let_def split: option.splits)
    then show ?thesis using assms loc sub Inr
      by (intro exI[of _ loc] exI[of _ w] exI[of _ ?r2])
        (auto simp: probe_tunnel_def Let_def split: option.splits)
  qed
qed

lemma probeOne_end:
  assumes "probeOne P pid r = ((f, err), r')" "f \<noteq> FailureTunnel"
  shows "\<exists>c cl w q'. pr_Open P pid (rn_world r) = (Inr (c, cl), w)
    \<and> probe_tunnel P pid c (trace (EOpen None) (at_world w r)) = ((f, err), q')
    \<and> (\<exists>es. rn_events r' = rn_events q' @ es)"
  using assms by (fastforce simp: probeOne_def Let_def close_after_def failed_with_def split: sum.splits prod.splits option.splits)

text \<open>The worlds of a probe: each call takes the world it finds and leaves the next one.\<close>

lemma health_world:
  "\<exists>j\<le>2. rn_world (checkEgressHealth (newProber D p c a s hs) pid t r) = (pd_next D ^^ j) (rn_world r)"
proof -
  have j: "w = (pd_next D ^^ j) v \<Longrightarrow> j \<le> 2 \<Longrightarrow> \<exists>j\<le>2. w = (pd_next D ^^ j) v" for w v j by blast
  show ?thesis
    by (auto simp: health_steps newProber_def served_def Let_def numeral_2_eq_2 split: option.split sum.split
        intro: j[of _ 0] j[of _ 1] j[of _ 2])
qed

text \<open>
  A tunnel opened in a world, with the pins then in force, and what its client located in the
  next one.
\<close>

definition probe_located :: "'w production \<Rightarrow> duration \<Rightarrow> string list \<Rightarrow> string \<Rightarrow> 'w \<Rightarrow> tunnel \<Rightarrow> ConsensusLocation \<Rightarrow> bool" where
  "probe_located D timeout hosts pid w0 t loc \<longleftrightarrow>
    fst (open_tunnel (pd_createTun D w0) (pd_resolver D) ((pd_cfg D)\<lparr> cf_Pins := pins_get (pd_pins D w0) \<rparr>) pid) = Inr t
    \<and> LocateWithOptions (pd_unicode D) (pd_lib D) (pd_now D (pd_next D w0))
        (Some (tunnel_client D t (DestinationHosts @ hosts) timeout (pd_next D w0))) (per_source timeout) = Inr loc"

lemma probe_located_pins: "probe_located D timeout hosts pid w0 t loc \<Longrightarrow> tn_pins t = pins_get (pd_pins D w0)"
  by (auto simp: probe_located_def open_tunnel_def split: if_splits option.splits)

text \<open>A probe that is answered: what its prober located, and what submitting it returned.\<close>

lemma production_located:
  assumes "probeOne (newProber D timeout operator all sampler hosts) pid r = ((f, err), r')"
    and "f \<in> {[], FailureNotConfident, FailureSubmit}"
  shows "\<exists>t loc k. probe_located D timeout hosts pid (rn_world r) t loc \<and> 2 \<le> k \<and> k \<le> 4
   \<and> err = Submit_location (pd_env D ((pd_next D ^^ k) (rn_world r))) operator pid (Some loc)
   \<and> f = (if err = None then [] else if cl_CountryConfident loc then FailureSubmit else FailureNotConfident)
   \<and> (\<exists>es. rn_events r' = rn_events r @ EOpen None # ELocate None # es \<and> ESubmit err \<in> set es)"
proof -
  let ?P = "newProber D timeout operator all sampler hosts"
  have fs: "f \<noteq> FailureTunnel" "f \<notin> {FailureNoConsensus, FailureLocate}" using assms(2) by (auto simp: failures)
  obtain c cl w0' q' es0 where opened: "pr_Open ?P pid (rn_world r) = (Inr (c, cl), w0')"
    "probe_tunnel ?P pid c (trace (EOpen None) (at_world w0' r)) = ((f, err), q')" "rn_events r' = rn_events q' @ es0"
    using probeOne_end[OF assms(1) fs(1)] by blast
  have op: "fst (open_tunnel (pd_createTun D (rn_world r)) (pd_resolver D)
      ((pd_cfg D)\<lparr> cf_Pins := pins_get (pd_pins D (rn_world r)) \<rparr>) pid) = Inr c" "w0' = pd_next D (rn_world r)"
    using opened(1) by (auto simp: newProber_def Let_def split: option.splits sum.splits)
  obtain located w1 r2 where e: "pr_Locate ?P c w0' = (located, w1)"
    "r2 = checkEgressHealth ?P pid c (trace (ELocate (failed_with located)) (at_world w1 (trace (EOpen None) (at_world w0' r))))"
    "case located of Inl e \<Rightarrow> err = Some e \<and> f \<in> {FailureNoConsensus, FailureLocate}
       | Inr l \<Rightarrow> err = fst (pr_Submit ?P pid l (rn_world r2))
           \<and> f = (if err = None then [] else if l \<noteq> None \<and> cl_CountryConfident (the l) then FailureSubmit
                  else FailureNotConfident)
           \<and> (\<exists>es. rn_events q' = rn_events (trace (EOpen None) (at_world w0' r)) @ ELocate None # es \<and> ESubmit err \<in> set es)"
    using probe_tunnel_end[OF opened(2)] by auto
  then obtain l where l: "located = Inr l" using fs(2) by (cases located) auto
  have w1: "w1 = pd_next D w0'" using e(1) by (auto simp: newProber_def Let_def)
  obtain loc where loc: "l = Some loc" "LocateWithOptions (pd_unicode D) (pd_lib D) (pd_now D w0')
       (Some (tunnel_client D c (DestinationHosts @ hosts) timeout w0')) (per_source timeout) = Inr loc"
    using e(1) l by (auto simp: newProber_def Let_def split: sum.splits)
  obtain j where j: "j \<le> 2" "rn_world r2 = (pd_next D ^^ j) w1"
    using health_world[of D timeout operator all sampler hosts pid c
        "trace (ELocate (failed_with located)) (at_world w1 (trace (EOpen None) (at_world w0' r)))"] e(2) by auto
  then have world: "rn_world r2 = (pd_next D ^^ (j + 2)) (rn_world r)"
    by (simp add: w1 op(2) funpow_swap1)
  have sub: "err = Submit_location (pd_env D ((pd_next D ^^ (j + 2)) (rn_world r))) operator pid (Some loc)"
    "f = (if err = None then [] else if cl_CountryConfident loc then FailureSubmit else FailureNotConfident)"
    using e(3) l loc(1) world by (simp_all add: newProber_def served_def Let_def)
  have ev: "\<exists>es. rn_events r' = rn_events r @ EOpen None # ELocate None # es \<and> ESubmit err \<in> set es"
    using e(3) l opened(3) by auto
  have "probe_located D timeout hosts pid (rn_world r) c loc"
    using op loc(2) by (simp add: probe_located_def)
  then show ?thesis using sub ev j(1)
    by (intro exI[of _ c] exI[of _ loc] exI[of _ "j + 2"]) simp
qed

text \<open>Submitting a location that \<open>Locate\<close> returned.\<close>

lemma located_submission:
  assumes "unicode_ok U" "LocateWithOptions U L now c d = Inr loc" "now \<noteq> 0"
  shows "Submit_location E operator pid (Some loc) = None \<longleftrightarrow> cl_CountryConfident loc \<and> marshal_error E loc = None
      \<and> answered_with (send E operator (post operator ''/network/provider-egress-location'' (submit_body E pid loc))) 200"
    and "cl_CountryConfident loc \<Longrightarrow> MinSources \<le> country_votes U (filter sr_OK (cl_Sources loc)) (cl_CountryCode loc)"
proof -
  have "submit_refusal E (Some loc) = (if cl_CountryConfident loc then None else Some (Sentinel ErrNotConfident))"
    using locate_not_refused[OF assms(1) assms(2)[unfolded LocateWithOptions_def] assms(3)] .
  then show "Submit_location E operator pid (Some loc) = None \<longleftrightarrow> cl_CountryConfident loc \<and> marshal_error E loc = None
      \<and> answered_with (send E operator (post operator ''/network/provider-egress-location'' (submit_body E pid loc))) 200"
    by (auto simp: Submit_location_def outcome_def status_error_def answered_with_def split: sum.splits option.splits)
  show "MinSources \<le> country_votes U (filter sr_OK (cl_Sources loc)) (cl_CountryCode loc)" if "cl_CountryConfident loc"
    using confident_record[OF assms(1)] that locate_fields[OF assms(2)[unfolded LocateWithOptions_def]] by metis
qed

text \<open>
  C3. What the operator records, followed through one probe of the production prober: a probe that
  is answered has opened its tunnel with the pins in force at that moment, located the provider
  through that tunnel, and submitted that very location in the same run; it returns no error
  exactly when the location is country-confident, at least two sources agree on it, its instant has
  a JSON text, and the server answered 200 to the document. The class \<open>not_confident\<close> is only given
  to a location that is not confident, and \<open>submit_failed\<close> only to a confident one.
\<close>

theorem production_outcome:
  assumes "unicode_ok (pd_unicode D)" and "\<And>w. pd_now D w \<noteq> 0"
    and "probeOne (newProber D timeout operator all sampler hosts) pid r = ((f, err), r')"
    and "f \<in> {[], FailureNotConfident, FailureSubmit}"
  shows "\<exists>t loc k es. probe_located D timeout hosts pid (rn_world r) t loc
   \<and> tn_pins t = pins_get (pd_pins D (rn_world r)) \<and> 2 \<le> k \<and> k \<le> 4
   \<and> rn_events r' = rn_events r @ EOpen None # ELocate None # es \<and> ESubmit err \<in> set es
   \<and> (f = FailureNotConfident \<longleftrightarrow> \<not> cl_CountryConfident loc)
   \<and> (f \<noteq> FailureNotConfident \<longrightarrow>
        MinSources \<le> country_votes (pd_unicode D) (filter sr_OK (cl_Sources loc)) (cl_CountryCode loc)
      \<and> (f = [] \<longleftrightarrow> marshal_error (pd_env D ((pd_next D ^^ k) (rn_world r))) loc = None
         \<and> answered_with (send (pd_env D ((pd_next D ^^ k) (rn_world r))) operator
           (post operator ''/network/provider-egress-location'' (submit_body (pd_env D ((pd_next D ^^ k) (rn_world r))) pid loc))) 200))"
proof -
  obtain t loc k es where l: "probe_located D timeout hosts pid (rn_world r) t loc" "2 \<le> k" "k \<le> 4"
    "err = Submit_location (pd_env D ((pd_next D ^^ k) (rn_world r))) operator pid (Some loc)"
    "f = (if err = None then [] else if cl_CountryConfident loc then FailureSubmit else FailureNotConfident)"
    "rn_events r' = rn_events r @ EOpen None # ELocate None # es" "ESubmit err \<in> set es"
    using production_located[OF assms(3,4)] by blast
  note located = conjunct2[OF l(1)[unfolded probe_located_def]]
  note sub = located_submission(1)[OF assms(1) located assms(2), of "pd_env D ((pd_next D ^^ k) (rn_world r))" operator pid]
    located_submission(2)[OF assms(1) located assms(2)]
  show ?thesis
    by (intro exI[of _ t] exI[of _ loc] exI[of _ k] exI[of _ es])
      (use l probe_located_pins[OF l(1)] sub in \<open>auto simp: failures\<close>)
qed

text \<open>A probe that succeeded, as the scheduler sees it.\<close>

definition recorded_location :: "'w production \<Rightarrow> duration \<Rightarrow> Client \<Rightarrow> string list \<Rightarrow> string \<Rightarrow> bool" where
  "recorded_location D timeout operator hosts pid \<longleftrightarrow> (\<exists>w0 t loc k. probe_located D timeout hosts pid w0 t loc
   \<and> cl_CountryConfident loc
   \<and> MinSources \<le> country_votes (pd_unicode D) (filter sr_OK (cl_Sources loc)) (cl_CountryCode loc)
   \<and> answered_with (send (pd_env D ((pd_next D ^^ k) w0)) operator
           (post operator ''/network/provider-egress-location'' (submit_body (pd_env D ((pd_next D ^^ k) w0)) pid loc))) 200)"

lemma probe_success_recorded:
  assumes "unicode_ok (pd_unicode D)" and "\<And>w. pd_now D w \<noteq> 0"
    and "prober_answers (newProber D timeout operator all sampler hosts) pid None"
  shows "recorded_location D timeout operator hosts pid"
proof -
  let ?P = "newProber D timeout operator all sampler hosts"
  obtain r where r: "fst (ProbeOne ?P pid r) = None" using assms(3) by (auto simp: prober_answers_def)
  obtain f err r1 where run: "probeOne ?P pid r = ((f, err), r1)" by (metis surj_pair)
  have "err = None" using r run by (simp add: ProbeOne_def Let_def split: prod.splits)
  moreover have "f = []"
    using production_prober.one_run[OF run] \<open>err = None\<close> unfolding appends_def by blast
  ultimately have run: "probeOne ?P pid r = (([], None), r1)" using run by simp
  obtain t loc k where l: "probe_located D timeout hosts pid (rn_world r) t loc"
    "None = Submit_location (pd_env D ((pd_next D ^^ k) (rn_world r))) operator pid (Some loc)"
    using production_located[OF run] by blast
  note located = conjunct2[OF l(1)[unfolded probe_located_def]]
  show ?thesis
    unfolding recorded_location_def
    using l located_submission(1)[OF assms(1) located assms(2), of "pd_env D ((pd_next D ^^ k) (rn_world r))" operator pid]
      located_submission(2)[OF assms(1) located assms(2)] by metis
qed

subsection \<open>A concrete production\<close>

text \<open>A production whose tunnels lead through the honest provider, with pins for every source.\<close>

definition over_genuine :: "'w production \<Rightarrow> bool" where
  "over_genuine D \<longleftrightarrow> pd_unicode D = latin_unicode \<and> pd_lib D = genuine_lib \<and> pd_crypto D = sample_crypto
    \<and> (\<forall>t w. pd_network D t w = genuine_network) \<and> (\<forall>w. pd_now D w = 7) \<and> (\<forall>x. pd_ParseId D x = None)
    \<and> (\<forall>w r. pd_createTun D w r = None) \<and> (\<forall>w. pn_pins (pd_pins D w) = sample_pins)"

lemma over_genuine_located:
  assumes "over_genuine D" "tn_pins t = sample_pins"
  shows "\<exists>loc. LocateWithOptions (pd_unicode D) (pd_lib D) (pd_now D w) (Some (tunnel_client D t hosts timeout w)) (per_source timeout) = Inr loc
    \<and> cl_CountryConfident loc"
  using genuine_located[of hosts timeout "per_source timeout"] assms
  by (simp add: over_genuine_def tunnel_client_def HTTPClientForHosts_def)

lemma sample_pins_some: "sample_pins \<noteq> []"
  by (simp add: sample_pins_def)

text \<open>Every probe of it is answered, with a confident location.\<close>

lemma over_genuine_probe:
  assumes "over_genuine D" "probeOne (newProber D timeout operator all sampler hosts) pid r = ((f, err), r')"
  shows "f \<in> {[], FailureSubmit}"
    "\<exists>loc k. err = Submit_location (pd_env D ((pd_next D ^^ k) (rn_world r))) operator pid (Some loc)
       \<and> cl_CountryConfident loc \<and> (\<exists>w t. LocateWithOptions (pd_unicode D) (pd_lib D) (pd_now D w)
          (Some (tunnel_client D t (DestinationHosts @ hosts) timeout w)) (per_source timeout) = Inr loc)"
proof -
  let ?P = "newProber D timeout operator all sampler hosts"
  obtain t cl w where op: "pr_Open ?P pid (rn_world r) = (Inr (t, cl), w)" "tn_pins t = sample_pins"
    using assms(1) sample_pins_some
    by (simp add: newProber_def Let_def over_genuine_def open_tunnel_def pins_get_def)
  obtain l w' where loc: "pr_Locate ?P t w = (Inr (Some l), w')"
    using over_genuine_located[OF assms(1) op(2), of w "DestinationHosts @ hosts" timeout]
    by (auto simp: newProber_def Let_def)
  have "f \<noteq> FailureTunnel"
    using assms(2) op(1) by (auto simp: probeOne_def probe_tunnel_def Let_def close_after_def failures
        split: sum.splits prod.splits option.splits if_splits)
  then obtain c cl2 w2 q' where e: "pr_Open ?P pid (rn_world r) = (Inr (c, cl2), w2)"
    "probe_tunnel ?P pid c (trace (EOpen None) (at_world w2 r)) = ((f, err), q')"
    using probeOne_end[OF assms(2)] by blast
  have "f \<in> {[], FailureNotConfident, FailureSubmit}"
    using probe_tunnel_end[OF e(2)] e(1) op(1) loc by (auto split: if_splits)
  then obtain t' l' k where l': "probe_located D timeout hosts pid (rn_world r) t' l'"
    "err = Submit_location (pd_env D ((pd_next D ^^ k) (rn_world r))) operator pid (Some l')"
    "f = (if err = None then [] else if cl_CountryConfident l' then FailureSubmit else FailureNotConfident)"
    using production_located[OF assms(2)] by blast
  have "tn_pins t' = sample_pins" using probe_located_pins[OF l'(1)] assms(1) by (simp add: over_genuine_def pins_get_def)
  then have c: "cl_CountryConfident l'"
    using over_genuine_located[OF assms(1), of t' "pd_next D (rn_world r)" "DestinationHosts @ hosts" timeout] l'(1)
    by (auto simp: probe_located_def)
  show "f \<in> {[], FailureSubmit}" using l'(3) c by auto
  show "\<exists>loc k. err = Submit_location (pd_env D ((pd_next D ^^ k) (rn_world r))) operator pid (Some loc)
       \<and> cl_CountryConfident loc \<and> (\<exists>w t. LocateWithOptions (pd_unicode D) (pd_lib D) (pd_now D w)
          (Some (tunnel_client D t (DestinationHosts @ hosts) timeout w)) (per_source timeout) = Inr loc)"
    using l' c unfolding probe_located_def by blast
qed

definition sample_production :: "nat production" where
  "sample_production = \<lparr> pd_unicode = latin_unicode, pd_lib = genuine_lib, pd_crypto = sample_crypto,
     pd_ParseId = (\<lambda>_. None), pd_cfg = sample_cfg, pd_createTun = (\<lambda>w r. None),
     pd_resolver = \<lparr> EnableRemoteDoh = True, EnableLocalDns = True, EnableLocalDoh = True,
       EnableRemoteDns = True, RemoteDohUrlsIpv4 = [], RemoteDohUrlsIpv6 = [], RemoteDnsIpv4 = [],
       RemoteDnsIpv6 = [], LocalDnsIpv4 = [], LocalDnsIpv6 = [] \<rparr>,
     pd_network = (\<lambda>t w. genuine_network), pd_now = (\<lambda>w. 7), pd_ctxErr = (\<lambda>w. None),
     pd_took = (\<lambda>w d. 0), pd_intn = (\<lambda>w n. (0, w)),
     pd_pins = (\<lambda>w. \<lparr> pn_pins = sample_pins, pn_fetchedAt = 9 \<rparr>), pd_env = (\<lambda>w. sample_env),
     pd_context = lk_context sample_link, pd_clock = lk_clock sample_link, pd_moved = (\<lambda>t d w. w), pd_next = Suc \<rparr>"

lemma sample_over_genuine: "over_genuine sample_production"
  by (simp add: over_genuine_def sample_production_def)

lemma sample_production_ok:
  "unicode_ok (pd_unicode sample_production)" "pd_now sample_production w \<noteq> 0"
  by (simp_all add: sample_production_def latin_unicode_ok)

theorem production_outcome_witness:
  "\<exists>f err r' t loc. probeOne (newProber sample_production Second operator_client True None []) ''p'' (fresh_run 0) = ((f, err), r')
     \<and> probe_located sample_production Second [] ''p'' 0 t loc \<and> tn_pins t = sample_pins \<and> cl_CountryConfident loc
     \<and> f \<noteq> FailureNotConfident"
proof -
  obtain f err r' where run: "probeOne (newProber sample_production Second operator_client True None []) ''p'' (fresh_run 0)
      = ((f, err), r')" by (metis surj_pair)
  have f: "f \<in> {[], FailureSubmit}" using over_genuine_probe(1)[OF sample_over_genuine run] .
  then have "f \<in> {[], FailureNotConfident, FailureSubmit}" "f \<noteq> FailureNotConfident" by (auto simp: failures)
  then show ?thesis
    using production_outcome[OF sample_production_ok run] run
    by (fastforce simp: fresh_run_def sample_production_def pins_get_def)
qed

end
