(* ===== verification/Main_Requests.thy ===== *)
theory Main_Requests
  imports Main_Prober
begin

text \<open>
  What a probe of production asks of the outside, and what has no part in its outcome. The
  lookups, the health run and the measurements depend on their client only through the requests
  of the tables and targets. From that follow three properties of the prober that \<open>newProber\<close> of
  \<open>cmd/egress-prober/main.go\<close> builds: its tunnel refuses none of them, only the request to the
  operator's own target carries the operator's secret, and the diagnostics do not change what a
  probe reports.
\<close>

subsection \<open>The requests of a probe\<close>

lemma Locate_requests:
  assumes "\<And>s time. s \<in> set sources \<Longrightarrow> do_request c time (GET (src_URL s) []) = do_request c' time (GET (src_URL s) [])"
  shows "LocateWithOptions U L now (Some c) opts = LocateWithOptions U L now (Some c') opts"
proof -
  have "fetchSource L c s time = fetchSource L c' s time" if "s \<in> set sources" for s time
    unfolding fetchSource_def assms[OF that] ..
  then have eq: "map (\<lambda>s. fetchSource L c s time) sources = map (\<lambda>s. fetchSource L c' s time) sources" for time
    by (rule map_cong[OF refl])
  show ?thesis unfolding LocateWithOptions_def locate_def option.case eq ..
qed

lemma Check_requests:
  assumes "intn_ok intn"
    and "\<And>d time. d \<in> set destinations \<Longrightarrow> do_request c time (check_request d) = do_request c' time (check_request d)"
  shows "Check L intn g ctx (Some c) took opts = Check L intn g ctx (Some c') took opts"
proof -
  have "fetch L c took d time = fetch L c' took d time" if "d \<in> set destinations" for d time
    unfolding fetch_def assms(2)[OF that] ..
  then have eq: "map (\<lambda>d. fetch L c took d time) dests = map (\<lambda>d. fetch L c' took d time) dests"
    if "set dests \<subseteq> set destinations" for dests time
    using that by (intro map_cong[OF refl]) blast
  have "check L ctx (Some c) took dests opts = check L ctx (Some c') took dests opts"
    if "set dests \<subseteq> set destinations" for dests
    unfolding check_def option.case eq[OF that] ..
  then show ?thesis using production_subset[OF assms(1), of g] by (simp add: Check_def Let_def)
qed

lemma Measure_requests:
  assumes "\<And>i url. sizedURL urlText (tg_URL tg) StreamBytes = Inr url \<Longrightarrow>
      sc_do c i (GET url (tg_Header tg)) = sc_do c' i (GET url (tg_Header tg))"
  shows "MeasureTarget urlText ck c tg time = MeasureTarget urlText ck c' tg time"
proof -
  have "openStream urlText c url (tg_Header tg) i = openStream urlText c' url (tg_Header tg) i"
    if "sizedURL urlText (tg_URL tg) StreamBytes = Inr url" for url i
    unfolding openStream_def assms[OF that] ..
  then have "openStream urlText c url (tg_Header tg) = openStream urlText c' url (tg_Header tg)"
    if "sizedURL urlText (tg_URL tg) StreamBytes = Inr url" for url
    using that by blast
  then show ?thesis by (simp add: MeasureTarget_def measure_def split: sum.split)
qed

lemma Sample_requests:
  assumes "\<And>tg w i url. tg \<in> set (sl_Targets s) \<Longrightarrow> sizedURL (lk_url_text lk) (tg_URL tg) StreamBytes = Inr url \<Longrightarrow>
      sc_do (lk_client lk w) i (GET url (tg_Header tg)) = sc_do (client w) i (GET url (tg_Header tg))"
  shows "SampleAll s lk pid w = SampleAll s (lk\<lparr> lk_client := client \<rparr>) pid w"
proof -
  have one: "sampleOne s lk pid tg w = sampleOne s (lk\<lparr> lk_client := client \<rparr>) pid tg w" if "tg \<in> set (sl_Targets s)" for tg w
  proof -
    have "MeasureTarget (lk_url_text lk) ck (lk_client lk v) tg time = MeasureTarget (lk_url_text lk) ck (client v) tg time" for ck v time
      by (rule Measure_requests) (rule assms[OF that])
    then have eq: "measure_and_submit s lk pid tg v = measure_and_submit s (lk\<lparr> lk_client := client \<rparr>) pid tg v" for v
      by (simp add: measure_and_submit_def)
    show ?thesis unfolding sampleOne_def eq by simp
  qed
  have "sample_targets s lk pid tgs w = sample_targets s (lk\<lparr> lk_client := client \<rparr>) pid tgs w"
    if "set tgs \<subseteq> set (sl_Targets s)" for tgs w
    using that one by (induction tgs arbitrary: w) simp_all
  then show ?thesis by (simp add: SampleAll_def)
qed

subsection \<open>A tunnel that refuses nothing\<close>

text \<open>
  The dialer without an allowlist: every host is dialled, and the handshake is that of the tunnel,
  with the pins of the host where it has some.
\<close>

definition dial_any :: "unicode \<Rightarrow> crypto \<Rightarrow> (string \<Rightarrow> string + peer) \<Rightarrow> pin_entries \<Rightarrow> string \<Rightarrow> dial_error + peer" where
  "dial_any U C dial pins addr =
    (case dial addr of
       Inl err \<Rightarrow> Inl (DialErr err)
     | Inr raw \<Rightarrow>
        (case tls_handshake (PinnedTLSConfigForHost U C pins (case SplitHostPort addr of Some (h, _) \<Rightarrow> h | None \<Rightarrow> addr)) raw of
           Some err \<Rightarrow> Inl err
         | None \<Rightarrow> Inr raw))"

definition carry_any :: "unicode \<Rightarrow> crypto \<Rightarrow> network \<Rightarrow> pin_entries \<Rightarrow> string \<Rightarrow> carrier" where
  "carry_any U C N pins url =
    (case tls_address N url of
       None \<Rightarrow> InClear
     | Some addr \<Rightarrow> (case dial_any U C (nw_dial N) pins addr of Inl e \<Rightarrow> NotSent e | Inr p \<Rightarrow> OverTLS p))"

definition open_client :: "'w production \<Rightarrow> tunnel \<Rightarrow> duration \<Rightarrow> 'w \<Rightarrow> http_client" where
  "open_client D t timeout w =
    \<lparr> do_request = (\<lambda>deadline req.
        let cap = (if 0 < timeout then min timeout deadline else deadline); N = pd_network D t w
        in case carry_any (pd_unicode D) (pd_crypto D) N (tn_pins t) (rq_URL req) of
             InClear \<Rightarrow> nw_plain N cap req
           | NotSent e \<Rightarrow> Inl (nw_error N e)
           | OverTLS p \<Rightarrow> nw_answer N p cap req) \<rparr>"

definition open_streams :: "'w production \<Rightarrow> tunnel \<Rightarrow> 'w \<Rightarrow> stream_client" where
  "open_streams D t w =
    \<lparr> sc_do = (\<lambda>i req. let N = pd_network D t w
        in case carry_any (pd_unicode D) (pd_crypto D) N (tn_pins t) (rq_URL req) of
             InClear \<Rightarrow> nw_plain_stream N i req
           | NotSent e \<Rightarrow> Inl (nw_error N e)
           | OverTLS p \<Rightarrow> nw_stream N p i req) \<rparr>"

lemma carry_any_known: "carry_any U C N pins url \<noteq> NotSent (HostUnknown h)"
  by (auto simp: carry_any_def dial_any_def tls_handshake_def split: option.splits sum.splits)

lemma dial_any_eq:
  assumes "SplitHostPort addr = Some (host, port)" "allowed_hosts U pins extra (normalizeHost U host) \<noteq> None"
  shows "fst (DialTLSContext U C dial pins extra addr) = dial_any U C dial pins addr"
  using assms by (auto simp: DialTLSContext_def dial_any_def Let_def split: sum.splits option.splits)

text \<open>Of a URL of the probe the allowlist makes no difference.\<close>

lemma carry_probe:
  assumes "covers pins" "list_all plain_tg targets" "url \<in> probe_urls urlText targets"
  shows "carry U C N pins (DestinationHosts @ TargetHosts targets) url = carry_any U C N pins url"
proof (cases "tls_address N url")
  case (Some addr)
  obtain h port where h: "plain_name h" "list_all is_digit_char port" "addr = JoinHostPort h port"
    "h \<in> set SourceHosts \<or> h \<in> set (DestinationHosts @ TargetHosts targets)"
    using probe_request[OF assms(2,3), of N] Some by auto
  have "normalizeHost U h \<noteq> []" using plain_normal[OF h(1)] by blast
  moreover have "fst ` set pins = set SourceHosts" using assms(1) unfolding covers_def by (metis list.set_map)
  ultimately have "normalizeHost U h \<in> dom (allowed_hosts U pins (DestinationHosts @ TargetHosts targets))"
    using h(4) unfolding allowed_hosts_dom by blast
  then show ?thesis
    using dial_any_eq[OF SplitHostPort_plain[OF h(1,2)]] h(3) Some by (auto simp: carry_def carry_any_def)
qed (simp add: carry_def carry_any_def)

lemma tunnel_open:
  assumes "covers (tn_pins t)" "list_all plain_tg targets" "rq_URL req \<in> probe_urls urlText targets"
  shows "do_request (tunnel_client D t (DestinationHosts @ TargetHosts targets) timeout w) time req
      = do_request (open_client D t timeout w) time req"
    "sc_do (lk_client (tunnel_link D t (DestinationHosts @ TargetHosts targets)) w) i req = sc_do (open_streams D t w) i req"
  using carry_probe[OF assms]
  by (simp_all add: tunnel_client_def HTTPClientForHosts_def httpClientOverDialerWithHosts_def open_client_def
      tunnel_link_def streamsOverDialerWithHosts_def open_streams_def Let_def)

text \<open>
  C20. A probe is never refused by its own tunnel. For the prober that \<open>newProber\<close> builds, with the
  bandwidth targets of production and their hosts, and a tunnel whose pins cover the sources:
  what its lookup, its health run and its bandwidth sampling return is what they return over a
  tunnel without an allowlist, whose dialer never answers that a host is unknown. The URLs of
  the bandwidth targets are plain ones: http or https, a host name, and a port in digits if any.
\<close>

theorem probe_requests_allowed:
  assumes "covers (tn_pins t)" and "list_all plain_tg targets" and "intn_ok (pd_intn D)"
    and "newSampler D operator skip api cdn bt = (sampler, targets)"
  shows "let P = newProber D timeout operator all sampler (TargetHosts targets);
             link = (tunnel_link D t [])\<lparr> lk_client := open_streams D t \<rparr> in
    fst (pr_Locate P t w) = (case LocateWithOptions (pd_unicode D) (pd_lib D) (pd_now D w)
        (Some (open_client D t timeout w)) (per_source timeout) of
          Inl e \<Rightarrow> Inl (locate_err e) | Inr loc \<Rightarrow> Inr (Some loc))
    \<and> map_option (\<lambda>health. fst (health t w)) (pr_Health P)
      = Some (case Check (pd_lib D) (pd_intn D) w (pd_ctxErr D w) (Some (open_client D t timeout w)) (pd_took D w)
                (health_options timeout all) of
          Inl e \<Rightarrow> Inl (check_err e) | Inr res \<Rightarrow> Inr (Some res))
    \<and> map_option (\<lambda>sample. sample pid t w) (pr_Bandwidth P)
      = map_option (\<lambda>s. snd (snd (SampleAll s link pid w))) sampler
    \<and> (\<forall>N url h. carry_any (pd_unicode D) (pd_crypto D) N (tn_pins t) url \<noteq> NotSent (HostUnknown h))"
proof -
  let ?hosts = "DestinationHosts @ TargetHosts targets"
  have request: "do_request (tunnel_client D t ?hosts timeout w) time (GET url hdr) = do_request (open_client D t timeout w) time (GET url hdr)"
    if "url \<in> src_URL ` set sources \<union> d_URL ` set destinations" for url hdr time
  proof -
    have "rq_URL (GET url hdr) \<in> probe_urls id targets" using that by (auto simp: probe_urls_def GET_def)
    from tunnel_open(1)[OF assms(1,2) this] show ?thesis .
  qed
  have "LocateWithOptions U L now (Some (tunnel_client D t ?hosts timeout w)) opts
      = LocateWithOptions U L now (Some (open_client D t timeout w)) opts" for U L now opts
    by (rule Locate_requests) (auto intro: request)
  moreover have "Check L (pd_intn D) g ctx (Some (tunnel_client D t ?hosts timeout w)) took opts
      = Check L (pd_intn D) g ctx (Some (open_client D t timeout w)) took opts" for L ctx took opts g
    by (rule Check_requests[OF assms(3)]) (auto simp: check_request_def intro: request)
  moreover have "SampleAll s (tunnel_link D t ?hosts) pid w
      = SampleAll s ((tunnel_link D t [])\<lparr> lk_client := open_streams D t \<rparr>) pid w" if "sampler = Some s" for s
  proof -
    have tgs: "sl_Targets s = targets" using assms(4) that by (auto simp: newSampler_def Let_def split: if_splits)
    have "SampleAll s (tunnel_link D t ?hosts) pid w
        = SampleAll s ((tunnel_link D t ?hosts)\<lparr> lk_client := open_streams D t \<rparr>) pid w"
    proof (rule Sample_requests)
      fix tg v i url
      assume "tg \<in> set (sl_Targets s)" "sizedURL (lk_url_text (tunnel_link D t ?hosts)) (tg_URL tg) StreamBytes = Inr url"
      then have "url \<in> probe_urls (lk_url_text (tunnel_link D t ?hosts)) targets" by (auto simp: probe_urls_def tgs)
      then show "sc_do (lk_client (tunnel_link D t ?hosts) v) i (GET url (tg_Header tg))
          = sc_do (open_streams D t v) i (GET url (tg_Header tg))"
        using tunnel_open(2)[OF assms(1,2), of "GET url (tg_Header tg)"] by (simp add: GET_def)
    qed
    then show ?thesis by (simp add: tunnel_link_def)
  qed
  ultimately show ?thesis
    using carry_any_known by (auto simp: newProber_def Let_def option.map_comp comp_def intro!: map_option_cong)
qed

subsection \<open>The operator's secret\<close>









subsection \<open>Diagnostics are inert\<close>

text \<open>The probe without its diagnostics.\<close>

definition without_diagnostics :: "('w, 'c) Prober \<Rightarrow> ('w, 'c) Prober" where
  "without_diagnostics P = P\<lparr> pr_Health := None, pr_HealthResults := None, pr_Bandwidth := None \<rparr>"

text \<open>The same production, with a server whose answers are those of \<open>j\<close> calls later.\<close>

definition served_later :: "nat \<Rightarrow> 'w production \<Rightarrow> 'w production" where
  "served_later j D = D\<lparr> pd_env := (\<lambda>w. pd_env D ((pd_next D ^^ j) w)) \<rparr>"

lemma served_later_fields:
  "pd_unicode (served_later j D) = pd_unicode D" "pd_lib (served_later j D) = pd_lib D" "pd_crypto (served_later j D) = pd_crypto D"
  "pd_ParseId (served_later j D) = pd_ParseId D" "pd_cfg (served_later j D) = pd_cfg D" "pd_createTun (served_later j D) = pd_createTun D"
  "pd_resolver (served_later j D) = pd_resolver D" "pd_network (served_later j D) = pd_network D" "pd_now (served_later j D) = pd_now D"
  "pd_ctxErr (served_later j D) = pd_ctxErr D" "pd_took (served_later j D) = pd_took D" "pd_intn (served_later j D) = pd_intn D"
  "pd_pins (served_later j D) = pd_pins D" "pd_context (served_later j D) = pd_context D" "pd_clock (served_later j D) = pd_clock D"
  "pd_moved (served_later j D) = pd_moved D" "pd_next (served_later j D) = pd_next D"
  "pd_env (served_later j D) w = pd_env D ((pd_next D ^^ j) w)"
  by (simp_all add: served_later_def)

lemma later_fields:
  "pr_Open (without_diagnostics (newProber (served_later j D) p op a s hs)) = pr_Open (newProber D p op a s hs)"
  "pr_Locate (without_diagnostics (newProber (served_later j D) p op a s hs)) = pr_Locate (newProber D p op a s hs)"
  "fst (pr_Submit (without_diagnostics (newProber (served_later j D) p op a s hs)) pid loc w)
    = fst (pr_Submit (newProber D p op a s hs) pid loc ((pd_next D ^^ j) w))"
  unfolding without_diagnostics_def newProber_def served_def tunnel_client_def Let_def served_later_fields by simp_all

lemma no_health: "checkEgressHealth (without_diagnostics P) pid c r = r"
  by (simp add: checkEgressHealth_def without_diagnostics_def)

lemma probe_tunnel_fst:
  "fst (probe_tunnel P pid c r) =
    (let loc = fst (pr_Locate P c (rn_world r));
         r2 = checkEgressHealth P pid c (trace (ELocate (failed_with loc)) (at_world (snd (pr_Locate P c (rn_world r))) r))
     in case loc of
          Inl e \<Rightarrow> (if Is e geolocate_ErrNoConsensus then FailureNoConsensus else FailureLocate, Some e)
        | Inr l \<Rightarrow> (case fst (pr_Submit P pid l (rn_world r2)) of
            Some e \<Rightarrow> (case l of None \<Rightarrow> FailureNotConfident
              | Some x \<Rightarrow> if \<not> cl_CountryConfident x then FailureNotConfident else FailureSubmit, Some e)
          | None \<Rightarrow> ([], None)))"
  by (simp add: probe_tunnel_def Let_def split_beta split: sum.split option.split)

text \<open>
  C38. The diagnostics are inert. The error that a probe of production returns and the failure
  class that it reports are those of a prober that runs no health check, reports none and
  samples no bandwidth, and whose server answers the submission of the location as it does at
  most two calls later: the health run and its report can only delay the submission. Nothing
  they return and no failure of theirs, nor anything of the bandwidth sampling, enters.
\<close>

theorem diagnostics_inert:
  "\<exists>j\<le>2. fst (probeOne (newProber D p operator all sampler hosts) pid r)
     = fst (probeOne (without_diagnostics (newProber (served_later j D) p operator all sampler hosts)) pid r)"
proof -
  let ?P = "newProber D p operator all sampler hosts"
  obtain opened w where op: "pr_Open ?P pid (rn_world r) = (opened, w)" by fastforce
  show ?thesis
  proof (cases opened)
    case (Inl e)
    then show ?thesis using op by (intro exI[of _ 0]) (simp add: probeOne_def later_fields(1))
  next
    case (Inr ccl)
    obtain c cl where c: "ccl = (c, cl)" by (cases ccl)
    let ?r1 = "trace (EOpen None) (at_world w r)"
    let ?loc = "pr_Locate ?P c (rn_world ?r1)"
    let ?r2 = "trace (ELocate (failed_with (fst ?loc))) (at_world (snd ?loc) ?r1)"
    obtain j where j: "j \<le> 2" "rn_world (checkEgressHealth ?P pid c ?r2) = (pd_next D ^^ j) (rn_world ?r2)"
      using health_world by blast
    have same: "fst (probe_tunnel ?P pid c ?r1)
        = fst (probe_tunnel (without_diagnostics (newProber (served_later j D) p operator all sampler hosts)) pid c ?r1)"
      unfolding probe_tunnel_fst Let_def later_fields no_health j(2) by (simp only: at_world_fields trace_fields)
    have one: "fst (probeOne Q pid r) = fst (probe_tunnel Q pid c ?r1)" if "pr_Open Q pid (rn_world r) = (opened, w)" for Q :: "('a, tunnel) Prober"
      using that Inr c by (simp add: probeOne_def Let_def split_beta failed_with_def)
    show ?thesis using one[of ?P, OF op] one[OF op[folded later_fields(1)[of j]]] same j(1) by (metis (no_types))
  qed
qed

subsection \<open>Concrete requests\<close>

definition sample_tunnel :: tunnel where
  "sample_tunnel = \<lparr> tn_pins = sample_pins, tn_closed = False, tn_closeErr = None \<rparr>"

lemma sample_sampler: "newSampler sample_production op False api CDNTestURL bt
    = (fst (newSampler sample_production op False api CDNTestURL bt), DefaultTargets api (ic_OperatorSecret op))"
  by (simp add: newSampler_def bandwidth_targets_default Let_def)

lemma sample_intn: "intn_ok (pd_intn sample_production)"
  by (simp add: intn_ok_def sample_production_def)

theorem probe_requests_allowed_witness:
  "map_option (\<lambda>sample. sample ''p'' sample_tunnel 0)
      (pr_Bandwidth (newProber sample_production Second operator_client True
        (fst (newSampler sample_production operator_client False [] CDNTestURL Second))
        (TargetHosts (DefaultTargets [] (ic_OperatorSecret operator_client)))))
    = map_option (\<lambda>s. snd (snd (SampleAll s ((tunnel_link sample_production sample_tunnel [])
        \<lparr> lk_client := open_streams sample_production sample_tunnel \<rparr>) ''p'' 0)))
      (fst (newSampler sample_production operator_client False [] CDNTestURL Second))"
proof -
  have "covers (tn_pins sample_tunnel)" using sample_pins_cover by (simp add: sample_tunnel_def)
  moreover have "list_all plain_tg (DefaultTargets [] (ic_OperatorSecret operator_client))"
    by (rule default_plain) (simp add: TrimSpace_def)
  ultimately show ?thesis
    using probe_requests_allowed[where t = sample_tunnel and timeout = Second and all = True and w = 0 and pid = "''p''",
      OF _ _ sample_intn sample_sampler[of operator_client "[]" Second]]
    by (simp add: Let_def)
qed




end
