(* ===== verification/Main_Providers.thy ===== *)
theory Main_Providers
  imports Sample_Server
begin

text \<open>
  Choosing the providers of a pass, in \<open>cmd/egress-prober/main.go\<close>: the server's due list, and
  the enumeration of every provider by location that replaces it against a server without that
  endpoint. The lemmas show what an enumeration returns, and the theorem when it is used.
  Parameters: the HTTP client of the enumeration, and the order in which Go iterates a map.
\<close>

subsection \<open>One request\<close>

definition request :: "ingest_env \<Rightarrow> http_client \<Rightarrow> http_request \<Rightarrow> err + http_response" where
  "request E client req =
    (case NewRequest (ie_URL E) (rq_URL req) of
       Some e \<Rightarrow> Inl (ErrorString e)
     | None \<Rightarrow> map_sum ErrorString id (do_request client (ie_Deadline E) req))"

text \<open>Anything but 200 is the error \<open>status %d: %s\<close>; then the body is decoded.\<close>

definition ok_body :: "ingest_env \<Rightarrow> (json \<Rightarrow> err + 'a) \<Rightarrow> http_response \<Rightarrow> err + 'a" where
  "ok_body E decode resp =
    (if hr_StatusCode resp \<noteq> 200
     then Inl (ErrorString (''status '' @ show_int (hr_StatusCode resp) @ '': ''
            @ TrimSpace (take 4096 (bd_data (hr_Body resp)))))
     else and_then (map_sum ErrorString id (decode_body E (hr_Body resp))) decode)"

definition decode_list :: "ingest_env \<Rightarrow> string \<Rightarrow> string \<Rightarrow> json \<Rightarrow> err + string list" where
  "decode_list E field name j =
    (case struct_members j of
       None \<Rightarrow> Inl (ErrorString (ie_TypeError E j))
     | Some ms \<Rightarrow>
         if list_all (elements_type name) (members field ms)
         then Inr (fold (decode_elements name) (members field ms) [])
         else Inl (ErrorString (ie_TypeError E j)))"

subsection \<open>Enumerating the providers\<close>

definition findProvidersCountPerLocation :: nat where "findProvidersCountPerLocation = 5000"

definition locations_request :: "string \<Rightarrow> http_request" where
  "locations_request apiURL = GET (TrimRight apiURL (CHR ''/'') @ ''/network/provider-locations'') []"

definition listProviderLocationIds :: "ingest_env \<Rightarrow> http_client \<Rightarrow> string \<Rightarrow> err + string list" where
  "listProviderLocationIds E client apiURL =
    and_then (request E client (locations_request apiURL))
      (ok_body E (decode_list E ''locations'' ''location_id''))"

definition find_body :: "string \<Rightarrow> json" where
  "find_body locationId =
    JObj [(''specs'', JArr [JObj [(''location_id'', JStr locationId)]]),
          (''count'', JNum (Itoa findProvidersCountPerLocation)),
          (''rank_mode'', JStr ''quality''),
          (''force_minimum'', JBool True)]"

definition find_request :: "string \<Rightarrow> string \<Rightarrow> string \<Rightarrow> http_request" where
  "find_request apiURL byJwt locationId =
    \<lparr> rq_Method = ''POST'', rq_URL = TrimRight apiURL (CHR ''/'') @ ''/network/find-providers2'',
      rq_Header = [(''Content-Type'', ''application/json''), (''Authorization'', ''Bearer '' @ byJwt)],
      rq_Body = Some (marshal (find_body locationId)) \<rparr>"

definition findProvidersAtLocation :: "ingest_env \<Rightarrow> http_client \<Rightarrow> string \<Rightarrow> string \<Rightarrow> string \<Rightarrow> err + string list" where
  "findProvidersAtLocation E client apiURL byJwt locationId =
    and_then (request E client (find_request apiURL byJwt locationId))
      (ok_body E (decode_list E ''providers'' ''client_id''))"

text \<open>
  The loop of \<open>listProviders\<close>: the keys of \<open>seen\<close>, and a log line for every location that is
  skipped. \<open>arrange\<close> is the order in which the map is iterated afterwards.
\<close>

definition list_step :: "(string \<Rightarrow> err + string list) \<Rightarrow> string \<Rightarrow> string list \<times> (string \<times> err) list
    \<Rightarrow> string list \<times> (string \<times> err) list" where
  "list_step lookup locationId st =
    (let (seen, skipped) = st
     in case lookup locationId of
          Inl e \<Rightarrow> (seen, skipped @ [(locationId, e)])
        | Inr clientIds \<Rightarrow> (fold List.insert clientIds seen, skipped))"

definition listProviders :: "ingest_env \<Rightarrow> http_client \<Rightarrow> (string list \<Rightarrow> string list) \<Rightarrow> string \<Rightarrow> string
    \<Rightarrow> err + string list \<times> (string \<times> err) list" where
  "listProviders E client arrange apiURL byJwt =
    (case listProviderLocationIds E client apiURL of
       Inl e \<Rightarrow> Inl (Wrap [e] (''list provider locations: '' @ Error e))
     | Inr locationIds \<Rightarrow>
        (let (seen, skipped) = fold (list_step (findProvidersAtLocation E client apiURL byJwt)) locationIds ([], [])
         in Inr (arrange seen, skipped)))"

subsection \<open>What an enumeration returns\<close>

lemma fold_insert_set: "set (fold List.insert xs seen) = set xs \<union> set seen"
  by (induction xs arbitrary: seen) auto

lemma fold_insert_distinct: "distinct seen \<Longrightarrow> distinct (fold List.insert xs seen)"
  by (induction xs arbitrary: seen) auto

text \<open>The providers found at a location, and the log lines of the locations that failed.\<close>

definition found :: "(string \<Rightarrow> err + string list) \<Rightarrow> string \<Rightarrow> string set" where
  "found lookup l = (case lookup l of Inl e \<Rightarrow> {} | Inr ids \<Rightarrow> set ids)"

definition failed_locations :: "(string \<Rightarrow> err + string list) \<Rightarrow> string list \<Rightarrow> (string \<times> err) list" where
  "failed_locations lookup ls = List.map_filter (\<lambda>l. case lookup l of Inl e \<Rightarrow> Some (l, e) | Inr ids \<Rightarrow> None) ls"

lemma found_iff: "pid \<in> found q l \<longleftrightarrow> (\<exists>here. q l = Inr here \<and> pid \<in> set here)"
  by (simp add: found_def split: sum.split)

lemma list_fold:
  "distinct (fst st) \<Longrightarrow>
    set (fst (fold (list_step lookup) ls st)) = set (fst st) \<union> (\<Union>l\<in>set ls. found lookup l)
    \<and> snd (fold (list_step lookup) ls st) = snd st @ failed_locations lookup ls
    \<and> distinct (fst (fold (list_step lookup) ls st))"
proof (induction ls arbitrary: st)
  case (Cons l ls)
  obtain seen skipped where st: "st = (seen, skipped)" by (cases st)
  show ?case
  proof (cases "lookup l")
    case (Inl e)
    then show ?thesis using Cons.IH[of "(seen, skipped @ [(l, e)])"] Cons.prems
      by (simp add: st list_step_def found_def failed_locations_def)
  next
    case (Inr ids)
    then show ?thesis using Cons.IH[of "(fold List.insert ids seen, skipped)"] Cons.prems
      by (auto simp: st list_step_def found_def failed_locations_def fold_insert_set fold_insert_distinct)
  qed
qed (simp add: failed_locations_def)

lemma listProviders_result:
  assumes "\<And>xs. mset (arrange xs) = mset xs"
    and "listProviderLocationIds E client apiURL = Inr ls"
  shows "\<exists>ids. listProviders E client arrange apiURL byJwt
      = Inr (ids, failed_locations (findProvidersAtLocation E client apiURL byJwt) ls)
    \<and> distinct ids \<and> set ids = (\<Union>l\<in>set ls. found (findProvidersAtLocation E client apiURL byJwt) l)"
proof -
  let ?f = "fold (list_step (findProvidersAtLocation E client apiURL byJwt)) ls ([], [])"
  obtain seen skipped where f: "?f = (seen, skipped)" by fastforce
  have "set (arrange seen) = set seen" "distinct (arrange seen) = distinct seen"
    using assms(1)[of seen] by (auto dest: mset_eq_setD mset_eq_imp_distinct_iff)
  then show ?thesis
    using list_fold[of "([], [])" "findProvidersAtLocation E client apiURL byJwt" ls] f assms(2)
    by (auto simp: listProviders_def)
qed

text \<open>
  C37. The enumeration is broad and stable: it fails only when the list of locations cannot be
  had; otherwise, whatever order Go iterates its map in, every provider that the server names at
  some location is returned exactly once and nothing else is, a location whose request fails
  costs only its own providers, and each such location is logged with its error.
\<close>

theorem enumeration_exact:
  assumes "\<forall>xs. mset (arrange xs) = mset xs"
  shows "case listProviders E client arrange apiURL byJwt of
      Inl e \<Rightarrow> (\<exists>x. listProviderLocationIds E client apiURL = Inl x \<and> (\<forall>s. Is e s = Is x s))
    | Inr (ids, skipped) \<Rightarrow>
        (\<exists>ls. listProviderLocationIds E client apiURL = Inr ls
          \<and> distinct ids
          \<and> (\<forall>pid. pid \<in> set ids \<longleftrightarrow> (\<exists>l\<in>set ls. \<exists>here. findProvidersAtLocation E client apiURL byJwt l = Inr here \<and> pid \<in> set here))
          \<and> (\<forall>l\<in>set ls. (\<exists>e. (l, e) \<in> set skipped) \<longleftrightarrow> (\<exists>e. findProvidersAtLocation E client apiURL byJwt l = Inl e)))"
proof (cases "listProviderLocationIds E client apiURL")
  case (Inl x)
  then show ?thesis by (simp add: listProviders_def)
next
  case (Inr ls)
  let ?find = "findProvidersAtLocation E client apiURL byJwt"
  have ar: "\<And>xs. mset (arrange xs) = mset xs" using assms by blast
  obtain ids where ids: "listProviders E client arrange apiURL byJwt = Inr (ids, failed_locations ?find ls)"
    "distinct ids" "set ids = (\<Union>l\<in>set ls. found ?find l)"
    using listProviders_result[OF ar Inr] by blast
  have "(pid \<in> set ids) = (\<exists>l\<in>set ls. \<exists>here. ?find l = Inr here \<and> pid \<in> set here)" for pid
    unfolding ids(3) by (simp add: found_iff)
  moreover have "(\<exists>e. (l, e) \<in> set (failed_locations ?find ls)) = (\<exists>e. ?find l = Inl e)" if "l \<in> set ls" for l
    using that by (force simp: failed_locations_def List.map_filter_def split: sum.splits)
  ultimately show ?thesis using ids(1,2) Inr by simp
qed

subsection \<open>Selecting the providers of a pass\<close>

text \<open>
  The providers, whether the server chose them, the error, and the locations that the log names.
\<close>

record selection =
  se_ids :: "string list"
  se_serverDriven :: bool
  se_err :: "err option"
  se_skipped :: "(string \<times> err) list"

definition unauthorized_text :: string where
  "unauthorized_text = ''the server rejected the operator secret; check -operator-secret against ''
     @ ''ingest_secret in the server's provider_egress.yml: ''"

definition selectProviders :: "ingest_env \<Rightarrow> Client \<Rightarrow> http_client \<Rightarrow> (string list \<Rightarrow> string list)
    \<Rightarrow> int \<Rightarrow> string \<Rightarrow> string \<Rightarrow> selection" where
  "selectProviders E due client arrange limit apiURL byJwt =
    (case Due E due limit of
       Inr ids \<Rightarrow> \<lparr> se_ids = ids, se_serverDriven = True, se_err = None, se_skipped = [] \<rparr>
     | Inl e \<Rightarrow>
         if Is e ErrDueUnsupported then
           (case listProviders E client arrange apiURL byJwt of
              Inl e' \<Rightarrow> \<lparr> se_ids = [], se_serverDriven = False, se_err = Some e', se_skipped = [] \<rparr>
            | Inr (ids, skipped) \<Rightarrow>
                \<lparr> se_ids = ids, se_serverDriven = False, se_err = None, se_skipped = skipped \<rparr>)
         else if Is e ErrUnauthorized then
           \<lparr> se_ids = [], se_serverDriven = False,
             se_err = Some (Wrap [e] (unauthorized_text @ Error e)), se_skipped = [] \<rparr>
         else \<lparr> se_ids = [], se_serverDriven = False, se_err = Some e, se_skipped = [] \<rparr>)"

text \<open>What the due endpoint answered, if it was asked at all.\<close>

definition due_answer :: "ingest_env \<Rightarrow> Client \<Rightarrow> int \<Rightarrow> err + http_response" where
  "due_answer E c limit =
    and_then (limited_due_url E c limit) (\<lambda>u. send E c (get c u))"

lemma due_answer_transport: "due_answer E c limit = Inl e \<Longrightarrow> \<not> Is e s"
  by (cases "limited_due_url E c limit")
    (auto simp: due_answer_def send_transport limited_due_url_def split: option.splits)

interpretation due: endpoint due_errors "due_answer E c limit" "outcome due_errors (due_answer E c limit)"
  by unfold_locales (auto simp: due_answer_transport due_errors_def)

lemma decode_due_text: "decode_due E j = Inl e \<Longrightarrow> \<not> Is e s"
  by (auto simp: decode_due_def split: option.splits if_splits)

lemma Due_answer:
  assumes "1 \<le> limit"
  shows "Due E c limit = and_then (due_answer E c limit) (\<lambda>resp.
         case status_error due_errors resp of
           Some e \<Rightarrow> Inl e
         | None \<Rightarrow> and_then (map_sum ErrorString id (decode_body E (hr_Body resp))) (decode_due E))"
  using assms by (simp add: Due_def due_answer_def and_then_def split: sum.split)

lemma decoded_text:
  "and_then (map_sum ErrorString id (decode_body E b)) (decode_due E) = Inl e \<Longrightarrow> \<not> Is e s"
  by (cases "decode_body E b") (auto dest: decode_due_text)

lemma Due_error_iff:
  assumes "1 \<le> limit" "s \<noteq> ErrRejected"
  shows "(\<exists>e. Due E c limit = Inl e \<and> Is e s) \<longleftrightarrow> fails_with (outcome due_errors (due_answer E c limit)) s"
proof (cases "due_answer E c limit")
  case (Inl e)
  then show ?thesis using Due_answer[OF assms(1)] by (simp add: fails_with_def outcome_def)
next
  case (Inr resp)
  then show ?thesis using Due_answer[OF assms(1), of E c] decoded_text[of E "hr_Body resp"]
    by (auto simp: fails_with_def outcome_def split: option.splits)
qed

lemma due_codes:
  "fails_with (outcome due_errors (due_answer E c limit)) ErrDueUnsupported \<longleftrightarrow> answered_with (due_answer E c limit) 404"
  "fails_with (outcome due_errors (due_answer E c limit)) ErrUnauthorized \<longleftrightarrow> answered_with (due_answer E c limit) 401"
  unfolding fails_with_def answered_with_def by (rule due.error_iff; auto simp: due_errors_def)+

lemma Due_success:
  assumes "1 \<le> limit" "Due E c limit = Inr ids"
  shows "answered_with (due_answer E c limit) 200"
proof (cases "due_answer E c limit")
  case (Inl e)
  then show ?thesis using assms Due_answer by simp
next
  case (Inr resp)
  then show ?thesis using assms Due_answer[OF assms(1), of E c]
    by (auto simp: answered_with_def status_error_def split: option.splits if_splits)
qed

text \<open>
  C13. The server's schedule is authoritative: the providers are the server's exactly when it
  answered the due request with 200 and a list, the enumeration is used exactly when it answered
  404, a refused secret is always an error, and an error selects no provider.
\<close>

theorem selection_authority:
  assumes "1 \<le> limit"
  shows "let sel = selectProviders E c client arrange limit apiURL byJwt; answer = due_answer E c limit in
    (se_serverDriven sel \<longleftrightarrow> (\<exists>ids. Due E c limit = Inr ids \<and> se_ids sel = ids))
    \<and> (se_serverDriven sel \<longrightarrow> answered_with answer 200 \<and> se_err sel = None)
    \<and> (answered_with answer 404 \<longrightarrow>
         (case listProviders E client arrange apiURL byJwt of
            Inl e \<Rightarrow> se_err sel = Some e | Inr (ids, skipped) \<Rightarrow> se_err sel = None \<and> se_ids sel = ids))
    \<and> (se_err sel = None \<and> \<not> se_serverDriven sel \<longrightarrow> answered_with answer 404)
    \<and> (answered_with answer 401 \<longrightarrow> fails_with (se_err sel) ErrUnauthorized)
    \<and> (se_err sel \<noteq> None \<longrightarrow> se_ids sel = [])"
proof -
  have unsup: "(\<exists>e. Due E c limit = Inl e \<and> Is e ErrDueUnsupported) \<longleftrightarrow> answered_with (due_answer E c limit) 404"
    and unauth: "(\<exists>e. Due E c limit = Inl e \<and> Is e ErrUnauthorized) \<longleftrightarrow> answered_with (due_answer E c limit) 401"
    using Due_error_iff[OF assms] due_codes by simp_all
  show ?thesis
  proof (cases "Due E c limit")
    case (Inr ids)
    then show ?thesis using Due_success[OF assms Inr] unsup unauth
      by (simp add: selectProviders_def Let_def)
  next
    case (Inl e)
    have excl: "\<not> (answered_with (due_answer E c limit) 404 \<and> answered_with (due_answer E c limit) 401)"
      by (auto simp: answered_with_def)
    show ?thesis
    proof (cases "listProviders E client arrange apiURL byJwt")
      case (Inl e')
      then show ?thesis using \<open>Due E c limit = Inl e\<close> unsup unauth excl
        by (simp add: selectProviders_def Let_def fails_with_def)
    next
      case (Inr p)
      then show ?thesis using \<open>Due E c limit = Inl e\<close> unsup unauth excl
        by (cases p) (simp add: selectProviders_def Let_def fails_with_def)
    qed
  qed
qed

subsection \<open>A concrete server\<close>

definition old_server :: Client where
  "old_server = \<lparr> ic_ServerURL = ''https://op'', ic_OperatorSecret = ''s'', ic_HTTP = Some (answering 404),
     ic_DueURL = [] \<rparr>"

lemmas listing_defs = request_def ok_body_def decode_list_def elements_type_def element_type_def
  decode_elements_def decode_element_def well_typed_def str_type_def

lemma listing_decoded:
  "decode_list E ''locations'' ''location_id'' server_doc = Inr [''l1'', ''l2'']"
  "decode_list E ''providers'' ''client_id'' server_doc = Inr [''a'', ''b'']"
proof -
  obtain ms where ms: "struct_members server_doc = Some ms" using server_members(4) by blast
  have "members ''location_id'' [(''location_id'', v)] = [v]" "members ''client_id'' [(''client_id'', v)] = [v]" for v
    by (simp_all add: members_def key_is_def)
  then show "decode_list E ''locations'' ''location_id'' server_doc = Inr [''l1'', ''l2'']"
    "decode_list E ''providers'' ''client_id'' server_doc = Inr [''a'', ''b'']"
    using server_members(2,3) by (simp_all add: listing_defs ms) (simp_all add: struct_members_def well_typed_def str_type_def)
qed

lemma listing_answer:
  assumes "NewRequest id (rq_URL req) = None" "rq_URL req \<noteq> ''https://op/network/geolocation-source-pins''"
  shows "and_then (request sample_env (answering 200) req) (ok_body sample_env decode) = decode server_doc"
  using assms sample_documents(2)[of sample_env] by (simp add: request_def ok_body_def answering_def)

lemma listing_locations:
  "listProviderLocationIds sample_env (answering 200) ''https://op'' = Inr [''l1'', ''l2'']"
  using plain_base_parsed[OF plain_op(1) endpoint_paths(8), of id] listing_decoded(1)
  by (simp add: listProviderLocationIds_def listing_answer locations_request_def GET_def TrimRight_def)

lemma listing_find:
  "findProvidersAtLocation sample_env (answering 200) ''https://op'' ''jwt'' l = Inr [''a'', ''b'']"
  using plain_base_parsed[OF plain_op(1) endpoint_paths(9), of id] listing_decoded(2)
  by (simp add: findProvidersAtLocation_def listing_answer find_request_def TrimRight_def)

theorem enumeration_exact_witness:
  "\<exists>ids skipped. listProviders sample_env (answering 200) rev ''https://op'' ''jwt'' = Inr (ids, skipped)
     \<and> distinct ids \<and> ''b'' \<in> set ids"
proof -
  have "\<forall>xs. mset (rev xs) = mset xs" by simp
  note e = enumeration_exact[OF this, where ?E = sample_env and ?client = "answering 200"
      and ?apiURL = "''https://op''" and ?byJwt = "''jwt''"]
  show ?thesis
  proof (cases "listProviders sample_env (answering 200) rev ''https://op'' ''jwt''")
    case (Inl x)
    then show ?thesis using e by (simp add: listing_locations)
  next
    case (Inr p)
    then show ?thesis using e by (cases p) (auto simp: listing_locations listing_find)
  qed
qed

theorem selection_authority_witness:
  "se_err (selectProviders sample_env old_server (answering 200) rev 100 ''https://op'' ''jwt'') = None
   \<and> \<not> se_serverDriven (selectProviders sample_env old_server (answering 200) rev 100 ''https://op'' ''jwt'')"
proof -
  have a: "answered_with (due_answer sample_env old_server 100) 404"
    using server_due[of old_server 100, OF _ _ _] plain_op(1)
    by (simp add: answered_with_def due_answer_def send_def httpClient_def get_def GET_def old_server_def answering_def)
  obtain ids skipped where "listProviders sample_env (answering 200) rev ''https://op'' ''jwt'' = Inr (ids, skipped)"
    using listProviders_result[of rev sample_env "answering 200" "''https://op''", OF mset_rev listing_locations] by blast
  moreover have "\<not> answered_with (due_answer sample_env old_server 100) 200"
    using a by (auto simp: answered_with_def)
  ultimately show ?thesis
    using a selection_authority[of 100 sample_env old_server "answering 200" rev "''https://op''" "''jwt''"]
    by (auto simp: Let_def)
qed

end
