(* ===== verification/Main_Startup.thy ===== *)
theory Main_Startup
  imports Main_Requests Main_Providers
begin

text \<open>
  The start of \<open>cmd/egress-prober/main.go\<close>: the flags and their validation, the confinement
  self-check, the client id of the token, the first pin set. The theorems show which guards of the
  components an accepted configuration can still meet, and that a process which starts has passed
  every check, in the order the code makes them. \<open>flag.Parse\<close>, the environment and
  the token parser are parameters.
\<close>

subsection \<open>Flags\<close>

record flags =
  fl_apiURL :: string
  fl_platformURL :: string
  fl_byJwt :: string
  fl_operatorSecret :: string
  fl_concurrency :: int
  fl_cacheTTL :: duration
  fl_interval :: duration
  fl_probeTimeout :: duration
  fl_skipConfinementCheck :: bool
  fl_confinementTimeout :: duration
  fl_confinementAddrs :: "string list"
  fl_publicAPIURL :: string
  fl_egressHealthAll :: bool
  fl_dueURL :: string
  fl_dueLimit :: int
  fl_skipBandwidth :: bool
  fl_bandwidthTimeout :: duration
  fl_pinRefreshInterval :: duration
  fl_bandwidthCDNURL :: string

definition Hour :: duration where "Hour = 3600 * Second"

definition default_flags :: flags where
  "default_flags = \<lparr> fl_apiURL = [], fl_platformURL = [], fl_byJwt = [], fl_operatorSecret = [],
     fl_concurrency = 4, fl_cacheTTL = 24 * Hour, fl_interval = Hour, fl_probeTimeout = 60 * Second,
     fl_skipConfinementCheck = False, fl_confinementTimeout = 3 * Second, fl_confinementAddrs = [],
     fl_publicAPIURL = [], fl_egressHealthAll = True, fl_dueURL = [], fl_dueLimit = 100,
     fl_skipBandwidth = False, fl_bandwidthTimeout = DefaultTimeout, fl_pinRefreshInterval = Hour,
     fl_bandwidthCDNURL = CDNTestURL \<rparr>"

text \<open>The two secrets are read from the environment after parsing; a flag that was given wins.\<close>

definition envFallback :: "(string \<Rightarrow> string) \<Rightarrow> string \<Rightarrow> string \<Rightarrow> string" where
  "envFallback getenv envName val = (if val = [] then getenv envName else val)"

definition with_env :: "(string \<Rightarrow> string) \<Rightarrow> flags \<Rightarrow> flags" where
  "with_env getenv F = F\<lparr> fl_byJwt := envFallback getenv ''UR_PROBER_BY_JWT'' (fl_byJwt F),
     fl_operatorSecret := envFallback getenv ''UR_OPERATOR_SECRET'' (fl_operatorSecret F) \<rparr>"

datatype flag_error = MissingFlags "string list" | NegativeInterval duration | ProbeTimeoutNotPositive duration
  | ConfinementTimeoutShort duration | DueLimitNotPositive int | PinRefreshNotPositive duration
  | BandwidthTimeoutNotPositive duration

definition missing_flags :: "flags \<Rightarrow> string list" where
  "missing_flags F =
    (if fl_apiURL F = [] then [''-api-url''] else [])
    @ (if fl_platformURL F = [] then [''-platform-url''] else [])
    @ (if fl_byJwt F = [] then [''-by-jwt (or UR_PROBER_BY_JWT)''] else [])
    @ (if fl_operatorSecret F = [] then [''-operator-secret (or UR_OPERATOR_SECRET)''] else [])"

text \<open>Each failure prints the usage and exits with 2.\<close>

definition check_flags :: "flags \<Rightarrow> flag_error option" where
  "check_flags F =
    (if 0 < length (missing_flags F) then Some (MissingFlags (missing_flags F))
     else if fl_interval F < 0 then Some (NegativeInterval (fl_interval F))
     else if fl_probeTimeout F \<le> 0 then Some (ProbeTimeoutNotPositive (fl_probeTimeout F))
     else if fl_confinementTimeout F < MinTimeout then Some (ConfinementTimeoutShort (fl_confinementTimeout F))
     else if fl_dueLimit F < 1 then Some (DueLimitNotPositive (fl_dueLimit F))
     else if fl_pinRefreshInterval F \<le> 0 then Some (PinRefreshNotPositive (fl_pinRefreshInterval F))
     else if fl_bandwidthTimeout F \<le> 0 then Some (BandwidthTimeoutNotPositive (fl_bandwidthTimeout F))
     else None)"

subsection \<open>The client id\<close>

text \<open>\<open>%T\<close> of a value that a JSON document decodes to.\<close>

fun go_type :: "json \<Rightarrow> string" where
  "go_type JNull = ''<nil>''"
| "go_type (JBool b) = ''bool''"
| "go_type (JNum s) = ''float64''"
| "go_type (JStr s) = ''string''"
| "go_type (JArr xs) = ''[]interface {}''"
| "go_type (JObj ms) = ''map[string]interface {}''"

definition parseByJwtClientId :: "(string \<Rightarrow> string + (string \<rightharpoonup> json)) \<Rightarrow> (string \<Rightarrow> string + string) \<Rightarrow> string \<Rightarrow> err + string" where
  "parseByJwtClientId ParseUnverified ParseId byJwt =
    (case ParseUnverified byJwt of
       Inl e \<Rightarrow> Inl (Wrap [ErrorString e] (''parse jwt: '' @ e))
     | Inr claims \<Rightarrow>
        (case claims ''client_id'' of
           None \<Rightarrow> Inl (ErrorString ''byJwt does not contain claim client_id'')
         | Some (JStr v) \<Rightarrow> map_sum ErrorString id (ParseId v)
         | Some v \<Rightarrow> Inl (ErrorString (''byJwt has invalid type for client_id: '' @ go_type v))))"

subsection \<open>Starting\<close>

text \<open>
  What the start uses: the resolver and the dialer, the token parser, the server's client and
  environment, and the clock.
\<close>

record start_env =
  st_getenv :: "string \<Rightarrow> string"
  st_dial :: "string \<Rightarrow> dial_outcome"
  st_lookup :: "duration \<Rightarrow> string \<Rightarrow> string + string list"
  st_ParseUnverified :: "string \<Rightarrow> string + (string \<rightharpoonup> json)"
  st_ParseId :: "string \<Rightarrow> string + string"
  st_HTTP :: http_client
  st_env :: ingest_env
  st_now :: gotime

definition operator_of :: "http_client \<Rightarrow> flags \<Rightarrow> Client" where
  "operator_of http F = \<lparr> ic_ServerURL = fl_apiURL F, ic_OperatorSecret = fl_operatorSecret F,
     ic_HTTP = Some http, ic_DueURL = fl_dueURL F \<rparr>"

text \<open>The pins are left out: every tunnel takes the set then in force.\<close>

definition tunnelCfg :: "flags \<Rightarrow> string \<Rightarrow> Config" where
  "tunnelCfg F clientId = \<lparr> cf_ApiURL = fl_apiURL F, cf_PlatformURL = fl_platformURL F, cf_ByJwt = fl_byJwt F,
     cf_ClientId = clientId, cf_Pins = [], cf_DeviceDescription = ''egress prober'',
     cf_DeviceSpec = ''egress-prober'', cf_Version = ''0.0.0'' \<rparr>"

datatype start_error = UsageError flag_error | ConfinementFailed confinement_error | BadToken err | NoPins err

definition exit_code :: "start_error \<Rightarrow> nat" where
  "exit_code e = (case e of UsageError _ \<Rightarrow> 2 | _ \<Rightarrow> 1)"

text \<open>The self-check that the log asks the operator to act on: every failure but no evidence.\<close>

definition confinement_advice :: "confinement_error \<Rightarrow> bool" where
  "confinement_advice e = (case e of ErrNoEvidence _ \<Rightarrow> False | _ \<Rightarrow> True)"

definition confinement_verdict :: "start_env \<Rightarrow> flags \<Rightarrow> confinement_error option" where
  "confinement_verdict S F =
    (if fl_skipConfinementCheck F then None
     else co_err (checkConfinement (Some (st_dial S)) (Some (st_lookup S))
            (fl_confinementAddrs F) (fl_confinementTimeout F)))"

record started =
  sa_flags :: flags
  sa_tunnelCfg :: Config
  sa_operator :: Client
  sa_pins :: pinSet

definition main_start :: "start_env \<Rightarrow> flags \<Rightarrow> start_error + started" where
  "main_start S given =
    (let F = with_env (st_getenv S) given
     in case check_flags F of
          Some e \<Rightarrow> Inl (UsageError e)
        | None \<Rightarrow>
          (case confinement_verdict S F of
             Some e \<Rightarrow> Inl (ConfinementFailed e)
           | None \<Rightarrow>
             and_then (map_sum BadToken id
                 (parseByJwtClientId (st_ParseUnverified S) (st_ParseId S) (fl_byJwt F))) (\<lambda>clientId.
               let operator = operator_of (st_HTTP S) F
               in and_then (map_sum NoPins id (startup_pins (st_env S) operator (st_now S))) (\<lambda>pins.
                 Inr \<lparr> sa_flags = F, sa_tunnelCfg = tunnelCfg F clientId, sa_operator = operator, sa_pins = pins \<rparr>))))"

subsection \<open>Accepted configurations\<close>

definition accepted :: "flags \<Rightarrow> bool" where
  "accepted F \<longleftrightarrow> fl_apiURL F \<noteq> [] \<and> fl_platformURL F \<noteq> [] \<and> fl_byJwt F \<noteq> [] \<and> fl_operatorSecret F \<noteq> []
    \<and> 0 \<le> fl_interval F \<and> 0 < fl_probeTimeout F \<and> MinTimeout \<le> fl_confinementTimeout F
    \<and> 1 \<le> fl_dueLimit F \<and> 0 < fl_pinRefreshInterval F \<and> 0 < fl_bandwidthTimeout F"

lemma check_flags_accepted: "check_flags F = None \<longleftrightarrow> accepted F"
  by (auto simp: check_flags_def missing_flags_def accepted_def)

lemma with_env_keeps: "fl_byJwt F \<noteq> [] \<Longrightarrow> fl_operatorSecret F \<noteq> [] \<Longrightarrow> with_env getenv F = F"
  by (simp add: with_env_def envFallback_def)

lemma Verify_timeout: "MinTimeout \<le> timeout \<Longrightarrow> fst (Verify (Some d) addrs unresolved timeout) \<noteq> Some (ErrInvalidTimeout t)"
proof -
  have "fst (verify_loop d addrs) \<noteq> Some (ErrInvalidTimeout t)"
    using verify_loop_refuse[of d addrs] by (metis confinement_error.distinct(11) prod.collapse)
  moreover assume "MinTimeout \<le> timeout"
  ultimately show ?thesis by (simp add: Verify_def)
qed

lemma per_request_positive: "0 < p \<Longrightarrow> 0 < op_PerRequestTimeout (health_options p a)"
proof -
  assume "0 < p"
  then have "0 < op_PerRequestTimeout (egressHealthOptions p)"
    by (auto simp: egressHealthOptions_def Let_def SamplePerRun_value DefaultConcurrency_def not_le)
  then show ?thesis by (simp add: health_options_def Let_def split: prod.split)
qed

lemma budget_kept:
  assumes "0 < p"
  shows "concurrency (health_options p a) = (if a then 10 else DefaultConcurrency)"
    "budget (health_options p a) = op_Budget (health_options p a)
      \<or> a \<and> \<not> int64_ok (14 * op_PerRequestTimeout (health_options p a)) \<and> budget (health_options p a) = DefaultBudget"
proof -
  have vals: "op_Concurrency (health_options p a) = (if a then 10 else 0)"
    "op_Budget (health_options p a) = (if a then int64 (14 * op_PerRequestTimeout (health_options p a)) else p)"
    by (cases a; simp add: health_options_def egressHealthOptions_def BudgetForAllDestinations_value Let_def split_beta)+
  show "concurrency (health_options p a) = (if a then 10 else DefaultConcurrency)"
    unfolding concurrency_def vals(1) by simp
  have "0 < 14 * op_PerRequestTimeout (health_options p a)" using per_request_positive[OF assms] by simp
  then show "budget (health_options p a) = op_Budget (health_options p a)
      \<or> a \<and> \<not> int64_ok (14 * op_PerRequestTimeout (health_options p a)) \<and> budget (health_options p a) = DefaultBudget"
    using assms unfolding budget_def vals(2) by (auto simp: int64_exact)
qed

text \<open>
  C25. What validation settles and what it leaves to the guards of the components. With flags
  that pass it the self-check does not refuse its timeout, the due request is sent, the
  geolocation requests, the health requests and the bandwidth sampler have the configured
  timeouts and not the defaults of their packages, and the pin set is not fetched twice in one
  instant. Two values can still be replaced: the scheduler runs with the configured concurrency
  exactly when that is positive, since \<open>-concurrency\<close> is not validated; and the budget of a
  health run is the computed one, except that a run over the whole table falls back to the
  default budget where 14 rounds of the request timeout leave \<open>int64\<close>.
\<close>

theorem accepted_guards:
  assumes "check_flags F = None"
  shows "fst (Verify (Some d) addrs unresolved (fl_confinementTimeout F)) \<noteq> Some (ErrInvalidTimeout t)
    \<and> Due E c (fl_dueLimit F) = and_then (due_answer E c (fl_dueLimit F)) (\<lambda>resp.
           case status_error due_errors resp of Some e \<Rightarrow> Inl e
           | None \<Rightarrow> and_then (map_sum ErrorString id (decode_body E (hr_Body resp))) (decode_due E))
    \<and> perSourceTimeout (per_source (fl_probeTimeout F)) = fl_probeTimeout F
    \<and> (let opts = health_options (fl_probeTimeout F) (fl_egressHealthAll F) in
          perRequestTimeout opts = op_PerRequestTimeout opts
        \<and> concurrency opts = (if fl_egressHealthAll F then 10 else DefaultConcurrency)
        \<and> (budget opts = op_Budget opts
           \<or> fl_egressHealthAll F \<and> \<not> int64_ok (14 * op_PerRequestTimeout opts) \<and> budget opts = DefaultBudget))
    \<and> (case fst (newSampler D c (fl_skipBandwidth F) (fl_publicAPIURL F) (fl_bandwidthCDNURL F) (fl_bandwidthTimeout F)) of
         None \<Rightarrow> fl_skipBandwidth F | Some s \<Rightarrow> sampler_timeout s = fl_bandwidthTimeout F)
    \<and> refreshGeolocationPins E c (fl_pinRefreshInterval F) now fetched (pins_set pins now s0) = pins_set pins now s0
    \<and> (case newSchedulers P (fl_concurrency F) (fl_cacheTTL F) of (due, enum) \<Rightarrow>
         (int (effective_concurrency (sch_Concurrency due)) = fl_concurrency F \<longleftrightarrow> 0 < fl_concurrency F)
       \<and> (int (effective_concurrency (sch_Concurrency enum)) = fl_concurrency F \<longleftrightarrow> 0 < fl_concurrency F))"
proof -
  have ok: "accepted F" using assms check_flags_accepted by blast
  then have pos: "0 < fl_probeTimeout F" "1 \<le> fl_dueLimit F" "MinTimeout \<le> fl_confinementTimeout F" "0 < fl_bandwidthTimeout F"
    "0 < fl_pinRefreshInterval F" by (simp_all add: accepted_def)
  have "refreshGeolocationPins E c (fl_pinRefreshInterval F) now fetched (pins_set pins now s0) = pins_set pins now s0"
    using pos(5) by (simp add: refreshGeolocationPins_def pins_age_def pins_set_def)
  moreover have "case fst (newSampler D c (fl_skipBandwidth F) (fl_publicAPIURL F) (fl_bandwidthCDNURL F) (fl_bandwidthTimeout F)) of
      None \<Rightarrow> fl_skipBandwidth F | Some s \<Rightarrow> sampler_timeout s = fl_bandwidthTimeout F"
    using pos(4) by (simp add: newSampler_def sampler_timeout_def Let_def)
  moreover have "case newSchedulers P (fl_concurrency F) (fl_cacheTTL F) of (due, enum) \<Rightarrow>
         (int (effective_concurrency (sch_Concurrency due)) = fl_concurrency F \<longleftrightarrow> 0 < fl_concurrency F)
       \<and> (int (effective_concurrency (sch_Concurrency enum)) = fl_concurrency F \<longleftrightarrow> 0 < fl_concurrency F)"
    by (auto simp: newSchedulers_def effective_concurrency_def)
  moreover have "perSourceTimeout (per_source (fl_probeTimeout F)) = fl_probeTimeout F"
    using pos(1) by (simp add: perSourceTimeout_def)
  moreover note Verify_timeout[OF pos(3)] Due_answer[OF pos(2)] budget_kept[OF pos(1), of "fl_egressHealthAll F"]
  moreover have "perRequestTimeout (health_options (fl_probeTimeout F) (fl_egressHealthAll F))
      = op_PerRequestTimeout (health_options (fl_probeTimeout F) (fl_egressHealthAll F))"
    using per_request_positive[OF pos(1)] by (simp add: perRequestTimeout_def)
  ultimately show ?thesis unfolding Let_def by blast
qed

subsection \<open>Started processes\<close>

lemma main_start_cases:
  "main_start S given = (let F = with_env (st_getenv S) given in
     if \<not> accepted F then Inl (UsageError (the (check_flags F)))
     else case confinement_verdict S F of
       Some e \<Rightarrow> Inl (ConfinementFailed e)
     | None \<Rightarrow>
        (case parseByJwtClientId (st_ParseUnverified S) (st_ParseId S) (fl_byJwt F) of
           Inl e \<Rightarrow> Inl (BadToken e)
         | Inr clientId \<Rightarrow>
            (case startup_pins (st_env S) (operator_of (st_HTTP S) F) (st_now S) of
               Inl e \<Rightarrow> Inl (NoPins e)
             | Inr pins \<Rightarrow> Inr \<lparr> sa_flags = F, sa_tunnelCfg = tunnelCfg F clientId,
                 sa_operator = operator_of (st_HTTP S) F, sa_pins = pins \<rparr>)))"
  unfolding check_flags_accepted[symmetric]
  by (auto simp: main_start_def Let_def and_then_def split: option.splits sum.splits)

lemma startup_pins_cover:
  assumes "startup_pins E c now = Inr s"
  shows "covers (pn_pins s)" "pn_fetchedAt s = now"
proof -
  obtain pins where "fetchGeolocationPins E c = Inr pins" "s = pins_set pins now pins0"
    using assms by (cases "fetchGeolocationPins E c") (auto simp: startup_pins_def)
  then show "covers (pn_pins s)" "pn_fetchedAt s = now"
    using fetch_covers by (auto simp: pins_set_def)
qed

lemma startup_pins_served:
  assumes "startup_pins E c now = Inr s" "E \<in> Es"
  shows "served_pins Es c (pn_pins s)"
proof -
  obtain pins where "fetchGeolocationPins E c = Inr pins" "s = pins_set pins now pins0"
    using assms(1) by (cases "fetchGeolocationPins E c") (auto simp: startup_pins_def)
  then show ?thesis using fetch_served assms(2) by (simp add: pins_set_def)
qed

text \<open>What the self-check of a start tested, with the resolver and the dialer of the host.\<close>

abbreviation start_check :: "start_env \<Rightarrow> flags \<Rightarrow> confinement_outcome" where
  "start_check S F \<equiv> checkConfinement (Some (st_dial S)) (Some (st_lookup S)) (fl_confinementAddrs F) (fl_confinementTimeout F)"

abbreviation start_resolves :: "start_env \<Rightarrow> flags \<Rightarrow> string \<Rightarrow> string set" where
  "start_resolves S F \<equiv> resolves_to (st_lookup S (int64 (fl_confinementTimeout F * int (length probeHosts))))"

lemma verdict_evidence:
  assumes "confinement_verdict S F = None" "\<not> fl_skipConfinementCheck F"
  shows "co_dialed (start_check S F) \<noteq> [] \<and> (\<forall>a\<in>set (co_dialed (start_check S F)). st_dial S a \<noteq> Connected)
    \<and> (if fl_confinementAddrs F \<noteq> [] then co_dialed (start_check S F) = fl_confinementAddrs F
       else set (co_dialed (start_check S F)) = (\<Union>h\<in>set probeHosts. (\<lambda>ip. JoinHostPort ip ''443'') ` start_resolves S F h)
          \<and> co_untested (start_check S F) = filter (\<lambda>h. start_resolves S F h = {}) probeHosts)"
proof -
  have "co_err (start_check S F) = None" using assms by (simp add: confinement_verdict_def)
  from checkConfinement_pass[OF this] show ?thesis by simp
qed

text \<open>
  C8. A process that starts has passed every check. Its flags are accepted and its pin set
  covers every source. Unless the operator switched the self-check off with
  \<open>-skip-confinement-check\<close>, which the code allows and warns of, the self-check dialled at least
  one address and none answered: exactly the explicit addresses where some are given, and
  otherwise, on port 443, exactly the addresses that the probe hosts resolve to, the hosts that
  resolve to none being those named in the warning. It exits with 2 exactly when the flags are
  not accepted. A failed self-check ends the process whatever the server and the token are: they
  have not been read.
\<close>

theorem start_checked:
  "case main_start S given of
     Inr st \<Rightarrow> sa_flags st = with_env (st_getenv S) given \<and> accepted (sa_flags st) \<and> covers (pins_get (sa_pins st))
       \<and> (fl_skipConfinementCheck given
          \<or> co_dialed (start_check S given) \<noteq> [] \<and> (\<forall>a\<in>set (co_dialed (start_check S given)). st_dial S a \<noteq> Connected)
            \<and> (if fl_confinementAddrs given \<noteq> [] then co_dialed (start_check S given) = fl_confinementAddrs given
               else set (co_dialed (start_check S given))
                      = (\<Union>h\<in>set probeHosts. (\<lambda>ip. JoinHostPort ip ''443'') ` start_resolves S given h)
                  \<and> co_untested (start_check S given) = filter (\<lambda>h. start_resolves S given h = {}) probeHosts))
   | Inl e \<Rightarrow> (exit_code e = 2 \<longleftrightarrow> \<not> accepted (with_env (st_getenv S) given))
       \<and> ((\<exists>x. e = ConfinementFailed x) \<longrightarrow>
            main_start (S\<lparr> st_env := E, st_HTTP := http, st_ParseUnverified := token \<rparr>) given = Inl e)"
proof -
  have same: "fl_skipConfinementCheck (with_env (st_getenv S) given) = fl_skipConfinementCheck given"
    "fl_confinementAddrs (with_env (st_getenv S) given) = fl_confinementAddrs given"
    "fl_confinementTimeout (with_env (st_getenv S) given) = fl_confinementTimeout given"
    by (simp_all add: with_env_def)
  have other: "confinement_verdict (S\<lparr> st_env := E, st_HTTP := http, st_ParseUnverified := token \<rparr>) F = confinement_verdict S F" for F
    by (simp add: confinement_verdict_def)
  have evidence: "fl_skipConfinementCheck given \<or> co_dialed (start_check S given) \<noteq> []
      \<and> (\<forall>a\<in>set (co_dialed (start_check S given)). st_dial S a \<noteq> Connected)
      \<and> (if fl_confinementAddrs given \<noteq> [] then co_dialed (start_check S given) = fl_confinementAddrs given
         else set (co_dialed (start_check S given))
                = (\<Union>h\<in>set probeHosts. (\<lambda>ip. JoinHostPort ip ''443'') ` start_resolves S given h)
            \<and> co_untested (start_check S given) = filter (\<lambda>h. start_resolves S given h = {}) probeHosts)"
    if "confinement_verdict S (with_env (st_getenv S) given) = None"
    using verdict_evidence[OF that] unfolding same by blast
  have refusal: "case main_start S given of Inr st \<Rightarrow> True
    | Inl e \<Rightarrow> (exit_code e = 2 \<longleftrightarrow> \<not> accepted (with_env (st_getenv S) given))
       \<and> ((\<exists>x. e = ConfinementFailed x) \<longrightarrow>
            main_start (S\<lparr> st_env := E, st_HTTP := http, st_ParseUnverified := token \<rparr>) given = Inl e)"
    unfolding main_start_cases Let_def using other
    by (auto simp: exit_code_def split: sum.split option.splits)
  show ?thesis
  proof (cases "main_start S given")
    case (Inr st)
    then have "sa_flags st = with_env (st_getenv S) given" "accepted (sa_flags st)" "covers (pins_get (sa_pins st))"
      "confinement_verdict S (with_env (st_getenv S) given) = None"
      unfolding main_start_cases Let_def using startup_pins_cover
      by (auto split: if_splits sum.splits option.splits)
    with evidence show ?thesis by (simp only: Inr sum.case simp_thms)
  next
    case (Inl e)
    then show ?thesis using refusal by simp
  qed
qed

subsection \<open>A concrete start\<close>

definition sample_flags :: flags where
  "sample_flags = default_flags\<lparr> fl_apiURL := ''https://op'', fl_platformURL := ''wss://op'', fl_byJwt := ''jwt'',
     fl_operatorSecret := ''s'', fl_confinementAddrs := [''10.0.0.1:443''] \<rparr>"

lemmas sample_flags_defs = sample_flags_def default_flags_def Hour_def DefaultTimeout_def MinTimeout_def duration_units

lemma sample_flags_accepted: "accepted sample_flags"
  by (simp add: accepted_def sample_flags_defs)

definition open_host :: "start_env" where
  "open_host = \<lparr> st_getenv = (\<lambda>_. []), st_dial = (\<lambda>_. Connected),
     st_lookup = (\<lambda>t h. Inl ''no dns''), st_ParseUnverified = (\<lambda>j. Inr [''client_id'' \<mapsto> JStr ''id'']),
     st_ParseId = Inr, st_HTTP = answering 200, st_env = sample_env, st_now = 9 \<rparr>"

text \<open>The same server, on a host that reaches nothing directly.\<close>

definition confined_host :: "start_env" where
  "confined_host = open_host\<lparr> st_dial := (\<lambda>_. Failed ''blocked'') \<rparr>"

definition sample_started :: "flags \<Rightarrow> started" where
  "sample_started F = \<lparr> sa_flags = F, sa_tunnelCfg = tunnelCfg F ''id'', sa_operator = operator_of (answering 200) F,
     sa_pins = \<lparr> pn_pins = sample_pins, pn_fetchedAt = 9 \<rparr> \<rparr>"

lemma confined_start:
  "main_start confined_host (sample_flags\<lparr> fl_interval := i \<rparr>) =
    (if 0 \<le> i then Inr (sample_started (sample_flags\<lparr> fl_interval := i \<rparr>)) else Inl (UsageError (NegativeInterval i)))"
proof -
  let ?F = "sample_flags\<lparr> fl_interval := i \<rparr>"
  have env: "with_env (st_getenv confined_host) ?F = ?F"
    by (rule with_env_keeps) (simp_all add: sample_flags_defs)
  have "confinement_verdict confined_host ?F = None"
    by (simp add: confinement_verdict_def checkConfinement_def Verify_def confined_host_def open_host_def sample_flags_defs)
  moreover have "fl_apiURL ?F = ''https://op''" by (simp add: sample_flags_defs)
  then have "startup_pins sample_env (operator_of (answering 200) ?F) 9
      = Inr \<lparr> pn_pins = sample_pins, pn_fetchedAt = 9 \<rparr>"
    by (intro pin_served) (simp_all add: httpClient_def operator_of_def answering_def)
  moreover have "parseByJwtClientId (st_ParseUnverified confined_host) (st_ParseId confined_host) (fl_byJwt ?F) = Inr ''id''"
    by (simp add: parseByJwtClientId_def confined_host_def open_host_def)
  moreover have "check_flags ?F = (if 0 \<le> i then None else Some (NegativeInterval i))"
    by (simp add: check_flags_def missing_flags_def sample_flags_defs)
  ultimately show ?thesis
    unfolding main_start_def env Let_def by (simp add: sample_started_def confined_host_def open_host_def)
qed

theorem accepted_guards_witness:
  "perSourceTimeout (per_source (fl_probeTimeout sample_flags)) = 60 * Second
   \<and> fst (Verify (Some (\<lambda>_. Failed ''blocked'')) [''10.0.0.1:443''] [] (fl_confinementTimeout sample_flags))
       \<noteq> Some (ErrInvalidTimeout (3 * Second))"
proof -
  have "check_flags sample_flags = None" using sample_flags_accepted check_flags_accepted by blast
  from accepted_guards[OF this, of "\<lambda>_. Failed ''blocked''" "[''10.0.0.1:443'']" "[]" "3 * Second"]
  have "perSourceTimeout (per_source (fl_probeTimeout sample_flags)) = fl_probeTimeout sample_flags"
    "fst (Verify (Some (\<lambda>_. Failed ''blocked'')) [''10.0.0.1:443''] [] (fl_confinementTimeout sample_flags))
       \<noteq> Some (ErrInvalidTimeout (3 * Second))" by blast+
  moreover have "fl_probeTimeout sample_flags = 60 * Second" by (simp add: sample_flags_def default_flags_def)
  ultimately show ?thesis by simp
qed

text \<open>A host that is not confined ends the process with 1, whatever the server would have served.\<close>

theorem start_checked_witness:
  "main_start (open_host\<lparr> st_env := sample_env\<lparr> ie_Deadline := 0 \<rparr>, st_HTTP := answering 500, st_ParseUnverified := (\<lambda>j. Inl ''bad'') \<rparr>) sample_flags
     = Inl (ConfinementFailed (ErrNotConfined ''10.0.0.1:443''))
   \<and> exit_code (ConfinementFailed (ErrNotConfined ''10.0.0.1:443'')) = 1"
proof -
  have env: "with_env (st_getenv open_host) sample_flags = sample_flags"
    by (rule with_env_keeps) (simp_all add: sample_flags_defs)
  have "confinement_verdict open_host sample_flags = Some (ErrNotConfined ''10.0.0.1:443'')"
    by (simp add: confinement_verdict_def checkConfinement_def Verify_def open_host_def sample_flags_defs)
  then have "main_start open_host sample_flags = Inl (ConfinementFailed (ErrNotConfined ''10.0.0.1:443''))"
    unfolding main_start_cases env Let_def using sample_flags_accepted by simp
  then show ?thesis
    using start_checked[where S = open_host and given = sample_flags and E = "sample_env\<lparr> ie_Deadline := 0 \<rparr>"
      and http = "answering 500" and token = "\<lambda>j. Inl ''bad''"]
    by (simp add: exit_code_def)
qed

end
