(* ===== verification/Main_Loop.thy ===== *)
theory Main_Loop
  imports Main_Startup
begin

text \<open>
  The loop of \<open>cmd/egress-prober/main.go\<close>: refresh the pins, select the providers, run a pass
  with the scheduler the selection calls for, then exit or sleep. It is a step relation, because
  a pass may be interleaved and answered in any way; the theorems show the invariant of the
  process, what its exit status means, and that it never stops by itself while it is to keep
  running.
\<close>

subsection \<open>The process\<close>

datatype main_phase = Looping | Sleeping | Exited nat

text \<open>
  What the log line of a pass says of it and the list it ran over; beside them, for the theorems,
  the pins its tunnels took and the results it counted.
\<close>

record pass_record =
  pq_serverDriven :: bool
  pq_ids :: "string list"
  pq_sum :: PassSummary
  pq_pins :: pinSet
  pq_results :: "(string \<times> err option) list"

text \<open>\<open>pc_stopped\<close> is \<open>ctx.Err() != nil\<close>: the process was told to stop.\<close>

record process =
  pc_pins :: pinSet
  pc_dueCache :: cache
  pc_enumCache :: cache
  pc_now :: gotime
  pc_stopped :: bool
  pc_phase :: main_phase
  pc_passes :: "pass_record list"

definition process0 :: "pinSet \<Rightarrow> gotime \<Rightarrow> process" where
  "process0 pins now = \<lparr> pc_pins = pins, pc_dueCache = Map.empty, pc_enumCache = Map.empty, pc_now = now,
     pc_stopped = False, pc_phase = Looping, pc_passes = [] \<rparr>"

text \<open>The prober of a pass: every tunnel that it opens takes the pins then in force.\<close>

definition process_prober :: "'w production \<Rightarrow> Client \<Rightarrow> flags \<Rightarrow> pinSet \<Rightarrow> ('w, tunnel) Prober" where
  "process_prober D operator F pins =
    (let (sampler, targets) = newSampler D operator (fl_skipBandwidth F) (fl_publicAPIURL F)
           (fl_bandwidthCDNURL F) (fl_bandwidthTimeout F)
     in newProber (D\<lparr> pd_pins := (\<lambda>_. pins) \<rparr>) (fl_probeTimeout F) operator (fl_egressHealthAll F) sampler
          (TargetHosts targets))"

definition process_scheduler :: "'w production \<Rightarrow> Client \<Rightarrow> flags \<Rightarrow> pinSet \<Rightarrow> bool
    \<Rightarrow> ('w, tunnel) Scheduler" where
  "process_scheduler D operator F pins serverDriven =
    (let (dueScheduler, enumScheduler) =
           newSchedulers (process_prober D operator F pins) (fl_concurrency F) (fl_cacheTTL F)
     in if serverDriven then dueScheduler else enumScheduler)"

definition process_cache :: "bool \<Rightarrow> process \<Rightarrow> cache" where
  "process_cache serverDriven s = (if serverDriven then pc_dueCache s else pc_enumCache s)"

definition with_cache :: "bool \<Rightarrow> cache \<Rightarrow> process \<Rightarrow> process" where
  "with_cache serverDriven c s =
    (if serverDriven then s\<lparr> pc_dueCache := c \<rparr> else s\<lparr> pc_enumCache := c \<rparr>)"

definition after_pass :: "duration \<Rightarrow> PassSummary \<Rightarrow> main_phase" where
  "after_pass interval su =
    (if interval = 0 \<and> su_Submitted su = 0 \<and> 0 < su_Failed su then Exited 1
     else if interval = 0 then Exited 0 else Sleeping)"

definition after_failure :: "duration \<Rightarrow> main_phase" where
  "after_failure interval = (if interval = 0 then Exited 1 else Sleeping)"

text \<open>
  One turn of the loop, with the worlds and the readings of the clock it sees: \<open>w1\<close>, \<open>t1\<close>,
  \<open>t2\<close> for the refresh, \<open>w2\<close> for the selection, \<open>t3\<close> at the start of the pass. A signal may
  arrive at any time; the loop looks for it when it sleeps.
\<close>

inductive main_step :: "'w production \<Rightarrow> http_client \<Rightarrow> Client \<Rightarrow> flags \<Rightarrow> process \<Rightarrow> process \<Rightarrow> bool"
  for D :: "'w production" and client :: http_client and operator :: Client and F :: flags where
  unselected: "pc_phase s = Looping \<Longrightarrow> pc_now s \<le> t1 \<Longrightarrow> t1 \<le> t2 \<Longrightarrow> t2 \<le> t3 \<Longrightarrow>
    \<forall>xs. mset (arrange xs) = mset xs \<Longrightarrow>
    pins = refreshGeolocationPins (pd_env D w1) operator (fl_pinRefreshInterval F) t1 t2 (pc_pins s) \<Longrightarrow>
    sel = selectProviders (pd_env D w2) operator client arrange (fl_dueLimit F) (fl_apiURL F) (fl_byJwt F) \<Longrightarrow>
    se_err sel = Some e \<Longrightarrow>
    main_step D client operator F s
      (s\<lparr> pc_pins := pins, pc_now := t3, pc_phase := after_failure (fl_interval F) \<rparr>)"
| passed: "pc_phase s = Looping \<Longrightarrow> pc_now s \<le> t1 \<Longrightarrow> t1 \<le> t2 \<Longrightarrow> t2 \<le> t3 \<Longrightarrow>
    \<forall>xs. mset (arrange xs) = mset xs \<Longrightarrow>
    pins = refreshGeolocationPins (pd_env D w1) operator (fl_pinRefreshInterval F) t1 t2 (pc_pins s) \<Longrightarrow>
    sel = selectProviders (pd_env D w2) operator client arrange (fl_dueLimit F) (fl_apiURL F) (fl_byJwt F) \<Longrightarrow>
    se_err sel = None \<Longrightarrow>
    runs (process_scheduler D operator F pins (se_serverDriven sel)) t3
      (process_cache (se_serverDriven sel) s) (se_ids sel) r \<Longrightarrow>
    returned r \<Longrightarrow>
    main_step D client operator F s
      (with_cache (se_serverDriven sel) (sd_probed r)
         (s\<lparr> pc_pins := pins, pc_now := sd_now r,
             pc_phase := after_pass (fl_interval F) (ps_sum (sd_pass r)),
             pc_passes := pc_passes s @ [\<lparr> pq_serverDriven = se_serverDriven sel, pq_ids = se_ids sel,
                pq_sum = ps_sum (sd_pass r), pq_pins = pins, pq_results = ps_results (sd_pass r) \<rparr>] \<rparr>))"
| woken: "pc_phase s = Sleeping \<Longrightarrow> pc_now s + fl_interval F \<le> now \<Longrightarrow>
    main_step D client operator F s (s\<lparr> pc_phase := Looping, pc_now := now \<rparr>)"
| signalled: "pc_phase s = Looping \<or> pc_phase s = Sleeping \<Longrightarrow> \<not> pc_stopped s \<Longrightarrow> pc_now s \<le> now \<Longrightarrow>
    main_step D client operator F s (s\<lparr> pc_stopped := True, pc_now := now \<rparr>)"
| cancelled: "pc_phase s = Sleeping \<Longrightarrow> pc_stopped s \<Longrightarrow> pc_now s \<le> now \<Longrightarrow>
    main_step D client operator F s (s\<lparr> pc_phase := Exited 0, pc_now := now \<rparr>)"

inductive_cases main_stepE: "main_step D client operator F s t"

text \<open>The libraries of a started process: its tunnels are opened with the configuration it built.\<close>

abbreviation configured :: "'w production \<Rightarrow> started \<Rightarrow> 'w production" where
  "configured D st \<equiv> D\<lparr> pd_cfg := sa_tunnelCfg st \<rparr>"

definition process_reaches :: "'w production \<Rightarrow> http_client \<Rightarrow> started \<Rightarrow> gotime \<Rightarrow> process \<Rightarrow> bool" where
  "process_reaches D client st now s \<longleftrightarrow>
    (main_step (configured D st) client (sa_operator st) (sa_flags st))\<^sup>*\<^sup>* (process0 (sa_pins st) now) s"

subsection \<open>The invariant of the process\<close>

definition past_cache :: "gotime \<Rightarrow> cache \<Rightarrow> bool" where
  "past_cache now c \<longleftrightarrow> (\<forall>pid t. c pid = Some t \<longrightarrow> t \<le> now)"

lemma past_cache_mono: "past_cache now c \<Longrightarrow> now \<le> now' \<Longrightarrow> past_cache now' c"
  by (force simp: past_cache_def)

text \<open>
  A pass accounts for its list; the server's list is never filtered; a success was recorded.
\<close>

definition bandwidth_hosts :: "'w production \<Rightarrow> Client \<Rightarrow> flags \<Rightarrow> string list" where
  "bandwidth_hosts D operator F = TargetHosts (snd (newSampler D operator (fl_skipBandwidth F)
     (fl_publicAPIURL F) (fl_bandwidthCDNURL F) (fl_bandwidthTimeout F)))"

text \<open>
  A provider whose location was recorded, through a tunnel opened with the pins; and one a probe
  of which returned an error, in a run in which the server accepted no location.
\<close>

definition recorded :: "'w production \<Rightarrow> Client \<Rightarrow> flags \<Rightarrow> pinSet \<Rightarrow> string \<Rightarrow> bool" where
  "recorded D operator F pins pid \<longleftrightarrow>
    recorded_location (D\<lparr> pd_pins := (\<lambda>_. pins) \<rparr>) (fl_probeTimeout F) operator (bandwidth_hosts D operator F) pid"

definition not_recorded :: "'w production \<Rightarrow> Client \<Rightarrow> flags \<Rightarrow> pinSet \<Rightarrow> string \<Rightarrow> err \<Rightarrow> bool" where
  "not_recorded D operator F pins pid e \<longleftrightarrow>
    (\<exists>r. fst (ProbeOne (process_prober D operator F pins) pid r) = Some e
      \<and> \<not> accepted_in (process_prober D operator F pins) pid r)"

definition result_sound :: "'w production \<Rightarrow> Client \<Rightarrow> flags \<Rightarrow> pass_record \<Rightarrow> string \<times> err option \<Rightarrow> bool" where
  "result_sound D operator F q x \<longleftrightarrow> fst x \<in> set (pq_ids q)
    \<and> (case snd x of None \<Rightarrow> recorded D operator F (pq_pins q) (fst x)
       | Some e \<Rightarrow> not_recorded D operator F (pq_pins q) (fst x) e)"

definition pass_sound :: "'w production \<Rightarrow> Client \<Rightarrow> flags \<Rightarrow> pass_record \<Rightarrow> bool" where
  "pass_sound D operator F q \<longleftrightarrow>
    su_Attempted (pq_sum q) = su_Submitted (pq_sum q) + su_Failed (pq_sum q)
    \<and> su_Attempted (pq_sum q) + su_Skipped (pq_sum q) = length (pq_ids q)
    \<and> (pq_serverDriven q \<longrightarrow> su_Skipped (pq_sum q) = 0)
    \<and> covers (pins_get (pq_pins q))
    \<and> su_Submitted (pq_sum q) = count_if (\<lambda>x. snd x = None) (pq_results q)
    \<and> su_Failed (pq_sum q) = count_if (\<lambda>x. snd x \<noteq> None) (pq_results q)
    \<and> list_all (result_sound D operator F q) (pq_results q)"

text \<open>\<open>Es\<close> are the answers that the server gives to the requests for pins.\<close>

definition process_ok :: "ingest_env set \<Rightarrow> 'w production \<Rightarrow> Client \<Rightarrow> flags \<Rightarrow> process \<Rightarrow> bool" where
  "process_ok Es D operator F s \<longleftrightarrow>
    covers (pn_pins (pc_pins s)) \<and> served_pins Es operator (pn_pins (pc_pins s))
    \<and> past_cache (pc_now s) (pc_dueCache s) \<and> past_cache (pc_now s) (pc_enumCache s)
    \<and> list_all (\<lambda>q. pass_sound D operator F q \<and> served_pins Es operator (pn_pins (pq_pins q))) (pc_passes s)"

lemma refresh_covers:
  "covers (pn_pins s) \<Longrightarrow> covers (pn_pins (refreshGeolocationPins E c interval now fetched s))"
  by (auto simp: refreshGeolocationPins_def pins_set_def fetch_covers split: sum.split)

lemma process_scheduler_values [simp]:
  "sch_Prober (process_scheduler D operator F pins driven) = process_prober D operator F pins"
  "sch_Concurrency (process_scheduler D operator F pins driven) = fl_concurrency F"
  "sch_CacheTTL (process_scheduler D operator F pins driven) = (if driven then 0 else fl_cacheTTL F)"
  by (simp_all add: process_scheduler_def newSchedulers_def)

lemma process_prober_recorded:
  assumes "unicode_ok (pd_unicode D)" "\<And>w. pd_now D w \<noteq> 0"
    and "prober_answers (process_prober D operator F pins) pid None"
  shows "recorded D operator F pins pid"
proof -
  obtain sampler targets where ns: "newSampler D operator (fl_skipBandwidth F) (fl_publicAPIURL F)
     (fl_bandwidthCDNURL F) (fl_bandwidthTimeout F) = (sampler, targets)" by fastforce
  let ?D = "D\<lparr> pd_pins := (\<lambda>_. pins) \<rparr>"
  have "prober_answers (newProber ?D (fl_probeTimeout F) operator (fl_egressHealthAll F) sampler
      (TargetHosts targets)) pid None"
    using assms(3) ns by (simp add: process_prober_def)
  then have "recorded_location ?D (fl_probeTimeout F) operator (TargetHosts targets) pid"
    by (intro probe_success_recorded) (simp_all add: assms(1,2))
  then show ?thesis by (simp add: recorded_def bandwidth_hosts_def ns)
qed

lemma process_prober_not_recorded:
  assumes "prober_answers (process_prober D operator F pins) pid (Some e)"
  shows "not_recorded D operator F pins pid e"
proof -
  have "wired (process_prober D operator F pins)"
    by (simp add: process_prober_def newProber_wired split_beta)
  then show ?thesis using assms success_accepted unfolding not_recorded_def prober_answers_def by (metis option.distinct(1))
qed

lemma pass_record_sound:
  assumes "unicode_ok (pd_unicode D)" "\<And>w. pd_now D w \<noteq> 0"
    and "runs (process_scheduler D operator F pins driven) t c ids r" "returned r" "past_cache t c"
    and "covers (pn_pins pins)"
    and "q = \<lparr> pq_serverDriven = driven, pq_ids = ids, pq_sum = ps_sum (sd_pass r), pq_pins = pins, pq_results = ps_results (sd_pass r) \<rparr>"
  shows "pass_sound D operator F q" "past_cache (sd_now r) (sd_probed r) \<and> t \<le> sd_now r"
proof -
  note run = assms(3)[unfolded runs_def process_scheduler_values]
  have p: "past r" "t \<le> sd_now r" "driven \<longrightarrow> su_Skipped (ps_sum (sd_pass r)) = 0"
    using reachable_past[OF run] assms(5) by (auto simp: past_cache_def)
  then show "past_cache (sd_now r) (sd_probed r) \<and> t \<le> sd_now r"
    by (simp add: past_def past_cache_def)
  have "su_Attempted (ps_sum (sd_pass r)) + su_Skipped (ps_sum (sd_pass r)) = length ids"
    "su_Submitted (ps_sum (sd_pass r)) + su_Failed (ps_sum (sd_pass r)) = su_Attempted (ps_sum (sd_pass r))"
    using reachable_invariant[OF run] assms(4) by (auto simp: tallied_def not_begun_def returned_def)
  moreover have res: "results_sound (prober_answers (process_prober D operator F pins)) ids r"
    by (rule reachable_results[OF run])
  moreover have "result_sound D operator F q x" if x: "x \<in> set (ps_results (sd_pass r))" for x
  proof -
    have "fst x \<in> set ids \<and> prober_answers (process_prober D operator F pins) (fst x) (snd x)"
      using res x by (auto simp: results_sound_def list_all_iff split_beta)
    then show ?thesis
      using process_prober_recorded[OF assms(1,2)] process_prober_not_recorded[of D operator F pins "fst x"]
      by (cases "snd x") (simp_all add: result_sound_def assms(7))
  qed
  ultimately show "pass_sound D operator F q"
    using p(3) assms(6) by (simp add: pass_sound_def assms(7) results_sound_def list_all_iff)
qed

lemma refresh_keeps:
  assumes "covers (pn_pins s)" "served_pins Es c (pn_pins s)" "range (pd_env D) \<subseteq> Es"
    and "pins = refreshGeolocationPins (pd_env D w) c interval now fetched s"
  shows "covers (pn_pins pins)" "served_pins Es c (pn_pins pins)"
proof -
  have "pd_env D w \<in> Es" using assms(3) by blast
  then show "served_pins Es c (pn_pins pins)" using refresh_served[OF assms(2)] by (simp add: assms(4))
  show "covers (pn_pins pins)" using refresh_covers[OF assms(1)] by (simp add: assms(4))
qed

lemma main_step_ok:
  assumes "unicode_ok (pd_unicode D)" "\<And>w. pd_now D w \<noteq> 0" "0 \<le> fl_interval F" "range (pd_env D) \<subseteq> Es"
    and "main_step D client operator F s t" "process_ok Es D operator F s"
  shows "process_ok Es D operator F t"
  using assms(5)
proof cases
  case (unselected t1 t2 t3 arrange pins w1 sel w2 e)
  have "pc_now s \<le> t3" using unselected by linarith
  moreover have "covers (pn_pins pins)" "served_pins Es operator (pn_pins pins)"
    using refresh_keeps[OF _ _ assms(4) unselected(7)] assms(6) by (simp_all add: process_ok_def)
  ultimately show ?thesis
    using assms(6) past_cache_mono unselected(1) by (auto simp: process_ok_def)
next
  case (passed t1 t2 t3 arrange pins w1 sel w2 r)
  have now: "pc_now s \<le> t3" using passed by linarith
  then have past: "past_cache t3 (process_cache (se_serverDriven sel) s)"
    using assms(6) past_cache_mono by (auto simp: process_cache_def process_ok_def)
  have pins: "covers (pn_pins pins)" "served_pins Es operator (pn_pins pins)"
    using refresh_keeps[OF _ _ assms(4) passed(7)] assms(6) by (simp_all add: process_ok_def)
  note sound = pass_record_sound[OF assms(1,2) passed(10,11) past pins(1) refl]
  have "past_cache (sd_now r) (pc_dueCache s)" "past_cache (sd_now r) (pc_enumCache s)"
    using assms(6) past_cache_mono[of "pc_now s"] now sound(2) by (auto simp: process_ok_def)
  then show ?thesis
    using assms(6) sound pins passed(1) by (auto simp: process_ok_def with_cache_def)
next
  case (woken now)
  then show ?thesis using assms(3,6) past_cache_mono[of "pc_now s" _ now] by (auto simp: process_ok_def)
next
  case (signalled now)
  then show ?thesis using assms(6) past_cache_mono[of "pc_now s" _ now] by (auto simp: process_ok_def)
next
  case (cancelled now)
  then show ?thesis using assms(6) past_cache_mono[of "pc_now s" _ now] by (auto simp: process_ok_def)
qed

text \<open>The answers that a process sees: of the server at its start, and later in any world.\<close>

definition answers_of :: "start_env \<Rightarrow> 'w production \<Rightarrow> ingest_env set" where
  "answers_of S D = insert (st_env S) (range (pd_env D))"

lemma process_reaches_ok:
  assumes "main_start S given = Inr st"
    and "unicode_ok (pd_unicode D)" "\<And>w. pd_now D w \<noteq> 0" "process_reaches D client st now s"
  shows "process_ok (answers_of S D) (configured D st) (sa_operator st) (sa_flags st) s"
proof -
  have st: "accepted (sa_flags st)" "startup_pins (st_env S) (sa_operator st) (st_now S) = Inr (sa_pins st)"
    using assms(1) by (auto simp: main_start_cases Let_def split: if_splits option.splits sum.splits)
  show ?thesis
    using assms(4) unfolding process_reaches_def
  proof (induction rule: rtranclp_induct)
    case base
    show ?case using startup_pins_cover[OF st(2)] startup_pins_served[OF st(2)]
      by (simp add: process_ok_def process0_def past_cache_def answers_of_def)
  next
    case (step s t)
    show ?case
      by (rule main_step_ok[OF _ _ _ _ step(2)])
        (use assms(2,3) st(1) step(3) in \<open>simp_all add: accepted_def answers_of_def\<close>, blast?)
  qed
qed

text \<open>
  C4. At every moment of the process, whatever the servers, the providers and the clock did: the
  pins that the next tunnel takes cover every geolocation source, so no tunnel is refused for
  want of pins and none is unpinned; every pass accounted for each provider of its list exactly
  once and ran with pins that cover every source; a list the server chose was never filtered by
  the cache; and every result that a pass counted is of a provider of its list: a success is one
  whose country-confident location, agreed by two sources through its tunnel, the server
  answered with 200, an error one of a probe in which the server accepted no location.
\<close>

theorem process_invariant:
  assumes "main_start S given = Inr st"
    and "unicode_ok (pd_unicode D)" and "\<And>w. pd_now D w \<noteq> 0"
    and "process_reaches D client st now s"
  shows "covers (pins_get (pc_pins s))
    \<and> fst (open_tunnel create base (cfg\<lparr> cf_Pins := pins_get (pc_pins s) \<rparr>) provider) \<noteq> Inl ErrPinsRequired
    \<and> list_all (pass_sound (configured D st) (sa_operator st) (sa_flags st)) (pc_passes s)"
  using process_reaches_ok[OF assms]
  by (auto simp: process_ok_def open_tunnel_def covers_def list_all_iff split: option.split)

subsection \<open>The exit status\<close>

text \<open>
  How far a single-shot process is, and what its exit status then says: it had no list, or its
  one pass counted only errors, or it ended with nothing to do or with a success.
\<close>

definition no_list :: "'w production \<Rightarrow> http_client \<Rightarrow> Client \<Rightarrow> flags \<Rightarrow> bool" where
  "no_list D client operator F \<longleftrightarrow> (\<exists>w arrange. (\<forall>xs. mset (arrange xs) = mset xs) \<and>
     se_err (selectProviders (pd_env D w) operator client arrange (fl_dueLimit F) (fl_apiURL F) (fl_byJwt F)) \<noteq> None)"

definition some_success :: "pass_record \<Rightarrow> bool" where
  "some_success q \<longleftrightarrow> (\<exists>x\<in>set (pq_results q). snd x = None)"

definition single_shot :: "'w production \<Rightarrow> http_client \<Rightarrow> Client \<Rightarrow> flags \<Rightarrow> process \<Rightarrow> bool" where
  "single_shot D client operator F s \<longleftrightarrow>
    pc_phase s = Looping \<and> pc_passes s = [] \<and> pc_dueCache s = Map.empty \<and> pc_enumCache s = Map.empty
    \<or> pc_phase s = Exited 1 \<and> pc_passes s = [] \<and> no_list D client operator F
    \<or> (\<exists>q. pc_passes s = [q] \<and> (pq_ids q \<noteq> [] \<longrightarrow> 0 < su_Submitted (pq_sum q) \<or> 0 < su_Failed (pq_sum q))
         \<and> pc_phase s = Exited (if su_Submitted (pq_sum q) = 0 \<and> 0 < su_Failed (pq_sum q) then 1 else 0))"

lemma single_shot_step:
  assumes "main_step D client operator F s t" "single_shot D client operator F s" "fl_interval F = 0"
  shows "single_shot D client operator F t"
  using assms(1)
proof cases
  case (unselected t1 t2 t3 arrange pins w1 sel w2 e)
  then have "no_list D client operator F" unfolding no_list_def by (metis (no_types, lifting) option.distinct(1))
  then show ?thesis using assms(2,3) unselected(1,2) by (auto simp: single_shot_def after_failure_def)
next
  case (passed t1 t2 t3 arrange pins w1 sel w2 r)
  then have s: "pc_passes s = []" "process_cache (se_serverDriven sel) s = (\<lambda>_. None)"
    using assms(2) by (auto simp: single_shot_def process_cache_def)
  have "se_ids sel \<noteq> [] \<Longrightarrow> 0 < su_Submitted (ps_sum (sd_pass r)) \<or> 0 < su_Failed (ps_sum (sd_pass r))"
    using reachable_fresh[OF passed(10)[unfolded s(2) runs_def] passed(11)] .
  then show ?thesis using passed(1) s(1) assms(3)
    by (auto simp: single_shot_def with_cache_def after_pass_def)
qed (use assms(2) in \<open>auto simp: single_shot_def\<close>)

lemma process_single_shot:
  assumes "process_reaches D client st now s" "fl_interval (sa_flags st) = 0"
  shows "single_shot (configured D st) client (sa_operator st) (sa_flags st) s"
  using assms(1) unfolding process_reaches_def
proof (induction rule: rtranclp_induct)
  case base
  show ?case by (simp add: single_shot_def process0_def)
next
  case (step s t)
  then show ?case using single_shot_step assms(2) by blast
qed

lemma process_long_running:
  assumes "process_reaches D client st now s" "fl_interval (sa_flags st) \<noteq> 0" "pc_phase s = Exited k"
  shows "k = 0 \<and> pc_stopped s"
  using assms(1,3) unfolding process_reaches_def
proof (induction arbitrary: k rule: rtranclp_induct)
  case base
  then show ?case by (simp add: process0_def)
next
  case (step s t)
  from step(2) step(4) show ?case
    by cases (use assms(2) in \<open>auto simp: after_failure_def after_pass_def with_cache_def split: if_splits\<close>)
qed

lemma pass_successes:
  assumes "pass_sound D operator F q"
  shows "0 < su_Submitted (pq_sum q) \<longleftrightarrow> some_success q"
    "pq_ids q = [] \<Longrightarrow> su_Submitted (pq_sum q) = 0 \<and> su_Failed (pq_sum q) = 0"
proof -
  have "su_Submitted (pq_sum q) = count_if (\<lambda>x. snd x = None) (pq_results q)"
    using assms unfolding pass_sound_def by blast
  then show "0 < su_Submitted (pq_sum q) \<longleftrightarrow> some_success q"
    by (simp only: some_success_def count_if_pos)
  show "su_Submitted (pq_sum q) = 0 \<and> su_Failed (pq_sum q) = 0" if "pq_ids q = []"
    using assms that unfolding pass_sound_def by auto
qed

text \<open>
  C2. The exit status can be believed. A process that is to keep running never exits by itself:
  when it has exited a signal had stopped it, and its status is 0. A single-shot process exits
  with 0 exactly when its one pass had an empty list or counted a success, and with 1 exactly
  when no list could be had, from the due list or the enumeration, or when its one pass over a
  non-empty list counted only errors. Each success that a pass counted is of a provider of its
  list whose location the server recorded, and each error is of a probe in which the server
  accepted no location.
\<close>

theorem exit_status:
  assumes "main_start S given = Inr st"
    and "unicode_ok (pd_unicode D)" and "\<And>w. pd_now D w \<noteq> 0"
    and "process_reaches D client st now s" and "pc_phase s = Exited k"
  shows "(fl_interval (sa_flags st) \<noteq> 0 \<longrightarrow> k = 0 \<and> pc_stopped s)
    \<and> (fl_interval (sa_flags st) = 0 \<longrightarrow>
        (k = 0 \<longleftrightarrow> (\<exists>q. pc_passes s = [q] \<and> (pq_ids q = [] \<or> (\<exists>pid. (pid, None) \<in> set (pq_results q)))))
      \<and> (k = 0 \<or> k = 1 \<and> (pc_passes s = [] \<and> no_list (configured D st) client (sa_operator st) (sa_flags st)
           \<or> (\<exists>q. pc_passes s = [q] \<and> pq_ids q \<noteq> [] \<and> (\<forall>x\<in>set (pq_results q). snd x \<noteq> None)))))
    \<and> (\<forall>q\<in>set (pc_passes s). \<forall>x\<in>set (pq_results q).
        result_sound (configured D st) (sa_operator st) (sa_flags st) q x)"
proof -
  have pass: "pass_sound (configured D st) (sa_operator st) (sa_flags st) q" if "q \<in> set (pc_passes s)" for q
    using process_reaches_ok[OF assms(1-4)] that by (simp add: process_ok_def list_all_iff)
  have results: "\<forall>q\<in>set (pc_passes s). \<forall>x\<in>set (pq_results q). result_sound (configured D st) (sa_operator st) (sa_flags st) q x"
    using pass by (simp add: pass_sound_def list_all_iff)
  have success: "some_success q \<longleftrightarrow> (\<exists>pid. (pid, None) \<in> set (pq_results q))" for q
    by (force simp: some_success_def)
  show ?thesis
  proof (cases "fl_interval (sa_flags st) = 0")
    case True
    then have one: "single_shot (configured D st) client (sa_operator st) (sa_flags st) s"
      using process_single_shot[OF assms(4)] by blast
    show ?thesis
    proof (cases "pc_passes s = []")
      case True
      then show ?thesis using one assms(5) \<open>fl_interval (sa_flags st) = 0\<close> by (auto simp: single_shot_def)
    next
      case False
      then obtain q where q: "pc_passes s = [q]"
        "pq_ids q \<noteq> [] \<longrightarrow> 0 < su_Submitted (pq_sum q) \<or> 0 < su_Failed (pq_sum q)"
        "k = (if su_Submitted (pq_sum q) = 0 \<and> 0 < su_Failed (pq_sum q) then 1 else 0)"
        using one assms(5) by (auto simp: single_shot_def)
      note s = pass_successes[OF pass[of q, unfolded q(1), simplified]]
      have "k = 0 \<longleftrightarrow> pq_ids q = [] \<or> some_success q" using q(2,3) s by auto
      moreover have "\<not> some_success q \<Longrightarrow> \<forall>x\<in>set (pq_results q). snd x \<noteq> None" by (simp add: some_success_def)
      ultimately show ?thesis using q(1,3) results \<open>fl_interval (sa_flags st) = 0\<close> success by auto
    qed
  next
    case False
    then show ?thesis using process_long_running[OF assms(4)] assms(5) results by blast
  qed
qed

subsection \<open>The process goes on\<close>

lemma looping_step:
  assumes "pc_phase s = Looping"
  shows "\<exists>t. main_step D client operator F s t
    \<and> pc_pins t = refreshGeolocationPins (pd_env D w1) operator (fl_pinRefreshInterval F) (pc_now s) (pc_now s) (pc_pins s)
    \<and> (if se_err (selectProviders (pd_env D w2) operator client rev (fl_dueLimit F) (fl_apiURL F) (fl_byJwt F)) = None
       then length (pc_passes t) = Suc (length (pc_passes s)) else pc_passes t = pc_passes s)
    \<and> (if fl_interval F = 0 then \<exists>k. pc_phase t = Exited k else pc_phase t = Sleeping)"
proof -
  let ?sel = "selectProviders (pd_env D w2) operator client rev (fl_dueLimit F) (fl_apiURL F) (fl_byJwt F)"
  let ?pins = "refreshGeolocationPins (pd_env D w1) operator (fl_pinRefreshInterval F) (pc_now s) (pc_now s) (pc_pins s)"
  have ar: "\<forall>xs :: string list. mset (rev xs) = mset xs" by simp
  show ?thesis
  proof (cases "se_err ?sel")
    case (Some e)
    show ?thesis
      using main_step.unselected[OF assms order_refl order_refl order_refl ar refl refl Some] Some
      by (intro exI[of _ "s\<lparr> pc_pins := ?pins, pc_now := pc_now s, pc_phase := after_failure (fl_interval F) \<rparr>"])
        (simp add: after_failure_def)
  next
    case None
    define P where "P = sch_Prober (process_scheduler D operator F ?pins (se_serverDriven ?sel))"
    define conc where "conc = sch_Concurrency (process_scheduler D operator F ?pins (se_serverDriven ?sel))"
    define ttl where "ttl = sch_CacheTTL (process_scheduler D operator F ?pins (se_serverDriven ?sel))"
    let ?s0 = "start_pass ttl (pc_now s) (process_cache (se_serverDriven ?sel) s) (se_ids ?sel)"
    have r0: "reachable (prober_answers P) conc ttl (pc_now s) (process_cache (se_serverDriven ?sel) s) (se_ids ?sel) ?s0"
      by (simp add: reachable_def)
    then obtain r where r: "(step (prober_answers P) conc ttl)\<^sup>*\<^sup>* ?s0 r" "returned r"
      using prober_pass.reachable_returns[OF r0] by blast
    have reach: "runs (process_scheduler D operator F ?pins (se_serverDriven ?sel)) (pc_now s)
        (process_cache (se_serverDriven ?sel) s) (se_ids ?sel) r"
      using r(1) by (simp add: runs_def reachable_def P_def conc_def ttl_def)
    show ?thesis
      using main_step.passed[OF assms order_refl order_refl order_refl ar refl refl None reach r(2)] None
      by (intro exI conjI) (assumption, simp_all add: with_cache_def after_pass_def)
  qed
qed

text \<open>
  C21. The process never gets stuck: whatever the server answers to the refresh and to the
  selection, a turn of the loop can be completed, with a pass exactly when a list was had, and a
  process that is to keep running then sleeps and can be woken into its next turn, after a
  failure as after a pass.
\<close>

theorem process_continues:
  "(pc_phase s = Looping \<longrightarrow> (\<exists>t. main_step D client operator F s t
      \<and> pc_pins t = refreshGeolocationPins (pd_env D w1) operator (fl_pinRefreshInterval F) (pc_now s) (pc_now s) (pc_pins s)
      \<and> (if se_err (selectProviders (pd_env D w2) operator client rev (fl_dueLimit F) (fl_apiURL F) (fl_byJwt F)) = None
         then length (pc_passes t) = Suc (length (pc_passes s)) else pc_passes t = pc_passes s)
      \<and> (fl_interval F \<noteq> 0 \<longrightarrow> pc_phase t = Sleeping
           \<and> (\<exists>u. main_step D client operator F t u \<and> pc_phase u = Looping \<and> pc_now u = pc_now t + fl_interval F))))
   \<and> (\<nexists>t. main_step D client operator F s t) = (\<exists>k. pc_phase s = Exited k)"
proof -
  have wake: "\<exists>u. main_step D client operator F t u \<and> pc_phase u = Looping \<and> pc_now u = pc_now t + fl_interval F"
    if "pc_phase t = Sleeping" for t
    using main_step.woken[OF that order_refl] by fastforce
  have stuck: "\<exists>k. pc_phase s = Exited k" if "\<nexists>t. main_step D client operator F s t"
    using that looping_step wake by (metis main_phase.exhaust)
  have over: "\<nexists>t. main_step D client operator F s t" if "pc_phase s = Exited k" for k
    using that by (auto elim!: main_stepE)
  show ?thesis
    using looping_step[of s D client operator F w1 w2] wake stuck over by metis
qed

subsection \<open>A concrete process\<close>

lemma sample_turn:
  "\<exists>t. process_reaches sample_production (answering 200) (sample_started F) 9 t
    \<and> main_step (sample_production\<lparr> pd_cfg := sa_tunnelCfg (sample_started F) \<rparr>) (answering 200) (sa_operator (sample_started F)) F
        (process0 (sa_pins (sample_started F)) 9) t
    \<and> (if fl_interval F = 0 then \<exists>k. pc_phase t = Exited k else pc_phase t = Sleeping)"
proof -
  have "pc_phase (process0 (sa_pins (sample_started F)) 9) = Looping" by (simp add: process0_def)
  from looping_step[OF this, of "sample_production\<lparr> pd_cfg := sa_tunnelCfg (sample_started F) \<rparr>" "answering 200"
      "sa_operator (sample_started F)" F]
  obtain t where "main_step (sample_production\<lparr> pd_cfg := sa_tunnelCfg (sample_started F) \<rparr>) (answering 200) (sa_operator (sample_started F)) F
      (process0 (sa_pins (sample_started F)) 9) t"
    "if fl_interval F = 0 then \<exists>k. pc_phase t = Exited k else pc_phase t = Sleeping" by blast
  moreover have "sa_flags (sample_started F) = F" by (simp add: sample_started_def)
  ultimately show ?thesis unfolding process_reaches_def by (auto intro!: exI[of _ t])
qed

theorem process_invariant_witness:
  "\<exists>t. process_reaches sample_production (answering 200) (sample_started (sample_flags\<lparr> fl_interval := Hour \<rparr>)) 9 t
     \<and> pc_phase t = Sleeping \<and> covers (pins_get (pc_pins t))"
proof -
  let ?F = "sample_flags\<lparr> fl_interval := Hour \<rparr>"
  obtain t where t: "process_reaches sample_production (answering 200) (sample_started ?F) 9 t"
    "if fl_interval ?F = 0 then \<exists>k. pc_phase t = Exited k else pc_phase t = Sleeping" using sample_turn by blast
  have "pc_phase t = Sleeping" using t(2) by (simp add: Hour_def duration_units)
  moreover have "main_start confined_host ?F = Inr (sample_started ?F)"
    by (simp add: confined_start Hour_def duration_units)
  from process_invariant[OF this sample_production_ok t(1)]
  have "covers (pins_get (pc_pins t))" by (simp add: confined_host_def open_host_def)
  ultimately show ?thesis using t(1) by blast
qed

theorem exit_status_witness:
  "\<exists>t k. process_reaches sample_production (answering 200) (sample_started (sample_flags\<lparr> fl_interval := 0 \<rparr>)) 9 t
     \<and> pc_phase t = Exited k \<and> (k = 0 \<or> k = 1)"
proof -
  let ?F = "sample_flags\<lparr> fl_interval := 0 \<rparr>"
  obtain t where t: "process_reaches sample_production (answering 200) (sample_started ?F) 9 t"
    "if fl_interval ?F = 0 then \<exists>k. pc_phase t = Exited k else pc_phase t = Sleeping" using sample_turn by blast
  then obtain k where k: "pc_phase t = Exited k" by auto
  have "main_start confined_host ?F = Inr (sample_started ?F)"
    by (simp add: confined_start)
  from exit_status[OF this sample_production_ok t(1) k] have "k = 0 \<or> k = 1"
    by (auto simp: sample_started_def)
  then show ?thesis using t(1) k by blast
qed

theorem process_continues_witness:
  "\<exists>t. main_step sample_production (answering 200) (operator_of (answering 200) sample_flags) sample_flags
      (process0 pins0 9) t \<and> pc_phase t = Sleeping"
proof -
  have "pc_phase (process0 pins0 9) = Looping" by (simp add: process0_def)
  moreover have "fl_interval sample_flags \<noteq> 0" by (simp add: sample_flags_defs)
  ultimately show ?thesis
    using process_continues[of "process0 pins0 9" sample_production "answering 200" "operator_of (answering 200) sample_flags"
        sample_flags 0 0] by blast
qed

end
