(* ===== verification/Main_Recorded.thy ===== *)
theory Main_Recorded
  imports Main_Loop
begin

text \<open>
  The parts together: a process of \<open>cmd/egress-prober/main.go\<close> whose tunnels are those of
  \<open>providertunnel/\<close>. The theorem follows a success that a pass counted back through the
  scheduler, the probe, the submission, the consensus and the pins to the peers that answered;
  a complete concrete process, from its flags to its exit status, meets all its hypotheses.
\<close>

text \<open>
  What was recorded of a provider whose tunnel took the pins: a probe opened a tunnel \<open>t\<close> and
  located its egress through it; the location is confident, at least two sources agree on its
  code whose answers are authentic, that is came from peers that hold one of these pins' keys of
  the source; and the server answered 200 to the document that submits this location.
\<close>

definition authentic_record :: "'w production \<Rightarrow> Client \<Rightarrow> flags \<Rightarrow> pinSet \<Rightarrow> string \<Rightarrow> bool" where
  "authentic_record D operator F pins pid \<longleftrightarrow> (\<exists>w0 t loc k.
     probe_located (D\<lparr> pd_pins := (\<lambda>_. pins) \<rparr>) (fl_probeTimeout F) (bandwidth_hosts D operator F) pid w0 t loc
   \<and> cl_CountryConfident loc
   \<and> MinSources \<le> count_if (\<lambda>r. sr_OK r \<and> normalizeCountry (pd_unicode D) (sr_CountryCode r) = cl_CountryCode loc
        \<and> authentic (pd_unicode D) (pd_lib D) (pd_network D t (pd_next D w0)) (pins_get pins) r) (cl_Sources loc)
   \<and> answered_with (send (pd_env D ((pd_next D ^^ k) w0)) operator
        (post operator ''/network/provider-egress-location'' (submit_body (pd_env D ((pd_next D ^^ k) w0)) pid loc))) 200)"

text \<open>Every network behind a tunnel obeys TLS.\<close>

definition tunnelled :: "'w production \<Rightarrow> bool" where
  "tunnelled D \<longleftrightarrow> (\<forall>t w. standard_tls (pd_network D t w))"

lemma recorded_authentic_record:
  assumes "tunnelled D" "recorded D operator F pins pid" "covers (pins_get pins)"
  shows "authentic_record D operator F pins pid"
proof -
  let ?D = "D\<lparr> pd_pins := (\<lambda>_. pins) \<rparr>"
  let ?hosts = "DestinationHosts @ bandwidth_hosts D operator F"
  obtain t w0 k loc where l: "probe_located ?D (fl_probeTimeout F) (bandwidth_hosts D operator F) pid w0 t loc"
    and conf: "cl_CountryConfident loc"
    and votes: "MinSources \<le> country_votes (pd_unicode D) (filter sr_OK (cl_Sources loc)) (cl_CountryCode loc)"
    and answer: "answered_with (send (pd_env D ((pd_next D ^^ k) w0)) operator
        (post operator ''/network/provider-egress-location'' (submit_body (pd_env D ((pd_next D ^^ k) w0)) pid loc))) 200"
    using assms(2) by (auto simp: recorded_def recorded_location_def)
  define w where "w = pd_next D w0"
  have "tn_pins t = pins_get pins" using probe_located_pins[OF l] by simp
  then have loc: "LocateWithOptions (pd_unicode D) (pd_lib D) (pd_now D w)
      (Some (httpClientOverDialerWithHosts (pd_unicode D) (pd_crypto D) (pd_network D t w) (pins_get pins) ?hosts (fl_probeTimeout F)))
      (per_source (fl_probeTimeout F)) = Inr loc"
    using l by (simp add: probe_located_def tunnel_client_def HTTPClientForHosts_def w_def)
  have "standard_tls (pd_network D t w)" using assms(1) by (simp add: tunnelled_def)
  from located_authentic[OF assms(3) this loc]
  have au: "\<And>r. r \<in> set (cl_Sources loc) \<Longrightarrow> sr_OK r \<Longrightarrow>
      authentic (pd_unicode D) (pd_lib D) (pd_network D t w) (pins_get pins) r"
    by (simp add: list_all_iff)
  have "count_if (\<lambda>r. sr_OK r \<and> normalizeCountry (pd_unicode D) (sr_CountryCode r) = cl_CountryCode loc) (cl_Sources loc)
      \<le> count_if (\<lambda>r. sr_OK r \<and> normalizeCountry (pd_unicode D) (sr_CountryCode r) = cl_CountryCode loc
        \<and> authentic (pd_unicode D) (pd_lib D) (pd_network D t w) (pins_get pins) r) (cl_Sources loc)"
    by (rule count_if_mono) (use au in blast)
  then show ?thesis
    unfolding authentic_record_def w_def[symmetric] using l conf votes answer
    by (intro exI[of _ w0] exI[of _ t] exI[of _ loc] exI[of _ k]) (simp add: sr_OK_votes w_def[symmetric])
qed

text \<open>
  C1. What the process records is genuine, end to end. Every pass of a process that has started
  ran with one pin set, which the server itself had served, at the start or at a refresh: for
  each source its leaf and its intermediate pin. The successes it counts are results of probes
  of providers of its list; and for each of them the server has answered 200 to the document of
  a confident location which that provider's probe located, through a tunnel with these pins,
  and whose country code at least two sources reported over connections to peers that hold one
  of these pins' keys of the source, whatever the provider did to the traffic in its tunnel.
\<close>

theorem recorded_authentic:
  assumes "main_start S given = Inr st"
    and "unicode_ok (pd_unicode D)" and "\<And>w. pd_now D w \<noteq> 0" and "tunnelled D"
    and "process_reaches D client st now s" and "q \<in> set (pc_passes s)"
  shows "served_pins (answers_of S D) (sa_operator st) (pins_get (pq_pins q)) \<and> covers (pins_get (pq_pins q))
    \<and> su_Submitted (pq_sum q) = count_if (\<lambda>x. snd x = None) (pq_results q)
    \<and> (\<forall>pid. (pid, None) \<in> set (pq_results q) \<longrightarrow> pid \<in> set (pq_ids q)
         \<and> authentic_record (configured D st) (sa_operator st) (sa_flags st) (pq_pins q) pid)"
proof -
  have tls: "tunnelled (configured D st)" using assms(4) by (simp add: tunnelled_def)
  have pass: "pass_sound (configured D st) (sa_operator st) (sa_flags st) q"
    and served: "served_pins (answers_of S D) (sa_operator st) (pins_get (pq_pins q))"
    using process_reaches_ok[OF assms(1-3,5)] assms(6) by (auto simp: process_ok_def list_all_iff)
  have cov: "covers (pins_get (pq_pins q))" using pass unfolding pass_sound_def by blast
  have "pid \<in> set (pq_ids q) \<and> authentic_record (configured D st) (sa_operator st) (sa_flags st) (pq_pins q) pid"
    if "(pid, None) \<in> set (pq_results q)" for pid
  proof -
    have "result_sound (configured D st) (sa_operator st) (sa_flags st) q (pid, None)"
      using pass that unfolding pass_sound_def list_all_iff by blast
    then show ?thesis using recorded_authentic_record[OF tls _ cov] by (simp add: result_sound_def)
  qed
  then show ?thesis using served cov pass unfolding pass_sound_def by blast
qed

subsection \<open>A genuine process\<close>

definition genuine_pins :: pinSet where
  "genuine_pins = \<lparr> pn_pins = sample_pins, pn_fetchedAt = 9 \<rparr>"

lemma sample_tunnelled: "tunnelled sample_production"
  using genuine_standard by (simp add: tunnelled_def sample_production_def)

lemma sample_over_genuine_pins: "over_genuine (sample_production\<lparr> pd_cfg := c, pd_pins := (\<lambda>_. genuine_pins) \<rparr>)"
  using sample_over_genuine by (simp add: over_genuine_def genuine_pins_def)

lemma sample_production_env: "pd_env sample_production w = sample_env"
  by (simp add: sample_production_def)

lemma genuine_answered:
  assumes "plain_base (fl_apiURL F)"
  shows "answered_with (send sample_env (operator_of (answering 200) F)
    (post (operator_of (answering 200) F) ''/network/provider-egress-location'' doc)) 200"
proof -
  have "NewRequest (ie_URL sample_env) (server_url (operator_of (answering 200) F) ''/network/provider-egress-location'') = None"
    using assms endpoint_paths(1) by (intro server_request) (simp_all add: operator_of_def)
  then show ?thesis
    by (simp add: answered_with_def send_def post_def) (simp add: httpClient_def operator_of_def answering_def)
qed

lemma genuine_due:
  assumes "1 \<le> limit" "fl_apiURL F = ''https://op''" "fl_dueURL F = []"
  shows "selectProviders sample_env (operator_of (answering 200) F) client arrange limit api jwt
    = \<lparr> se_ids = [''p''], se_serverDriven = True, se_err = None, se_skipped = [] \<rparr>"
proof -
  let ?u = "server_url (operator_of (answering 200) F) ''/network/provider-egress-due?limit='' @ Itoa (nat limit)"
  have due_url: "limited_due_url sample_env (operator_of (answering 200) F) limit = Inr ?u" "NewRequest (ie_URL sample_env) ?u = None"
    using server_due[OF _ _ assms(1)] assms(2,3) plain_op(1) by (simp_all add: operator_of_def)
  have "?u \<noteq> ''https://op/network/geolocation-source-pins''"
    by (simp add: server_url_def operator_of_def assms(2) TrimRight_def)
  then have "due_answer sample_env (operator_of (answering 200) F) limit
      = Inr \<lparr> hr_StatusCode = 200, hr_Header = Map.empty, hr_Body = \<lparr> bd_data = marshal server_doc, bd_err = None \<rparr> \<rparr>"
    using due_url by (simp add: due_answer_def send_def get_def GET_def httpClient_def operator_of_def answering_def)
  moreover have "decode_due sample_env server_doc = Inr [''p'']"
    using server_members(1,4) by (auto simp: decode_due_def strings_type_def str_type_def decode_strings_def)
  ultimately have "Due sample_env (operator_of (answering 200) F) limit = Inr [''p'']"
    using Due_answer[OF assms(1)] sample_documents(2)[of sample_env] by (simp add: status_error_def)
  then show ?thesis by (simp add: selectProviders_def)
qed

lemma genuine_probe:
  assumes "plain_base (fl_apiURL F)"
  shows "prober_answers (process_prober (sample_production\<lparr> pd_cfg := c \<rparr>) (operator_of (answering 200) F) F genuine_pins) pid None"
proof -
  let ?D = "sample_production\<lparr> pd_cfg := c, pd_pins := (\<lambda>_. genuine_pins) \<rparr>"
  let ?op = "operator_of (answering 200) F"
  obtain sampler targets where ns: "newSampler (sample_production\<lparr> pd_cfg := c \<rparr>) ?op (fl_skipBandwidth F)
      (fl_publicAPIURL F) (fl_bandwidthCDNURL F) (fl_bandwidthTimeout F) = (sampler, targets)" by fastforce
  define P where "P = newProber ?D (fl_probeTimeout F) ?op (fl_egressHealthAll F) sampler (TargetHosts targets)"
  have P: "process_prober (sample_production\<lparr> pd_cfg := c \<rparr>) ?op F genuine_pins = P"
    by (simp add: process_prober_def ns P_def)
  obtain f err r' where run: "probeOne P pid (fresh_run 0) = ((f, err), r')" by (metis surj_pair)
  obtain loc w t where l: "err = Submit_location sample_env ?op pid (Some loc)" "cl_CountryConfident loc"
    "LocateWithOptions (pd_unicode ?D) (pd_lib ?D) (pd_now ?D w)
       (Some (tunnel_client ?D t (DestinationHosts @ TargetHosts targets) (fl_probeTimeout F) w)) (per_source (fl_probeTimeout F)) = Inr loc"
    using over_genuine_probe(2)[OF sample_over_genuine_pins run[unfolded P_def]]
    by (auto simp: sample_production_env)
  have "unicode_ok (pd_unicode ?D)" "pd_now ?D w \<noteq> 0" using sample_production_ok by simp_all
  moreover have "cl_ProbedAt loc = pd_now ?D w"
    using locate_fields[OF l(3)[unfolded LocateWithOptions_def]] by blast
  then have "marshal_error sample_env loc = None" by (intro sample_marshals) (simp_all add: sample_production_def)
  ultimately have "err = None"
    using located_submission(1)[OF _ l(3)] l(1,2) genuine_answered[OF assms] by simp
  then have "fst (ProbeOne P pid (fresh_run 0)) = None" using run by (simp add: ProbeOne_def)
  then show ?thesis unfolding P prober_answers_def by blast
qed

lemma genuine_pass:
  "\<exists>s q. process_reaches sample_production (answering 200) (sample_started (sample_flags\<lparr> fl_interval := 0 \<rparr>)) 9 s
    \<and> pc_phase s = Exited 0 \<and> pc_passes s = [q] \<and> pq_pins q = genuine_pins \<and> (''p'', None) \<in> set (pq_results q)"
proof -
  let ?F = "sample_flags\<lparr> fl_interval := 0 \<rparr>"
  let ?op = "operator_of (answering 200) ?F"
  let ?D = "sample_production\<lparr> pd_cfg := tunnelCfg ?F ''id'' \<rparr>"
  let ?s = "process0 genuine_pins 9"
  let ?P = "process_prober ?D ?op ?F genuine_pins"
  have sel: "selectProviders (pd_env ?D 0) ?op (answering 200) rev (fl_dueLimit ?F) (fl_apiURL ?F) (fl_byJwt ?F)
      = \<lparr> se_ids = [''p''], se_serverDriven = True, se_err = None, se_skipped = [] \<rparr>"
    using genuine_due[of "fl_dueLimit ?F" ?F] by (simp add: sample_production_env sample_flags_defs)
  have ref: "genuine_pins = refreshGeolocationPins (pd_env ?D 0) ?op (fl_pinRefreshInterval ?F) 9 9 (pc_pins ?s)"
    by (simp add: refreshGeolocationPins_def pins_age_def process0_def genuine_pins_def sample_flags_defs)
  obtain r where r0: "reachable (\<lambda>q r. r = None) (fl_concurrency ?F) 0 9 (\<lambda>_. None) [''p''] r" "returned r"
    "0 < su_Submitted (ps_sum (sd_pass r))" using seq_success[of "[''p'']"] by blast
  have "results_sound (\<lambda>q r. r = None) [''p''] r" by (rule reachable_results[OF r0(1)])
  then have res: "su_Submitted (ps_sum (sd_pass r)) = count_if (\<lambda>x. snd x = None) (ps_results (sd_pass r))"
    "list_all (\<lambda>(pid, err). pid \<in> set [''p''] \<and> err = None) (ps_results (sd_pass r))"
    unfolding results_sound_def by blast+
  have "0 < count_if (\<lambda>x. snd x = None) (ps_results (sd_pass r))" using r0(3) res(1) by linarith
  then have "ps_results (sd_pass r) \<noteq> []" by auto
  then have result: "(''p'', None) \<in> set (ps_results (sd_pass r))"
    using res(2) by (cases "ps_results (sd_pass r)") auto
  have base: "plain_base (fl_apiURL ?F)" using plain_op(1) by (simp add: sample_flags_defs)
  have r: "reachable (prober_answers ?P) (fl_concurrency ?F) 0 9 (process_cache True ?s) [''p''] r"
    using reachable_mono[OF _ r0(1), of "prober_answers ?P"] genuine_probe[OF base] by (simp add: process_cache_def process0_def)
  have run: "runs (process_scheduler ?D ?op ?F genuine_pins True) 9 (process_cache True ?s) [''p''] r"
    using r by (simp add: runs_def)
  have ar: "\<forall>xs :: string list. mset (rev xs) = mset xs" by simp
  have ph: "pc_phase ?s = Looping" "pc_now ?s \<le> 9" by (simp_all add: process0_def)
  have "main_step ?D (answering 200) ?op ?F ?s
      (with_cache True (sd_probed r) (?s\<lparr> pc_pins := genuine_pins, pc_now := sd_now r,
             pc_phase := after_pass (fl_interval ?F) (ps_sum (sd_pass r)),
             pc_passes := pc_passes ?s @ [\<lparr> pq_serverDriven = True, pq_ids = [''p''], pq_sum = ps_sum (sd_pass r),
                pq_pins = genuine_pins, pq_results = ps_results (sd_pass r) \<rparr>] \<rparr>))" (is "main_step _ _ _ _ _ ?t")
    using main_step.passed[OF ph order_refl order_refl ar ref sel[symmetric], simplified, OF run r0(2)] by simp
  then have "process_reaches sample_production (answering 200) (sample_started ?F) 9 ?t"
    unfolding process_reaches_def by (intro r_into_rtranclp) (simp add: sample_started_def genuine_pins_def)
  moreover have "pc_phase ?t = Exited 0 \<and> pc_passes ?t = [\<lparr> pq_serverDriven = True, pq_ids = [''p''], pq_sum = ps_sum (sd_pass r),
      pq_pins = genuine_pins, pq_results = ps_results (sd_pass r) \<rparr>]"
    using r0(3) by (simp add: with_cache_def after_pass_def process0_def)
  ultimately show ?thesis using result by (intro exI[of _ ?t]) simp
qed

theorem recorded_authentic_witness:
  "\<exists>s. process_reaches sample_production (answering 200) (sample_started (sample_flags\<lparr> fl_interval := 0 \<rparr>)) 9 s
    \<and> pc_phase s = Exited 0
    \<and> authentic_record (configured sample_production (sample_started (sample_flags\<lparr> fl_interval := 0 \<rparr>)))
        (operator_of (answering 200) (sample_flags\<lparr> fl_interval := 0 \<rparr>)) (sample_flags\<lparr> fl_interval := 0 \<rparr>) genuine_pins ''p''"
proof -
  let ?F = "sample_flags\<lparr> fl_interval := 0 \<rparr>"
  obtain s q where s: "process_reaches sample_production (answering 200) (sample_started ?F) 9 s"
    "pc_phase s = Exited 0" "pc_passes s = [q]" "pq_pins q = genuine_pins" "(''p'', None) \<in> set (pq_results q)"
    using genuine_pass by blast
  have start: "main_start confined_host ?F = Inr (sample_started ?F)" by (simp add: confined_start)
  have "q \<in> set (pc_passes s)" using s(3) by simp
  from recorded_authentic[OF start sample_production_ok sample_tunnelled s(1) this] show ?thesis
    using s(1,2,4,5) by (auto simp: sample_started_def)
qed

end
