(* ===== verification/Spec2Isabelle.thy ===== *)
theory Spec2Isabelle
  imports Main_Recorded
begin

text \<open>
  A verification library for the URnetwork operator proxy: the egress prober, a Go program that
  measures where the providers of the network really are and whether they carry traffic, and
  reports both to the operator's server.

  \<^bold>\<open>The program.\<close> \<open>cmd/egress-prober/main.go\<close> validates its flags, proves that the host cannot
  reach a geolocation source directly (\<open>confinement/\<close>), fetches the certificate pins of the
  sources from the server (\<open>ingest/pins.go\<close>), and then loops: refresh the pins, ask the server
  for the providers that are due (\<open>ingest/schedule.go\<close>) or enumerate them, run a pass over them
  (\<open>prober/schedule.go\<close>). A pass runs a bounded number of probes at once
  (\<open>prober/prober.go\<close>); each opens a tunnel to one provider (\<open>providertunnel/\<close>), asks three
  geolocation sources through it and elects a consensus (\<open>geolocate/\<close>), runs the egress health
  check (\<open>egresshealth/\<close>), submits the location (\<open>ingest/ingest.go\<close>), measures bandwidth
  (\<open>bandwidth/\<close>), closes the tunnel and reports the attempt.

  \<^bold>\<open>The theories\<close>, each with the definitions named as in the code:

  \<^item> \<open>Prelude\<close>: Go's types, results with errors, de-duplication, counting, folds over maps.
  \<^item> \<open>Go_Strings\<close>, \<open>Go_Text\<close>, \<open>Go_Net\<close>, \<open>Go_Errors\<close>: what the program uses of the standard
    library: UTF-8, case mapping, trimming, splitting, quoting (\<open>%q\<close>), addresses, requests and
    responses, wrapped errors.
  \<^item> \<open>Go_Crypto\<close>: SHA-256 on 32-bit words and base64, so that a pin is computed from the bytes of
    a key and not assumed. The lemmas show that base64 reads back what it wrote and that a pin is
    44 ASCII characters; \<open>Sample_Digest\<close> evaluates the test vector of FIPS 180-4 in the kernel,
    and the examples of pinned and forged keys rest on it.
  \<^item> \<open>Go_Time\<close>: the calendar date of a day and the RFC 3339 text of an instant, as
    \<open>time.Time\<close> marshals itself. The lemmas show which instants have a text and that a reader
    gets the instant back.
  \<^item> \<open>Go_Json_Read\<close>, \<open>Go_Json\<close>: \<open>encoding/json\<close>. The reader parses the bytes of a document (with
    its limit of 10000 nested containers) and decodes it into structs; the writer is
    \<open>json.Marshal\<close>. The lemmas show that the reader's recursion consumes, and that it reads back
    whatever the writer wrote.
  \<^item> \<open>Go_Url\<close>: \<open>net/url\<close> as the program uses it: parsing a URL, its host name and port, queries
    and their encoding, the text of a URL, and the address a transport dials for it. Lemmas give
    the result on plain URLs, so that the tables of the program are evaluated and not assumed.
  \<^item> \<open>Placename\<close>, \<open>Countries\<close>, \<open>Consensus\<close>, \<open>Consensus_City\<close>, \<open>Sources\<close>: \<open>geolocate/\<close>. The
    lemmas show soundness and completeness of the elections and their independence of the order
    of sources and of map iteration, and the outcome of \<open>Locate\<close>.
  \<^item> \<open>Pinning\<close>, \<open>Tunnel\<close>, \<open>Tunnel_Client\<close>: \<open>providertunnel/\<close>. The lemmas show that only allowed
    hosts are dialled, what a handshake with a pinned host accepts, namely a pinned key on a
    verified chain, the life of a tunnel, and that a provider cannot forge what a source says. Calls into the
    connect library are events; the network behind a tunnel is the provider's to choose.
    \<open>Genuine_Tunnel\<close> is an honest provider, the example that the later theories run on.
  \<^item> \<open>Confinement\<close>: \<open>confinement/\<close>, the dials a self-check makes and what a pass is evidence of.
  \<^item> \<open>Health_Table\<close>, \<open>Health_Sample\<close>, \<open>Health_Check\<close>, \<open>Health_Budget\<close>: \<open>egresshealth/\<close>, the
    table of 139 destinations row by row, the sampling, one check and its tallies, and the
    semaphore as list scheduling.
  \<^item> \<open>Bandwidth_Measure\<close>, \<open>Bandwidth_Sampler\<close>: \<open>bandwidth/\<close>, eight streams and their steady
    window, then reservations and submissions. What a body delivers is a script of reads; the
    figure is specified over the reads themselves (\<open>deliveries\<close>, \<open>reads_after\<close>), of which the
    counters of a stream are shown to be a function.
  \<^item> \<open>Ingest\<close>, \<open>Ingest_Documents\<close>: \<open>ingest/\<close>, the requests, what each answer means, and what a
    server that parses the bytes it is sent reads in the documents. \<open>Sample_Server\<close> is a server
    for the examples.
  \<^item> \<open>Prober\<close>, \<open>Prober_Outcome\<close>: one probe as a list of events that an automaton accepts, and
    the logs of any number of them.
  \<^item> \<open>Scheduler\<close>, \<open>Scheduler_Outcome\<close>, \<open>Pass\<close>: a pass as a step relation in which the loop and
    every goroutine take their steps in any order and time passes at every step. A ghost field,
    \<open>ps_results\<close>, keeps each result that was counted; no step reads it.
  \<^item> \<open>Main_Pins\<close>, \<open>Main_Confinement\<close>, \<open>Main_Allowlist\<close>, \<open>Main_Prober\<close>, \<open>Main_Requests\<close>,
    \<open>Main_Providers\<close>, \<open>Main_Startup\<close>, \<open>Main_Loop\<close>: \<open>main.go\<close>, from the flags to the exit status.
    The theorems compose those of the parts: that no request of a probe is one its tunnel refuses,
    which requests carry the operator's secret, that the diagnostics of a probe do not change its
    outcome, which guards of the components validated flags can still meet, what a process that
    started has checked, what holds at every moment of it, and what its exit status means. The
    record of a pass keeps, beside what is logged, the pins and the results of the pass as ghosts.
  \<^item> \<open>Main_Recorded\<close>: the loop over the tunnels of \<open>providertunnel/\<close>: what is on record is
    authentic under the pins that the pass ran with, with a complete concrete process that
    records a location and exits with 0.

  \<^bold>\<open>State.\<close> Go's structs are records, its error returns the left of a sum or an option, its maps
  partial maps with the list of their keys where the program iterates them. Code that calls
  injected dependencies passes a world \<open>'w\<close>, any type, through every call, so each call may
  depend on all that happened before; the record \<open>production\<close> says what the libraries do in it.
  Goroutines are modelled where their order matters: the scheduler (any interleaving of single
  steps), the health check (the slots of its semaphore) and the bandwidth streams (all opened
  before any is read). The interfaces are locales: \<open>endpoint\<close> (an operation of the server's
  client, five interpretations), \<open>source_channel\<close> (what a location needs of its HTTP client,
  interpreted by the client of a tunnel), \<open>wired_prober\<close> (what a prober must be wired with,
  interpreted by the prober that \<open>main.go\<close> builds), \<open>probing\<close> (what a scheduler needs of its
  prober, interpreted by the model of \<open>prober.go\<close>), \<open>metered\<close> (what bounds the bytes a
  bandwidth test takes, interpreted by \<open>stream_meter\<close> and \<open>target_meter\<close>), \<open>tournament\<close> (an
  election by a total preference, over the \<open>linorder\<close> instances of the entries) and
  \<open>prefix_order\<close> (names that continue each other).

  \<^bold>\<open>Termination.\<close> There is no fuel: every function is total, the loops that could run for ever
  are the steps of the scheduler, which are shown to be well-founded, and the main loop, which
  is shown never to be stuck. The JSON reader checks that its input shrinks, and the lemma
  \<open>json_shorter\<close> shows that the check never fails. Durations and instants are integers of
  nanoseconds; the two products of durations that the program computes are reduced to \<open>int64\<close>,
  and the theorems about budgets name the range in which they are exact (a \<open>-probe-timeout\<close> of up to
  104 years). Rates are exact rationals.

  \<^bold>\<open>Parameters\<close>, with what is assumed of them where a theorem says so: the Unicode tables above
  U+00FF (\<open>unicode_ok\<close>), x509, the chain verification of TLS, IDNA for host
  names that are not ASCII, the texts of floats and the errors of \<open>url.Parse\<close> and of JSON,
  the HTTP client, the dialer and the resolver, the clock (never zero) and the
  offset of its zone, the random source, the
  order of map iteration (a permutation), the token parser.

  \<^bold>\<open>Not modelled.\<close> The connect library (multi-client, tun, DNS over HTTPS) and the JWT library
  are not part of the repository; \<open>flag.Parse\<close> and the usage text, the wording of log lines
  other than those whose number or content a theorem is about, and signal delivery beyond the
  moment it arrives and its effect on a sleeping process are plain input and output.
\<close>

end
